(* ===== verification/Prelude.thy ===== *)
theory Prelude
  imports
    Main
    "HOL-Library.Word"
    "HOL-Library.AList"
    "HOL-Library.Char_ord"
    "HOL-Library.List_Lexorder"
    "HOL-Library.Product_Lexorder"
    "HOL-Library.Multiset"
    "HOL-Library.Sublist"
begin

text \<open>
  Shared vocabulary of the development: the types that stand for Go's basic types, Go's
  errors with their text and wrapping, the sequencing of fallible and of stateful calls, the
  decimal rendering used by \<^verbatim>\<open>fmt\<close>, and the generic lemmas on lists and association lists
  that the component theories share.

  Conventions. A Go \<^verbatim>\<open>string\<close> and a \<^verbatim>\<open>[]byte\<close> are both lists of 8-bit characters; the order
  on them is the bytewise order of \<^verbatim>\<open>sort.Strings\<close>. A \<^verbatim>\<open>uint64\<close> is a 64-bit word. A Go map
  is an association list with distinct keys; the order of the list stands for the unspecified
  iteration order, so a statement about an arbitrary such list is about every iteration order.
  A pointer that may be nil is an option.
\<close>

section \<open>Basic types\<close>

type_synonym bytes = string
type_synonym u64 = "64 word"

abbreviation max_int64 :: int where
  "max_int64 \<equiv> 9223372036854775807"

section \<open>Collections of facts\<close>

text \<open>Unfolding rules for the sequencing combinators, and frame facts of the operations.\<close>

named_theorems seq_defs "definitions of the sequencing combinators"
named_theorems frame "what an operation leaves unchanged"

section \<open>Decimal and quoted rendering\<close>

fun fmt_nat :: "nat \<Rightarrow> string" where
  "fmt_nat n =
     (if n < 10 then [char_of (48 + n)] else fmt_nat (n div 10) @ [char_of (48 + n mod 10)])"

declare fmt_nat.simps [simp del]

definition fmt_int :: "int \<Rightarrow> string" where
  "fmt_int i = (if i < 0 then ''-'' @ fmt_nat (nat (- i)) else fmt_nat (nat i))"

definition fmt_u64 :: "u64 \<Rightarrow> string" where
  "fmt_u64 v = fmt_nat (unat v)"

definition hex_digit :: "nat \<Rightarrow> char" where
  "hex_digit n = (if n < 10 then char_of (48 + n) else char_of (87 + n))"

definition hex_byte :: "char \<Rightarrow> string" where
  "hex_byte c = [hex_digit (of_char c div 16), hex_digit (of_char c mod 16)]"

text \<open>\<^verbatim>\<open>hex.EncodeToString\<close>: two lower-case digits per byte.\<close>

definition hex_encode :: "bytes \<Rightarrow> string" where
  "hex_encode bs = concat (map hex_byte bs)"

text \<open>
  The verb \<^verbatim>\<open>%q\<close>: double quotes, with quotes, backslashes and control characters escaped.
  Characters above 0x7E stand for printable text, which \<^verbatim>\<open>%q\<close> leaves as it is.
\<close>

definition quote_char :: "char \<Rightarrow> string" where
  "quote_char c =
     (if c = CHR 0x22 then [CHR 0x5C, CHR 0x22] else if c = CHR 0x5C then [CHR 0x5C, CHR 0x5C]
      else if c = CHR 0x07 then [CHR 0x5C, CHR ''a''] else if c = CHR 0x08 then [CHR 0x5C, CHR ''b'']
      else if c = CHR 0x0C then [CHR 0x5C, CHR ''f''] else if c = CHR 0x0A then [CHR 0x5C, CHR ''n'']
      else if c = CHR 0x0D then [CHR 0x5C, CHR ''r''] else if c = CHR 0x09 then [CHR 0x5C, CHR ''t'']
      else if c = CHR 0x0B then [CHR 0x5C, CHR ''v'']
      else if (of_char c :: nat) < 32 \<or> c = CHR 0x7F then [CHR 0x5C, CHR ''x''] @ hex_byte c
      else [c])"

definition fmt_q :: "string \<Rightarrow> string" where
  "fmt_q s = [CHR 0x22] @ concat (map quote_char s) @ [CHR 0x22]"

section \<open>Errors\<close>

text \<open>
  Go errors. \<open>Errorf\<close> carries the text of a \<^verbatim>\<open>fmt.Errorf\<close> or \<^verbatim>\<open>errors.New\<close> without a wrapped
  cause, \<open>Wrapf\<close> a prefix and the cause wrapped by \<^verbatim>\<open>%w\<close>. The sentinels of \<^verbatim>\<open>store\<close> and
  \<^verbatim>\<open>authz\<close> are constructors of their own, so that \<^verbatim>\<open>errors.Is\<close> can find them under wrapping.
  \<open>DbError\<close> is an error of the database driver: a violated constraint, no row, or a call that
  did not reach the database; its text is the driver's. \<open>StatusError\<close> is an error that already
  carries a gRPC status. \<open>ConflictError\<close> is \<^verbatim>\<open>compiler.FQNConflictError\<close>, and \<open>LibError\<close> an
  error returned by a third-party package, with its text.
\<close>

datatype db_error = NoRows | UniqueViolation | ForeignKeyViolation | Unavailable

datatype code =
    InvalidArgument | NotFoundCode | FailedPrecondition | PermissionDenied | Unauthenticated
  | Internal

record fqn_conflict =
  fc_FQN :: string
  fc_Kind :: string
  fc_ChildFile :: string
  fc_AncestorFile :: string

datatype error =
    Errorf string
  | Wrapf string error
  | ErrParentCycle
  | ErrNamespaceNotFound
  | ErrPermissionDenied
  | DbError db_error
  | StatusError code string
  | ConflictError string "fqn_conflict list"
  | LibError string

type_synonym 'a result = "error + 'a"

text \<open>\<^verbatim>\<open>errors.Is\<close>: the target is somewhere in the chain of wrapped errors.\<close>

fun errors_is :: "error \<Rightarrow> error \<Rightarrow> bool" where
  "errors_is (Wrapf p e) t = (Wrapf p e = t \<or> errors_is e t)"
| "errors_is e t = (e = t)"

section \<open>Sequencing\<close>

text \<open>
  The four-line idiom \<^verbatim>\<open>x, err := f(); if err != nil { return err }\<close>, without and with a
  state, and the same for a loop over a slice whose body may fail.
\<close>

definition bindE :: "'a result \<Rightarrow> ('a \<Rightarrow> 'b result) \<Rightarrow> 'b result" where
  "bindE m f = (case m of Inl e \<Rightarrow> Inl e | Inr a \<Rightarrow> f a)"

definition wrapE :: "string \<Rightarrow> 'a result \<Rightarrow> 'a result" where
  "wrapE p m = (case m of Inl e \<Rightarrow> Inl (Wrapf p e) | Inr a \<Rightarrow> Inr a)"

fun mapE :: "('a \<Rightarrow> 'b result) \<Rightarrow> 'a list \<Rightarrow> 'b list result" where
  "mapE f [] = Inr []"
| "mapE f (x # xs) = bindE (f x) (\<lambda>y. bindE (mapE f xs) (\<lambda>ys. Inr (y # ys)))"

fun foldE :: "('a \<Rightarrow> 's \<Rightarrow> 's result) \<Rightarrow> 'a list \<Rightarrow> 's \<Rightarrow> 's result" where
  "foldE f [] s = Inr s"
| "foldE f (x # xs) s = bindE (f x s) (foldE f xs)"

declare bindE_def [seq_defs] wrapE_def [seq_defs]

lemma bindE_Inr_iff [simp]: "bindE m f = Inr b \<longleftrightarrow> (\<exists>a. m = Inr a \<and> f a = Inr b)"
  by (auto simp: bindE_def split: sum.splits)

lemma bindE_simps [simp]: "bindE (Inl e) f = Inl e" "bindE (Inr a) f = f a"
  by (simp_all add: bindE_def)

lemma wrapE_Inr_iff [simp]: "wrapE p m = Inr a \<longleftrightarrow> m = Inr a"
  by (auto simp: wrapE_def split: sum.splits)

lemma wrapE_simps [simp]: "wrapE p (Inl e) = Inl (Wrapf p e)" "wrapE p (Inr a) = Inr a"
  by (simp_all add: wrapE_def)

lemma mapE_Inr_iff: "mapE f xs = Inr ys \<longleftrightarrow> map f xs = map Inr ys"
  by (induction xs arbitrary: ys) (auto simp: Cons_eq_map_conv)

lemma mapE_Inr_length: "mapE f xs = Inr ys \<Longrightarrow> length ys = length xs"
  by (metis length_map mapE_Inr_iff)

lemma mapE_Inr_mem: "mapE f xs = Inr ys \<Longrightarrow> y \<in> set ys \<Longrightarrow> \<exists>x \<in> set xs. f x = Inr y"
  by (induction xs arbitrary: ys) auto

lemma mapE_Inr_mem_arg: "mapE f xs = Inr ys \<Longrightarrow> x \<in> set xs \<Longrightarrow> \<exists>y \<in> set ys. f x = Inr y"
  by (induction xs arbitrary: ys) auto

lemma mapE_total: "(\<And>x. x \<in> set xs \<Longrightarrow> \<exists>y. f x = Inr y) \<Longrightarrow> \<exists>ys. mapE f xs = Inr ys"
  by (induction xs) auto

lemma foldE_append: "foldE f (xs @ ys) s = bindE (foldE f xs s) (foldE f ys)"
  by (induction xs arbitrary: s) (auto simp: bindE_def split: sum.splits)

lemma foldE_invariant:
  assumes "foldE f xs s = Inr s'" and "P s"
    and "\<And>x t t'. x \<in> set xs \<Longrightarrow> P t \<Longrightarrow> f x t = Inr t' \<Longrightarrow> P t'"
  shows "P s'"
  using assms
proof (induction xs arbitrary: s)
  case Nil
  then show ?case by simp
next
  case (Cons x xs)
  from Cons.prems(1) obtain t where "f x s = Inr t" "foldE f xs t = Inr s'" by auto
  with Cons.IH Cons.prems show ?case by (metis list.set_intros)
qed

lemma foldE_cong [fundef_cong]:
  assumes "xs = ys" and "s = t" and "\<And>x u. x \<in> set ys \<Longrightarrow> f x u = g x u"
  shows "foldE f xs s = foldE g ys t"
  using assms by (induction ys arbitrary: xs s t) (auto simp: bindE_def split: sum.splits)

section \<open>Stateful actions\<close>

text \<open>
  A call that reads and changes a state and may fail: it returns a result and the state it leaves,
  also when it fails. \<open>catchA\<close> is an \<^verbatim>\<open>if err != nil\<close> whose body goes on, \<open>forA\<close> a loop that stops
  at the first error, \<open>zoomA\<close> a call on a part of the state.
\<close>

type_synonym ('s, 'a) act = "'s \<Rightarrow> 'a result \<times> 's"

definition retA :: "'a \<Rightarrow> ('s, 'a) act" where
  "retA a s = (Inr a, s)"

definition failA :: "error \<Rightarrow> ('s, 'a) act" where
  "failA e s = (Inl e, s)"

definition pureA :: "'a result \<Rightarrow> ('s, 'a) act" where
  "pureA r s = (r, s)"

definition getA :: "('s \<Rightarrow> 'a) \<Rightarrow> ('s, 'a) act" where
  "getA f s = (Inr (f s), s)"

definition modifyA :: "('s \<Rightarrow> 's) \<Rightarrow> ('s, unit) act" where
  "modifyA f s = (Inr (), f s)"

definition bindA :: "('s, 'a) act \<Rightarrow> ('a \<Rightarrow> ('s, 'b) act) \<Rightarrow> ('s, 'b) act" where
  "bindA m f s = (case m s of (Inl e, s') \<Rightarrow> (Inl e, s') | (Inr a, s') \<Rightarrow> f a s')"

definition thenA :: "('s, 'a) act \<Rightarrow> ('s, 'b) act \<Rightarrow> ('s, 'b) act" where
  "thenA m n = bindA m (\<lambda>_. n)"

definition wrapA :: "string \<Rightarrow> ('s, 'a) act \<Rightarrow> ('s, 'a) act" where
  "wrapA p m s = (case m s of (r, s') \<Rightarrow> (wrapE p r, s'))"

definition catchA :: "('s, 'a) act \<Rightarrow> (error \<Rightarrow> ('s, 'a) act) \<Rightarrow> ('s, 'a) act" where
  "catchA m h s = (case m s of (Inl e, s') \<Rightarrow> h e s' | (Inr a, s') \<Rightarrow> (Inr a, s'))"

fun forA :: "('a \<Rightarrow> ('s, 'b) act) \<Rightarrow> 'a list \<Rightarrow> ('s, 'b list) act" where
  "forA f [] = retA []"
| "forA f (x # xs) = bindA (f x) (\<lambda>y. bindA (forA f xs) (\<lambda>ys. retA (y # ys)))"

definition zoomA :: "('s \<Rightarrow> 't) \<Rightarrow> ('t \<Rightarrow> 's \<Rightarrow> 's) \<Rightarrow> ('t, 'a) act \<Rightarrow> ('s, 'a) act" where
  "zoomA get put m s = (case m (get s) of (r, t) \<Rightarrow> (r, put t s))"

lemmas act_defs = retA_def failA_def pureA_def getA_def modifyA_def bindA_def thenA_def wrapA_def
  catchA_def zoomA_def

text \<open>A successful run, step by step.\<close>

lemma retA_Inr [simp]: "retA a s = (Inr b, t) \<longleftrightarrow> a = b \<and> s = t"
  by (auto simp: retA_def)

lemma failA_Inr [simp]: "failA e s = (Inr b, t) \<longleftrightarrow> False"
  by (simp add: failA_def)

lemma pureA_Inr [simp]: "pureA r s = (Inr b, t) \<longleftrightarrow> r = Inr b \<and> s = t"
  by (auto simp: pureA_def)

lemma getA_Inr [simp]: "getA f s = (Inr b, t) \<longleftrightarrow> b = f s \<and> s = t"
  by (auto simp: getA_def)

lemma modifyA_Inr [simp]: "modifyA f s = (Inr u, t) \<longleftrightarrow> t = f s"
  by (auto simp: modifyA_def)

lemma bindA_Inr [simp]: "bindA m f s = (Inr b, t) \<longleftrightarrow> (\<exists>a u. m s = (Inr a, u) \<and> f a u = (Inr b, t))"
  by (auto simp: bindA_def split: prod.splits sum.splits)

lemma thenA_Inr [simp]: "thenA m n s = (Inr b, t) \<longleftrightarrow> (\<exists>a u. m s = (Inr a, u) \<and> n u = (Inr b, t))"
  by (simp add: thenA_def)

lemma wrapA_Inr [simp]: "wrapA p m s = (Inr b, t) \<longleftrightarrow> m s = (Inr b, t)"
  by (auto simp: wrapA_def split: prod.splits)

lemma zoomA_Inr [simp]: "zoomA get put m s = (Inr b, t) \<longleftrightarrow> (\<exists>u. m (get s) = (Inr b, u) \<and> t = put u s)"
  by (auto simp: zoomA_def split: prod.splits)

text \<open>
  What an action does to the state whatever its result. The interface is a preorder on states (an
  invariant that is kept, a frame condition, a log that only grows); the lemmas carry it from the
  parts of an action to the whole.
\<close>

locale state_order =
  fixes ok :: "'s \<Rightarrow> 's \<Rightarrow> bool"
  assumes ok_refl: "ok s s" and ok_trans: "ok s t \<Longrightarrow> ok t u \<Longrightarrow> ok s u"
begin

definition holds :: "('s, 'a) act \<Rightarrow> bool" where
  "holds m \<longleftrightarrow> (\<forall>s. ok s (snd (m s)))"

lemma holdsD: "holds m \<Longrightarrow> m s = (r, t) \<Longrightarrow> ok s t"
  by (metis holds_def snd_conv)

lemma holdsI: "(\<And>s r t. m s = (r, t) \<Longrightarrow> ok s t) \<Longrightarrow> holds m"
  by (simp add: holds_def) (metis prod.collapse)

lemma holds_simple: "holds (retA a)" "holds (failA e)" "holds (pureA r)" "holds (getA f)"
  by (simp_all add: holds_def retA_def failA_def pureA_def getA_def ok_refl)

lemma holds_modify: "(\<And>s. ok s (f s)) \<Longrightarrow> holds (modifyA f)"
  by (simp add: holds_def modifyA_def)

lemma holds_bind:
  assumes "holds m" and "\<And>a. holds (f a)"
  shows "holds (bindA m f)"
proof (rule holdsI)
  fix s r t assume "bindA m f s = (r, t)"
  then show "ok s t"
    using assms by (auto simp: bindA_def split: prod.splits sum.splits intro: holdsD ok_trans)
qed

lemma holds_then: "holds m \<Longrightarrow> holds n \<Longrightarrow> holds (thenA m n)"
  by (simp add: thenA_def holds_bind)

lemma holds_wrap: "holds m \<Longrightarrow> holds (wrapA p m)"
  by (rule holdsI) (auto simp: wrapA_def split: prod.splits intro: holdsD)

lemma holds_catch:
  assumes "holds m" and "\<And>e. holds (h e)"
  shows "holds (catchA m h)"
proof (rule holdsI)
  fix s r t assume "catchA m h s = (r, t)"
  then show "ok s t"
    using assms by (auto simp: catchA_def split: prod.splits sum.splits intro: holdsD ok_trans)
qed

lemma holds_for: "(\<And>x. x \<in> set xs \<Longrightarrow> holds (f x)) \<Longrightarrow> holds (forA f xs)"
  by (induction xs) (auto simp: holds_simple intro!: holds_bind)

lemma holds_if: "(b \<Longrightarrow> holds m) \<Longrightarrow> (\<not> b \<Longrightarrow> holds n) \<Longrightarrow> holds (if b then m else n)"
  by simp

lemma holds_option: "(x = None \<Longrightarrow> holds m) \<Longrightarrow> (\<And>a. x = Some a \<Longrightarrow> holds (f a)) \<Longrightarrow>
    holds (case x of None \<Rightarrow> m | Some a \<Rightarrow> f a)"
  by (cases x) auto

lemma holds_let: "holds (f x) \<Longrightarrow> holds (let y = x in f y)"
  by simp

lemma holds_zoom:
  assumes "\<And>s r t. m (get s) = (r, t) \<Longrightarrow> ok s (put t s)"
  shows "holds (zoomA get put m)"
  using assms by (auto simp: holds_def zoomA_def split: prod.splits)

lemmas holds_rules = holds_simple holds_bind holds_then holds_wrap holds_catch holds_for holds_if
  holds_option holds_let

end

section \<open>Lists and association lists\<close>

text \<open>The first success of a list of attempts: lookup through tiers, nearest first.\<close>

fun first_some :: "('a \<Rightarrow> 'b option) \<Rightarrow> 'a list \<Rightarrow> 'b option" where
  "first_some f [] = None"
| "first_some f (x # xs) = (case f x of Some y \<Rightarrow> Some y | None \<Rightarrow> first_some f xs)"

lemma first_some_cong [fundef_cong]:
  assumes "xs = ys" and "\<And>x. x \<in> set ys \<Longrightarrow> f x = g x"
  shows "first_some f xs = first_some g ys"
  using assms by (induction ys arbitrary: xs) (auto split: option.splits)

lemma first_some_None_iff: "first_some f xs = None \<longleftrightarrow> (\<forall>x \<in> set xs. f x = None)"
  by (induction xs) (auto split: option.splits)

lemma first_some_Some_iff:
  "first_some f xs = Some y \<longleftrightarrow>
     (\<exists>ys x zs. xs = ys @ x # zs \<and> f x = Some y \<and> (\<forall>z \<in> set ys. f z = None))"
proof (induction xs)
  case Nil
  then show ?case by simp
next
  case (Cons a xs)
  show ?case
  proof (cases "f a")
    case None
    have "(\<exists>ys x zs. a # xs = ys @ x # zs \<and> f x = Some y \<and> (\<forall>z \<in> set ys. f z = None)) \<longleftrightarrow>
      (\<exists>ys x zs. xs = ys @ x # zs \<and> f x = Some y \<and> (\<forall>z \<in> set ys. f z = None))" (is "?l = ?r")
    proof
      assume ?l
      with None show ?r by (fastforce simp: Cons_eq_append_conv)
    next
      assume ?r
      then obtain ys x zs where "xs = ys @ x # zs" "f x = Some y" "\<forall>z \<in> set ys. f z = None"
        by blast
      with None have "a # xs = (a # ys) @ x # zs \<and> f x = Some y \<and> (\<forall>z \<in> set (a # ys). f z = None)"
        by simp
      then show ?l by blast
    qed
    with None Cons.IH show ?thesis by simp
  next
    case (Some b)
    then have "first_some f (a # xs) = Some y \<longleftrightarrow> f a = Some y" by simp
    also have "\<dots> \<longleftrightarrow> (\<exists>ys x zs. a # xs = ys @ x # zs \<and> f x = Some y \<and> (\<forall>z \<in> set ys. f z = None))"
      (is "?l = ?r")
    proof
      assume ?l
      then have "a # xs = [] @ a # xs \<and> f a = Some y \<and> (\<forall>z \<in> set []. f z = None)" by simp
      then show ?r by blast
    next
      assume ?r
      with Some show ?l by (auto simp: Cons_eq_append_conv)
    qed
    finally show ?thesis .
  qed
qed

lemma first_some_append:
  "first_some f (xs @ ys) =
     (case first_some f xs of Some y \<Rightarrow> Some y | None \<Rightarrow> first_some f ys)"
  by (induction xs) (auto split: option.splits)

lemma find_Some_mem: "find P xs = Some x \<Longrightarrow> x \<in> set xs \<and> P x"
  by (auto simp: find_Some_iff)

lemma find_key_unique:
  assumes "distinct (map f xs)" and "x \<in> set xs"
  shows "find (\<lambda>y. f y = f x) xs = Some x"
  using assms by (induction xs) (auto simp: image_iff)

lemma find_key_Some_iff:
  assumes "distinct (map f xs)"
  shows "find (\<lambda>y. f y = k) xs = Some x \<longleftrightarrow> x \<in> set xs \<and> f x = k"
  using find_key_unique [OF assms] by (auto dest: find_Some_mem)

lemma find_key_None_iff: "find (\<lambda>y. f y = k) xs = None \<longleftrightarrow> k \<notin> f ` set xs"
  by (auto simp: find_None_iff)

lemma concat_map_eq_Nil_iff: "concat (map f xs) = [] \<longleftrightarrow> (\<forall>x \<in> set xs. f x = [])"
  by simp

lemma distinct_map_eq:
  "distinct (map f xs) \<Longrightarrow> x \<in> set xs \<Longrightarrow> y \<in> set xs \<Longrightarrow> f x = f y \<Longrightarrow> x = y"
  by (auto simp: distinct_map inj_on_def)

lemma keyed_UN_iff:
  assumes "distinct (map k xs)" and "g \<in> set xs" and "\<And>x. x \<in> set xs \<Longrightarrow> a \<in> S x \<Longrightarrow> k x = k g"
  shows "a \<in> (\<Union>x \<in> set xs. S x) \<longleftrightarrow> a \<in> S g"
proof
  assume "a \<in> (\<Union>x \<in> set xs. S x)"
  then obtain x where "x \<in> set xs" "a \<in> S x" by blast
  with assms distinct_map_eq [OF assms(1)] show "a \<in> S g" by metis
next
  assume "a \<in> S g"
  with assms(2) show "a \<in> (\<Union>x \<in> set xs. S x)" by blast
qed

lemma keyed_image_iff:
  assumes "distinct (map k xs)" and "g \<in> set xs" and "\<And>x. x \<in> set xs \<Longrightarrow> a = h x \<Longrightarrow> k x = k g"
  shows "a \<in> h ` set xs \<longleftrightarrow> a = h g"
  using keyed_UN_iff [of k xs g a "\<lambda>x. {h x}"] assms by auto

lemma disjoint_subset_Un: "X \<inter> A = {} \<Longrightarrow> X \<subseteq> A \<union> B \<longleftrightarrow> X \<subseteq> B"
  by blast

text \<open>A symmetric relation between all elements of a list does not depend on their order.\<close>

lemma sorted_wrt_middle:
  assumes "symp R"
  shows "sorted_wrt R (xs @ x # ys) \<longleftrightarrow> sorted_wrt R (x # xs @ ys)"
  using assms by (auto simp: sorted_wrt_append dest: sympD)

lemma sorted_wrt_mset:
  assumes "symp R" and "mset xs = mset ys"
  shows "sorted_wrt R xs \<longleftrightarrow> sorted_wrt R ys"
  using assms(2)
proof (induction xs arbitrary: ys)
  case Nil
  then show ?case by simp
next
  case (Cons x xs)
  then have "x \<in> set ys" by (metis list.set_intros(1) mset_eq_setD)
  then obtain us vs where ys: "ys = us @ x # vs" by (auto dest: split_list)
  with Cons.prems have m: "mset xs = mset (us @ vs)" by simp
  then have "set xs = set (us @ vs)" by (rule mset_eq_setD)
  with Cons.IH [OF m] show ?case unfolding ys sorted_wrt_middle [OF assms(1)] by simp
qed

text \<open>Hexadecimal text determines the bytes.\<close>

lemma of_char_hex_digit: "k < 16 \<Longrightarrow> of_char (hex_digit k) = (if k < 10 then 48 + k else 87 + k)"
  by (simp add: hex_digit_def take_bit_eq_mod)

lemma hex_digit_inj:
  assumes "m < 16" and "n < 16" and "hex_digit m = hex_digit n"
  shows "m = n"
proof -
  from assms have "(if m < 10 then 48 + m else 87 + m) = (if n < 10 then 48 + n else 87 + n)"
    by (metis of_char_hex_digit)
  then show ?thesis by (auto split: if_splits)
qed

lemma hex_byte_inj: "hex_byte c = hex_byte d \<Longrightarrow> c = d"
proof -
  assume "hex_byte c = hex_byte d"
  then have "hex_digit (of_char c div 16) = hex_digit (of_char d div 16)"
    and "hex_digit (of_char c mod 16) = hex_digit (of_char d mod 16)" by (simp_all add: hex_byte_def)
  moreover have "of_char c div 16 < (16 :: nat)" "of_char d div 16 < (16 :: nat)"
    by (simp_all add: less_mult_imp_div_less)
  ultimately have "of_char c div 16 = (of_char d div 16 :: nat)" "of_char c mod 16 = (of_char d mod 16 :: nat)"
    by (auto intro: hex_digit_inj)
  then have "of_char c = (of_char d :: nat)" by (metis div_mult_mod_eq)
  then show "c = d" by simp
qed

lemma hex_encode_inj: "hex_encode xs = hex_encode ys \<longleftrightarrow> xs = ys"
proof
  show "hex_encode xs = hex_encode ys \<Longrightarrow> xs = ys"
  proof (induction xs arbitrary: ys)
    case Nil
    then show ?case by (cases ys) (auto simp: hex_encode_def hex_byte_def)
  next
    case (Cons x xs)
    then obtain y ys' where ys: "ys = y # ys'" by (cases ys) (auto simp: hex_encode_def hex_byte_def)
    have "length (hex_byte x) = length (hex_byte y)" by (simp add: hex_byte_def)
    with Cons.prems ys have "hex_byte x = hex_byte y" "hex_encode xs = hex_encode ys'"
      by (simp_all add: hex_encode_def)
    with Cons.IH ys show ?case by (auto dest: hex_byte_inj)
  qed
qed simp

text \<open>Splitting at a separator that does not occur before (or after) it.\<close>

lemma split_at_first: "c \<notin> set xs \<Longrightarrow> c \<notin> set ys \<Longrightarrow> xs @ c # us = ys @ c # vs \<longleftrightarrow> xs = ys \<and> us = vs"
proof (induction xs arbitrary: ys)
  case Nil
  then show ?case by (cases ys) auto
next
  case (Cons x xs)
  then show ?case by (cases ys) auto
qed

lemma split_at_last:
  assumes "c \<notin> set us" and "c \<notin> set vs"
  shows "xs @ c # us = ys @ c # vs \<longleftrightarrow> xs = ys \<and> us = vs"
proof -
  have "xs @ c # us = ys @ c # vs \<longleftrightarrow> rev us @ c # rev xs = rev vs @ c # rev ys"
    by (metis (no_types) append.assoc append_Cons append_Nil rev.simps(2) rev_append rev_is_rev_conv)
  then show ?thesis using assms by (auto simp: split_at_first)
qed

lemma map_of_None_notin: "map_of al k = None \<longleftrightarrow> k \<notin> fst ` set al"
  by (rule map_of_eq_None_iff)

end
