(* ===== verification/Descriptors.thy ===== *)
theory Descriptors
  imports Prelude
begin

text \<open>
  The descriptor trees of \<^verbatim>\<open>protoreflect\<close> that every component of the registry walks, as data:
  what each accessor used by the code returns is a field. Lists of descriptors keep the order
  of the accessors \<^verbatim>\<open>Get(i)\<close>; \<^verbatim>\<open>ByName\<close> and \<^verbatim>\<open>ByNumber\<close> return the first descriptor of the
  list with that name or number, or nil.

  The rest of the theory is the record of the third-party functions the code calls
  (protobuf-go's registries and serialisation, the protocompile compiler and parser, SHA-256):
  they are parameters of every definition that uses them. What the code relies on is stated as
  named predicates on that record, from the packages' documentation.
\<close>

section \<open>Descriptors\<close>

datatype kind =
    BoolKind | EnumKind | Int32Kind | Sint32Kind | Uint32Kind | Int64Kind | Sint64Kind
  | Uint64Kind | Sfixed32Kind | Fixed32Kind | FloatKind | Sfixed64Kind | Fixed64Kind
  | DoubleKind | StringKind | BytesKind | MessageKind | GroupKind

fun kind_string :: "kind \<Rightarrow> string" where
  "kind_string BoolKind = ''bool''"
| "kind_string EnumKind = ''enum''"
| "kind_string Int32Kind = ''int32''"
| "kind_string Sint32Kind = ''sint32''"
| "kind_string Uint32Kind = ''uint32''"
| "kind_string Int64Kind = ''int64''"
| "kind_string Sint64Kind = ''sint64''"
| "kind_string Uint64Kind = ''uint64''"
| "kind_string Sfixed32Kind = ''sfixed32''"
| "kind_string Fixed32Kind = ''fixed32''"
| "kind_string FloatKind = ''float''"
| "kind_string Sfixed64Kind = ''sfixed64''"
| "kind_string Fixed64Kind = ''fixed64''"
| "kind_string DoubleKind = ''double''"
| "kind_string StringKind = ''string''"
| "kind_string BytesKind = ''bytes''"
| "kind_string MessageKind = ''message''"
| "kind_string GroupKind = ''group''"

datatype cardinality = Optional | Required | Repeated

fun cardinality_string :: "cardinality \<Rightarrow> string" where
  "cardinality_string Optional = ''optional''"
| "cardinality_string Required = ''required''"
| "cardinality_string Repeated = ''repeated''"

text \<open>
  \<open>fld_message\<close> and \<open>fld_enum\<close> are the full names of \<^verbatim>\<open>Message()\<close> and \<^verbatim>\<open>Enum()\<close>; the code reads
  them only under the matching kind.
\<close>

record field_desc =
  fld_name :: string
  fld_full_name :: string
  fld_number :: int
  fld_kind :: kind
  fld_cardinality :: cardinality
  fld_message :: string
  fld_enum :: string

record enum_value_desc =
  ev_name :: string
  ev_full_name :: string
  ev_number :: int

record enum_desc =
  en_name :: string
  en_full_name :: string
  en_values :: "enum_value_desc list"

record oneof_desc =
  oo_name :: string
  oo_full_name :: string

record ext_desc =
  ext_name :: string
  ext_full_name :: string
  ext_number :: int
  ext_message :: string

datatype message_desc =
  Message
    (msg_name: string) (msg_full_name: string)
    (msg_fields: "field_desc list") (msg_messages: "message_desc list")
    (msg_enums: "enum_desc list") (msg_exts: "ext_desc list")
    (msg_oneofs: "oneof_desc list")

record method_desc =
  mtd_name :: string
  mtd_full_name :: string
  mtd_input :: string
  mtd_output :: string

record service_desc =
  svc_name :: string
  svc_full_name :: string
  svc_methods :: "method_desc list"

datatype file_desc =
  File
    (file_path: string) (file_package: string) (file_imports: "file_desc list")
    (file_messages: "message_desc list") (file_enums: "enum_desc list")
    (file_exts: "ext_desc list") (file_services: "service_desc list")

definition msgByName :: "message_desc list \<Rightarrow> string \<Rightarrow> message_desc option" where
  "msgByName ms n = find (\<lambda>m. msg_name m = n) ms"

definition enumByName :: "enum_desc list \<Rightarrow> string \<Rightarrow> enum_desc option" where
  "enumByName es n = find (\<lambda>e. en_name e = n) es"

definition oneofByName :: "oneof_desc list \<Rightarrow> string \<Rightarrow> oneof_desc option" where
  "oneofByName os n = find (\<lambda>d. oo_name d = n) os"

definition fieldByNumber :: "field_desc list \<Rightarrow> int \<Rightarrow> field_desc option" where
  "fieldByNumber fs n = find (\<lambda>f. fld_number f = n) fs"

definition valueByNumber :: "enum_value_desc list \<Rightarrow> int \<Rightarrow> enum_value_desc option" where
  "valueByNumber vs n = find (\<lambda>v. ev_number v = n) vs"

definition serviceByName :: "service_desc list \<Rightarrow> string \<Rightarrow> service_desc option" where
  "serviceByName ss n = find (\<lambda>s. svc_name s = n) ss"

definition methodByName :: "method_desc list \<Rightarrow> string \<Rightarrow> method_desc option" where
  "methodByName ms n = find (\<lambda>m. mtd_name m = n) ms"

lemmas by_defs = msgByName_def enumByName_def oneofByName_def fieldByNumber_def
  valueByNumber_def serviceByName_def methodByName_def

lemma by_None_iff:
  "msgByName ms n = None \<longleftrightarrow> n \<notin> msg_name ` set ms"
  "enumByName es n = None \<longleftrightarrow> n \<notin> en_name ` set es"
  "oneofByName os n = None \<longleftrightarrow> n \<notin> oo_name ` set os"
  "fieldByNumber fs i = None \<longleftrightarrow> i \<notin> fld_number ` set fs"
  "valueByNumber vs i = None \<longleftrightarrow> i \<notin> ev_number ` set vs"
  "serviceByName ss n = None \<longleftrightarrow> n \<notin> svc_name ` set ss"
  "methodByName ds n = None \<longleftrightarrow> n \<notin> mtd_name ` set ds"
  by (simp_all only: by_defs find_key_None_iff)

lemma by_Some_D:
  "msgByName ms n = Some m \<Longrightarrow> m \<in> set ms \<and> msg_name m = n"
  "enumByName es n = Some e \<Longrightarrow> e \<in> set es \<and> en_name e = n"
  "fieldByNumber fs i = Some f \<Longrightarrow> f \<in> set fs \<and> fld_number f = i"
  "serviceByName ss n = Some s \<Longrightarrow> s \<in> set ss \<and> svc_name s = n"
  "methodByName ds n = Some d \<Longrightarrow> d \<in> set ds \<and> mtd_name d = n"
  by (auto simp: by_defs dest: find_Some_mem)

section \<open>Third-party code\<close>

text \<open>A wire-format file descriptor (\<^verbatim>\<open>descriptorpb.FileDescriptorProto\<close>): imports are paths.\<close>

record fdproto =
  fp_name :: string
  fp_package :: string
  fp_dependency :: "string list"
  fp_messages :: "message_desc list"
  fp_enums :: "enum_desc list"
  fp_exts :: "ext_desc list"
  fp_services :: "service_desc list"

text \<open>The dynamic types of \<^verbatim>\<open>dynamicpb\<close>, identified by their descriptors.\<close>

datatype pbtype = MessageType message_desc | EnumType enum_desc | ExtensionType ext_desc

fun type_full_name :: "pbtype \<Rightarrow> string" where
  "type_full_name (MessageType m) = msg_full_name m"
| "type_full_name (EnumType e) = en_full_name e"
| "type_full_name (ExtensionType x) = ext_full_name x"

text \<open>
  protocompile's resolvers as the code builds them, and the tokens and diagnostics of its parser
  (\<open>diag_is_error\<close> is \<^verbatim>\<open>Level() <= report.Error\<close>). A \<open>SourceResolver\<close> holds the map behind its
  accessor; \<open>ZeroSourceResolver\<close> is the zero value of that type.
\<close>

datatype resolver =
    SourceResolver "string \<Rightarrow> bytes option"
  | ZeroSourceResolver
  | CompositeResolver "resolver list"
  | WithStandardImports resolver

record token =
  tok_text :: string
  tok_synthetic :: bool
  tok_skippable :: bool

record diagnostic =
  diag_is_error :: bool
  diag_message :: string

datatype search_result = FoundSource bytes | FoundStandard string

text \<open>
  The functions the code calls in other modules. The contents of a \<^verbatim>\<open>protoregistry.Files\<close> are
  the list of its files in the order \<^verbatim>\<open>RangeFiles\<close> visits them, the contents of a
  \<^verbatim>\<open>protoregistry.Types\<close> the list of its types; a failed call returns the package's error text
  on the left.
\<close>

record lib =
  lib_RegisterFile :: "file_desc list \<Rightarrow> file_desc \<Rightarrow> string + file_desc list"
  lib_FindFileByPath :: "file_desc list \<Rightarrow> string \<Rightarrow> file_desc option"
  lib_RegisterType :: "pbtype list \<Rightarrow> pbtype \<Rightarrow> string + pbtype list"
  lib_FindMessageByName :: "pbtype list \<Rightarrow> string \<Rightarrow> string + message_desc"
  lib_FindMessageByURL :: "pbtype list \<Rightarrow> string \<Rightarrow> string + message_desc"
  lib_FindExtensionByName :: "pbtype list \<Rightarrow> string \<Rightarrow> string + ext_desc"
  lib_FindExtensionByNumber :: "pbtype list \<Rightarrow> string \<Rightarrow> int \<Rightarrow> string + ext_desc"
  lib_NewFiles :: "fdproto list \<Rightarrow> string + file_desc list"
  lib_ToProto :: "file_desc \<Rightarrow> fdproto"
  lib_Marshal :: "fdproto list \<Rightarrow> string + bytes"
  lib_Unmarshal :: "bytes \<Rightarrow> string + fdproto list"
  lib_Resolve :: "resolver \<Rightarrow> string \<Rightarrow> search_result option"
  lib_Compile :: "resolver \<Rightarrow> string list \<Rightarrow> string + file_desc list"
  lib_Parse :: "string \<Rightarrow> bytes \<Rightarrow> diagnostic list \<times> token list"
  lib_GlobalFile :: "string \<Rightarrow> bool"
  lib_BundledFile :: "string \<Rightarrow> bytes option"
  lib_Sha256 :: "bytes \<Rightarrow> bytes"
  lib_BuildDeps :: "(string \<times> string) list option"

text \<open>A call of a library function that returns an error text.\<close>

definition libE :: "string + 'a \<Rightarrow> 'a result" where
  "libE m = (case m of Inl s \<Rightarrow> Inl (LibError s) | Inr a \<Rightarrow> Inr a)"

lemma libE_Inr_iff [simp]: "libE m = Inr a \<longleftrightarrow> m = Inr a"
  by (auto simp: libE_def split: sum.splits)

text \<open>
  Documented behaviour, as predicates on the record. \<^verbatim>\<open>Files.FindFileByPath\<close> looks up a file by
  its path. \<^verbatim>\<open>Types.Register*\<close> rejects a type whose full name is taken, or an extension of a field
  number that is taken in the extended message, and otherwise adds the type;
  \<^verbatim>\<open>Types.FindMessageByName\<close> returns the message type registered under the name.
\<close>

definition files_lookup :: "lib \<Rightarrow> bool" where
  "files_lookup L \<longleftrightarrow>
     (\<forall>fs p. lib_FindFileByPath L fs p = find (\<lambda>f. file_path f = p) fs)"

fun types_clash :: "pbtype \<Rightarrow> pbtype \<Rightarrow> bool" where
  "types_clash (ExtensionType x) (ExtensionType y) \<longleftrightarrow>
     ext_full_name x = ext_full_name y \<or> (ext_message x = ext_message y \<and> ext_number x = ext_number y)"
| "types_clash t u \<longleftrightarrow> type_full_name t = type_full_name u"

definition types_register :: "lib \<Rightarrow> bool" where
  "types_register L \<longleftrightarrow>
     (\<forall>ts t. if \<exists>u \<in> set ts. types_clash u t then \<exists>e. lib_RegisterType L ts t = Inl e
        else lib_RegisterType L ts t = Inr (ts @ [t]))"

definition types_lookup :: "lib \<Rightarrow> bool" where
  "types_lookup L \<longleftrightarrow>
     (\<forall>ts n m. inj_on type_full_name (set ts) \<longrightarrow>
        (lib_FindMessageByName L ts n = Inr m \<longleftrightarrow>
           MessageType m \<in> set ts \<and> msg_full_name m = n))"

text \<open>
  protocompile's resolvers: a source resolver answers from its map, a composite one takes the
  first answer, and \<^verbatim>\<open>WithStandardImports\<close> falls back to the standard files.
\<close>

definition resolvers_ok :: "lib \<Rightarrow> bool" where
  "resolvers_ok L \<longleftrightarrow>
     (\<forall>acc p. lib_Resolve L (SourceResolver acc) p = map_option FoundSource (acc p)) \<and>
     (\<forall>rs p. lib_Resolve L (CompositeResolver rs) p = first_some (\<lambda>r. lib_Resolve L r p) rs) \<and>
     (\<forall>r p x. lib_Resolve L r p = Some x \<longrightarrow> lib_Resolve L (WithStandardImports r) p = Some x)"

text \<open>
  \<^verbatim>\<open>proto.Unmarshal\<close> inverts \<^verbatim>\<open>proto.Marshal\<close>, and \<^verbatim>\<open>protodesc.NewFiles\<close> rebuilds the files of a
  self-contained set from their wire form.
\<close>

definition wire_roundtrip :: "lib \<Rightarrow> bool" where
  "wire_roundtrip L \<longleftrightarrow> (\<forall>ps bs. lib_Marshal L ps = Inr bs \<longrightarrow> lib_Unmarshal L bs = Inr ps)"

text \<open>
  \<^verbatim>\<open>protodesc.NewFiles\<close> accepts a set in which every import is present, and rebuilds its files: if
  the files have distinct paths, come after their imports and carry those imports, their wire
  form gives the same files back, in some order.
\<close>

definition self_contained :: "file_desc list \<Rightarrow> bool" where
  "self_contained fds \<longleftrightarrow> distinct (map file_path fds) \<and>
     (\<forall>i < length fds. set (file_imports (fds ! i)) \<subseteq> set (take i fds))"

definition rebuild_ok :: "lib \<Rightarrow> bool" where
  "rebuild_ok L \<longleftrightarrow> (\<forall>fds. self_contained fds \<longrightarrow>
     (\<exists>fs. lib_NewFiles L (map (lib_ToProto L) fds) = Inr fs \<and> set fs = set fds \<and> distinct (map file_path fs)))"

text \<open>\<^verbatim>\<open>Files.RegisterFile\<close> rejects a path that is taken and otherwise adds the file.\<close>

definition files_register :: "lib \<Rightarrow> bool" where
  "files_register L \<longleftrightarrow> (\<forall>fs f fs'. lib_RegisterFile L fs f = Inr fs' \<longrightarrow>
     file_path f \<notin> file_path ` set fs \<and> fs' = fs @ [f])"

subsection \<open>A realisation on lists\<close>

text \<open>
  A small executable realisation of the record, for concrete runs: registries are lists, the
  compiler accepts every file the resolver finds and gives it no declarations, the wire form of
  such files is their paths, one per line, and the digest is the text itself.
\<close>

definition bare_file :: "string \<Rightarrow> file_desc" where
  "bare_file p = File p [] [] [] [] [] []"

definition bare_proto :: "string \<Rightarrow> fdproto" where
  "bare_proto p = \<lparr>fp_name = p, fp_package = [], fp_dependency = [], fp_messages = [], fp_enums = [],
     fp_exts = [], fp_services = []\<rparr>"

definition to_proto :: "file_desc \<Rightarrow> fdproto" where
  "to_proto f = \<lparr>fp_name = file_path f, fp_package = file_package f,
     fp_dependency = map file_path (file_imports f), fp_messages = file_messages f,
     fp_enums = file_enums f, fp_exts = file_exts f, fp_services = file_services f\<rparr>"

fun new_files :: "fdproto list \<Rightarrow> file_desc list \<Rightarrow> string + file_desc list" where
  "new_files [] fs = Inr fs"
| "new_files (p # ps) fs =
     (if fp_name p \<in> file_path ` set fs then Inl ''duplicate file''
      else case those (map (\<lambda>d. find (\<lambda>f. file_path f = d) fs) (fp_dependency p)) of
        None \<Rightarrow> Inl ''could not resolve import''
      | Some imps \<Rightarrow> new_files ps (fs @ [File (fp_name p) (fp_package p) imps (fp_messages p)
          (fp_enums p) (fp_exts p) (fp_services p)]))"

fun split_lines :: "string \<Rightarrow> string \<Rightarrow> string list" where
  "split_lines acc [] = []"
| "split_lines acc (c # cs) =
     (if c = CHR 0x0A then acc # split_lines [] cs else split_lines (acc @ [c]) cs)"

fun list_resolve :: "resolver \<Rightarrow> string \<Rightarrow> search_result option" where
  "list_resolve (SourceResolver acc) p = map_option FoundSource (acc p)"
| "list_resolve ZeroSourceResolver p = None"
| "list_resolve (CompositeResolver rs) p = first_some (\<lambda>r. list_resolve r p) rs"
| "list_resolve (WithStandardImports r) p = list_resolve r p"

definition list_lib :: lib where
  "list_lib = \<lparr>
     lib_RegisterFile = (\<lambda>fs f. if file_path f \<in> file_path ` set fs then Inl ''file already registered''
        else Inr (fs @ [f])),
     lib_FindFileByPath = (\<lambda>fs p. find (\<lambda>f. file_path f = p) fs),
     lib_RegisterType = (\<lambda>ts t. if list_ex (\<lambda>u. types_clash u t) ts
        then Inl ''type already registered'' else Inr (ts @ [t])),
     lib_FindMessageByName = (\<lambda>ts n. case find (\<lambda>t. type_full_name t = n) ts of
        Some (MessageType m) \<Rightarrow> Inr m | _ \<Rightarrow> Inl ''not found''),
     lib_FindMessageByURL = (\<lambda>ts u. case find (\<lambda>t. type_full_name t = rev (takeWhile (\<lambda>c. c \<noteq> CHR ''/'') (rev u))) ts of
        Some (MessageType m) \<Rightarrow> Inr m | _ \<Rightarrow> Inl ''not found''),
     lib_FindExtensionByName = (\<lambda>ts n. case find (\<lambda>t. type_full_name t = n) ts of
        Some (ExtensionType x) \<Rightarrow> Inr x | _ \<Rightarrow> Inl ''not found''),
     lib_FindExtensionByNumber = (\<lambda>ts m i. case find (\<lambda>t. case t of
          ExtensionType x \<Rightarrow> ext_message x = m \<and> ext_number x = i | _ \<Rightarrow> False) ts of
        Some (ExtensionType x) \<Rightarrow> Inr x | _ \<Rightarrow> Inl ''not found''),
     lib_NewFiles = (\<lambda>ps. new_files ps []),
     lib_ToProto = to_proto,
     lib_Marshal = (\<lambda>ps. if list_all (\<lambda>p. p = bare_proto (fp_name p) \<and> CHR 0x0A \<notin> set (fp_name p)) ps
        then Inr (concat (map (\<lambda>p. fp_name p @ [CHR 0x0A]) ps)) else Inl ''unsupported''),
     lib_Unmarshal = (\<lambda>bs. Inr (map bare_proto (split_lines [] bs))),
     lib_Resolve = list_resolve,
     lib_Compile = (\<lambda>r ns. if list_all (\<lambda>n. list_resolve r n \<noteq> None) ns
        then Inr (map bare_file ns) else Inl ''not found''),
     lib_Parse = (\<lambda>_ src. ([], [\<lparr>tok_text = src, tok_synthetic = False, tok_skippable = False\<rparr>])),
     lib_GlobalFile = (\<lambda>_. False),
     lib_BundledFile = (\<lambda>_. None),
     lib_Sha256 = (\<lambda>bs. bs),
     lib_BuildDeps = None\<rparr>"

lemma list_lib_files: "files_lookup list_lib" "files_register list_lib"
  by (auto simp: files_lookup_def files_register_def list_lib_def split: if_splits)

lemma find_type_full_name:
  "inj_on type_full_name (set ts) \<Longrightarrow>
     find (\<lambda>t. type_full_name t = n) ts = Some t \<longleftrightarrow> t \<in> set ts \<and> type_full_name t = n"
  by (induction ts) (auto simp: inj_on_def)

lemma list_lib_types: "types_register list_lib" "types_lookup list_lib"
proof -
  show "types_register list_lib"
    unfolding types_register_def by (simp add: list_lib_def list_ex_iff)
  have "lib_FindMessageByName list_lib ts n = Inr m \<longleftrightarrow>
      find (\<lambda>t. type_full_name t = n) ts = Some (MessageType m)" for ts n m
    by (auto simp: list_lib_def split: option.splits pbtype.splits)
  then show "types_lookup list_lib"
    unfolding types_lookup_def by (simp add: find_type_full_name)
qed

lemma list_lib_resolvers: "resolvers_ok list_lib"
  by (simp add: resolvers_ok_def list_lib_def)

lemma split_lines_line: "CHR 0x0A \<notin> set l \<Longrightarrow> split_lines acc (l @ CHR 0x0A # cs) = (acc @ l) # split_lines [] cs"
  by (induction l arbitrary: acc) auto

lemma list_lib_wire: "wire_roundtrip list_lib"
proof -
  have "map bare_proto (split_lines [] (concat (map (\<lambda>p. fp_name p @ [CHR 0x0A]) ps))) = ps"
    if "list_all (\<lambda>p. p = bare_proto (fp_name p) \<and> CHR 0x0A \<notin> set (fp_name p)) ps" for ps
    using that by (induction ps) (auto simp: split_lines_line)
  then show ?thesis by (auto simp: wire_roundtrip_def list_lib_def split: if_splits)
qed

lemma those_find_paths:
  assumes "distinct (map file_path fs)" and "set imps \<subseteq> set fs"
  shows "those (map (\<lambda>d. find (\<lambda>f. file_path f = d) fs) (map file_path imps)) = Some imps"
  using assms(2) by (induction imps) (auto simp: find_key_unique [OF assms(1)])

lemma new_files_to_proto:
  "self_contained (fs @ fds) \<Longrightarrow> new_files (map to_proto fds) fs = Inr (fs @ fds)"
proof (induction fds arbitrary: fs)
  case Nil
  then show ?case by simp
next
  case (Cons f fds)
  let ?i = "length fs"
  from Cons.prems have d: "distinct (map file_path fs)" "file_path f \<notin> file_path ` set fs"
    by (auto simp: self_contained_def)
  from Cons.prems have "set (file_imports ((fs @ f # fds) ! ?i)) \<subseteq> set (take ?i (fs @ f # fds))"
    unfolding self_contained_def by (metis append_Cons length_append length_Cons less_add_Suc1 add_Suc_right)
  then have "set (file_imports f) \<subseteq> set fs" by simp
  note imps = those_find_paths [OF d(1) this]
  from Cons.IH [of "fs @ [f]"] Cons.prems have "new_files (map to_proto fds) (fs @ [f]) = Inr (fs @ f # fds)"
    by simp
  with d imps show ?case by (simp add: to_proto_def [of f])
qed

lemma list_lib_rebuild: "rebuild_ok list_lib"
  unfolding rebuild_ok_def
proof (intro allI impI)
  fix fds assume fds: "self_contained fds"
  with new_files_to_proto [of "[]" fds]
  have "lib_NewFiles list_lib (map (lib_ToProto list_lib) fds) = Inr fds"
    by (simp add: list_lib_def)
  moreover from fds have "distinct (map file_path fds)" unfolding self_contained_def by blast
  ultimately show "\<exists>fs. lib_NewFiles list_lib (map (lib_ToProto list_lib) fds) = Inr fs
      \<and> set fs = set fds \<and> distinct (map file_path fs)" by blast
qed

end
