(* ===== verification/Snapshot.thy ===== *)
theory Snapshot
  imports Descriptors
begin

text \<open>
  \<^verbatim>\<open>snapshot/snapshot.go\<close>: the immutable compiled view of one schema version, its two
  constructors, and the recursive registration of every message, enum and extension type. The
  lemmas show what the type index of a snapshot holds: exactly the types its files declare, at
  every nesting depth, each full name once.
\<close>

section \<open>Snapshots and their construction\<close>

record snapshot =
  snap_version :: u64
  snap_files :: "file_desc list"
  snap_types :: "pbtype list"
  snap_fileList :: "file_desc list"

fun registerMessage :: "lib \<Rightarrow> message_desc \<Rightarrow> pbtype list \<Rightarrow> pbtype list result" where
  "registerMessage L (Message n fn fs ms es xs os) types =
     bindE (libE (lib_RegisterType L types (MessageType (Message n fn fs ms es xs os)))) (\<lambda>types.
     bindE (foldE (registerMessage L) ms types) (\<lambda>types.
     bindE (foldE (\<lambda>e types. libE (lib_RegisterType L types (EnumType e))) es types) (\<lambda>types.
     foldE (\<lambda>x types. libE (lib_RegisterType L types (ExtensionType x))) xs types)))"

definition registerTypes :: "lib \<Rightarrow> file_desc \<Rightarrow> pbtype list \<Rightarrow> pbtype list result" where
  "registerTypes L fd types =
     bindE (foldE (registerMessage L) (file_messages fd) types) (\<lambda>types.
     bindE (foldE (\<lambda>e types. libE (lib_RegisterType L types (EnumType e))) (file_enums fd) types) (\<lambda>types.
     foldE (\<lambda>x types. libE (lib_RegisterType L types (ExtensionType x))) (file_exts fd) types))"

definition New :: "lib \<Rightarrow> u64 \<Rightarrow> fdproto list \<Rightarrow> snapshot result" where
  "New L version fds =
     bindE (wrapE ''building file registry: '' (libE (lib_NewFiles L fds))) (\<lambda>files.
     bindE (wrapE ''registering types: '' (foldE (registerTypes L) files [])) (\<lambda>types.
     Inr \<lparr>snap_version = version, snap_files = files, snap_types = types, snap_fileList = files\<rparr>))"

text \<open>The loop body of \<^verbatim>\<open>NewFromFiles\<close>, and the function.\<close>

definition registerFile ::
  "lib \<Rightarrow> file_desc \<Rightarrow> file_desc list \<times> pbtype list \<Rightarrow> (file_desc list \<times> pbtype list) result" where
  "registerFile L fd = (\<lambda>(files, types).
     bindE (wrapE (''registering file '' @ file_path fd @ '': '')
              (libE (lib_RegisterFile L files fd))) (\<lambda>files.
     bindE (wrapE (''registering types for '' @ file_path fd @ '': '')
              (registerTypes L fd types)) (\<lambda>types.
     Inr (files, types))))"

definition NewFromFiles :: "lib \<Rightarrow> u64 \<Rightarrow> file_desc list \<Rightarrow> snapshot result" where
  "NewFromFiles L version fds =
     bindE (foldE (registerFile L) fds ([], [])) (\<lambda>(files, types).
     Inr \<lparr>snap_version = version, snap_files = files, snap_types = types, snap_fileList = fds\<rparr>)"

definition snap_FindMessageByName :: "lib \<Rightarrow> snapshot \<Rightarrow> string \<Rightarrow> message_desc result" where
  "snap_FindMessageByName L s name =
     wrapE (''message '' @ name @ '' not found: '') (libE (lib_FindMessageByName L (snap_types s) name))"

section \<open>What the type index holds\<close>

text \<open>The types a message and a file declare, nested declarations included, in registration order.\<close>

fun message_types :: "message_desc \<Rightarrow> pbtype list" where
  "message_types (Message n fn fs ms es xs os) =
     MessageType (Message n fn fs ms es xs os) # concat (map message_types ms)
     @ map EnumType es @ map ExtensionType xs"

definition file_types :: "file_desc \<Rightarrow> pbtype list" where
  "file_types fd = concat (map message_types (file_messages fd))
     @ map EnumType (file_enums fd) @ map ExtensionType (file_exts fd)"

text \<open>Registration is a walk over that list.\<close>

abbreviation register :: "lib \<Rightarrow> pbtype list \<Rightarrow> pbtype list \<Rightarrow> pbtype list result" where
  "register L \<equiv> foldE (\<lambda>t types. libE (lib_RegisterType L types t))"

lemma foldE_concat:
  assumes "\<And>x s. x \<in> set xs \<Longrightarrow> f x s = foldE g (h x) s"
  shows "foldE f xs s = foldE g (concat (map h xs)) s"
  using assms
proof (induction xs arbitrary: s)
  case Nil
  then show ?case by simp
next
  case (Cons x xs)
  then have "foldE f xs = foldE g (concat (map h xs))" by (intro ext) simp
  with Cons.prems show ?case by (simp add: foldE_append)
qed

lemma foldE_map: "foldE f (map g xs) s = foldE (\<lambda>x. f (g x)) xs s"
  by (induction xs arbitrary: s) (auto simp: bindE_def split: sum.splits)

lemmas foldE_funs = ext [OF foldE_append] ext [OF foldE_map]

lemma registerMessage_eq: "registerMessage L m ts = register L (message_types m) ts"
proof (induction m arbitrary: ts)
  case (Message n fn fs ms es xs os)
  have "foldE (registerMessage L) ms ts = register L (concat (map message_types ms)) ts" for ts
    using Message by (rule foldE_concat)
  then show ?case by (simp add: foldE_funs)
qed

lemma registerTypes_eq: "registerTypes L fd ts = register L (file_types fd) ts"
proof -
  have "foldE (registerMessage L) ms ts = register L (concat (map message_types ms)) ts" for ms ts
    by (rule foldE_concat) (rule registerMessage_eq)
  then show ?thesis by (simp add: registerTypes_def file_types_def foldE_funs)
qed

lemma registerTypes_files: "foldE (registerTypes L) fds ts = register L (concat (map file_types fds)) ts"
  by (rule foldE_concat) (rule registerTypes_eq)

text \<open>
  Registration of a list succeeds exactly when no two types clash, whatever their order, and then
  the index is the list.
\<close>

abbreviation no_clash :: "pbtype list \<Rightarrow> bool" where
  "no_clash ts \<equiv> sorted_wrt (\<lambda>t u. \<not> types_clash t u) ts"

lemma types_clash_sym: "types_clash t u \<longleftrightarrow> types_clash u t"
  by (cases t; cases u) auto

lemma types_clash_name: "type_full_name t = type_full_name u \<Longrightarrow> types_clash t u"
  by (cases t; cases u) auto

lemma no_clash_mset: "mset ts = mset us \<Longrightarrow> no_clash ts \<longleftrightarrow> no_clash us"
  by (rule sorted_wrt_mset) (auto simp: types_clash_sym intro: sympI)

lemma register_iff:
  assumes "types_register L"
  shows "no_clash ts \<Longrightarrow> register L us ts = Inr vs \<longleftrightarrow> no_clash (ts @ us) \<and> vs = ts @ us"
proof (induction us arbitrary: ts)
  case Nil
  then show ?case by auto
next
  case (Cons u us)
  show ?case
  proof (cases "\<exists>t \<in> set ts. types_clash t u")
    case True
    with assms obtain e where "lib_RegisterType L ts u = Inl e" unfolding types_register_def by metis
    with True show ?thesis by (auto simp: sorted_wrt_append libE_def)
  next
    case False
    with assms have "lib_RegisterType L ts u = Inr (ts @ [u])" unfolding types_register_def by metis
    moreover from False Cons.prems have "no_clash (ts @ [u])" by (simp add: sorted_wrt_append)
    from Cons.IH [OF this] have "register L us (ts @ [u]) = Inr vs \<longleftrightarrow>
      no_clash (ts @ u # us) \<and> vs = ts @ u # us" by simp
    ultimately show ?thesis by (simp add: libE_def)
  qed
qed

lemma no_clash_inj: "no_clash ts \<Longrightarrow> inj_on type_full_name (set ts)"
  by (induction ts) (auto simp: inj_on_def dest: types_clash_name types_clash_name [OF sym])

text \<open>Both constructors leave the types of their files, and only those, in the index.\<close>

lemma New_Inr_iff:
  assumes "types_register L"
  shows "New L v fds = Inr s \<longleftrightarrow> (\<exists>fs. lib_NewFiles L fds = Inr fs \<and> no_clash (concat (map file_types fs)) \<and>
    s = \<lparr>snap_version = v, snap_files = fs, snap_types = concat (map file_types fs), snap_fileList = fs\<rparr>)"
  by (auto simp: New_def registerTypes_files register_iff [OF assms])

lemma registerFile_Inr_iff [simp]:
  "registerFile L fd (files, types) = Inr (files', types') \<longleftrightarrow>
     lib_RegisterFile L files fd = Inr files' \<and> registerTypes L fd types = Inr types'"
  by (auto simp: registerFile_def)

lemma NewFromFiles_fold:
  "foldE (registerFile L) fds (files, types) = Inr (files', types') \<longleftrightarrow>
     foldE (registerTypes L) fds types = Inr types' \<and>
     foldE (\<lambda>fd files. libE (lib_RegisterFile L files fd)) fds files = Inr files'"
proof (induction fds arbitrary: files types)
  case Nil
  then show ?case by auto
next
  case (Cons fd fds)
  have "foldE (registerFile L) (fd # fds) (files, types) = Inr (files', types') \<longleftrightarrow>
      (\<exists>f t. registerFile L fd (files, types) = Inr (f, t) \<and> foldE (registerFile L) fds (f, t) = Inr (files', types'))"
    by auto
  with Cons.IH show ?case by auto
qed

lemma registerFiles_iff:
  assumes "files_register L"
  shows "foldE (\<lambda>fd files. libE (lib_RegisterFile L files fd)) fds fs = Inr fs' \<Longrightarrow>
    distinct (map file_path fs) \<Longrightarrow> distinct (map file_path (fs @ fds)) \<and> fs' = fs @ fds"
proof (induction fds arbitrary: fs)
  case Nil
  then show ?case by simp
next
  case (Cons fd fds)
  then obtain f where "lib_RegisterFile L fs fd = Inr f"
    and rest: "foldE (\<lambda>fd files. libE (lib_RegisterFile L files fd)) fds f = Inr fs'" by auto
  with assms have "file_path fd \<notin> file_path ` set fs" and f: "f = fs @ [fd]"
    unfolding files_register_def by blast+
  with Cons.IH [of f] rest Cons.prems show ?case by simp
qed

lemma NewFromFiles_InrD:
  assumes "types_register L" and "NewFromFiles L v fds = Inr s"
  shows "snap_fileList s = fds" and "snap_version s = v" and "snap_types s = concat (map file_types fds)"
    and "no_clash (concat (map file_types fds))"
    and "foldE (\<lambda>fd files. libE (lib_RegisterFile L files fd)) fds [] = Inr (snap_files s)"
  using assms(2) by (auto simp: NewFromFiles_def NewFromFiles_fold registerTypes_files register_iff [OF assms(1)])

lemma NewFromFiles_files:
  assumes "types_register L" and "files_register L" and "NewFromFiles L v fds = Inr s"
  shows "snap_files s = fds" and "distinct (map file_path fds)"
  using registerFiles_iff [OF assms(2) NewFromFiles_InrD(5) [OF assms(1,3)]] by simp_all

section \<open>Property\<close>

text \<open>
  Property C13 (snapshot_index_exact). Whichever constructor built a snapshot, looking up a message
  by name finds exactly the messages its files declare, at every nesting depth, and no two
  declared types share a full name.
\<close>

theorem snapshot_index_exact:
  assumes "types_register L" and "types_lookup L"
    and "New L v ps = Inr s \<or> NewFromFiles L v fds = Inr s"
  shows "(snap_FindMessageByName L s n = Inr m \<longleftrightarrow>
      (\<exists>fd \<in> set (snap_fileList s). MessageType m \<in> set (file_types fd)) \<and> msg_full_name m = n) \<and>
    inj_on type_full_name (\<Union>fd \<in> set (snap_fileList s). set (file_types fd))"
proof -
  have "snap_types s = concat (map file_types (snap_fileList s)) \<and> no_clash (snap_types s)"
    using assms(3)
  proof
    assume "New L v ps = Inr s"
    then show ?thesis by (auto simp: New_Inr_iff [OF assms(1)])
  next
    assume "NewFromFiles L v fds = Inr s"
    from NewFromFiles_InrD [OF assms(1) this] show ?thesis by simp
  qed
  then have types: "set (snap_types s) = (\<Union>fd \<in> set (snap_fileList s). set (file_types fd))"
    and inj: "inj_on type_full_name (set (snap_types s))"
    using no_clash_inj by (simp, blast)
  from assms(2) inj have "lib_FindMessageByName L (snap_types s) n = Inr m \<longleftrightarrow>
      MessageType m \<in> set (snap_types s) \<and> msg_full_name m = n"
    unfolding types_lookup_def by blast
  then show ?thesis using inj unfolding snap_FindMessageByName_def wrapE_Inr_iff libE_Inr_iff types by simp
qed

definition nested_file :: file_desc where
  "nested_file = File ''a.proto'' ''acme'' []
     [Message ''Outer'' ''acme.Outer'' [] [Message ''Inner'' ''acme.Outer.Inner'' [] [] [] [] []] [] [] []] [] [] []"

theorem snapshot_index_exact_witness:
  "\<exists>s. NewFromFiles list_lib 7 [nested_file] = Inr s \<and>
     snap_FindMessageByName list_lib s ''acme.Outer.Inner'' =
       Inr (Message ''Inner'' ''acme.Outer.Inner'' [] [] [] [] [])"
proof -
  have "\<not> Sum_Type.isl (NewFromFiles list_lib 7 [nested_file])" by code_simp
  then obtain s where s: "NewFromFiles list_lib 7 [nested_file] = Inr s"
    by (cases "NewFromFiles list_lib 7 [nested_file]") auto
  from NewFromFiles_InrD(1) [OF list_lib_types(1) s] have files: "snap_fileList s = [nested_file]" .
  have "MessageType (Message ''Inner'' ''acme.Outer.Inner'' [] [] [] [] []) \<in> set (file_types nested_file)"
    by (simp add: nested_file_def file_types_def)
  with snapshot_index_exact [OF list_lib_types disjI2 [OF s], of "''acme.Outer.Inner''"
      "Message ''Inner'' ''acme.Outer.Inner'' [] [] [] [] []"] s files
  show ?thesis by auto
qed

end
