(* ===== verification/Compat.thy ===== *)
theory Compat
  imports Snapshot
begin

text \<open>
  \<^verbatim>\<open>compat/compat.go\<close>: the backward-compatibility check. The code appends to one \<^verbatim>\<open>Result\<close>; here
  each function returns the violations it appends, and its caller concatenates them in the order
  of the calls. The second half gives the check its meaning: the wire contract of a snapshot is
  the set of its declared elements with what consumers depend on, and the check passes exactly
  when the contract of the old snapshot is contained in that of the new one.
\<close>

section \<open>The check\<close>

record violation =
  v_File :: string
  v_Path :: string
  v_Rule :: string
  v_Message :: string

definition violation_Error :: "violation \<Rightarrow> string" where
  "violation_Error v = v_Rule v @ '': '' @ v_Message v @ '' at '' @ v_Path v @ '' ('' @ v_File v @ '')''"

definition result_OK :: "violation list \<Rightarrow> bool" where
  "result_OK vs \<longleftrightarrow> length vs = 0"

definition result_Error :: "violation list \<Rightarrow> string" where
  "result_Error vs = (if result_OK vs then ''''
     else fold (\<lambda>v s. s @ [CHR 0x0A] @ ''  - '' @ violation_Error v) vs
       (fmt_nat (length vs) @ '' compatibility violation(s):''))"

definition violation_at :: "file_desc \<Rightarrow> string \<Rightarrow> string \<Rightarrow> string \<Rightarrow> violation" where
  "violation_at file path rule_id msg =
     \<lparr>v_File = file_path file, v_Path = path, v_Rule = rule_id, v_Message = msg\<rparr>"

definition checkField ::
  "file_desc \<Rightarrow> message_desc \<Rightarrow> field_desc \<Rightarrow> field_desc list \<Rightarrow> violation list" where
  "checkField file msg oldField newFields =
     (case fieldByNumber newFields (fld_number oldField) of
        None \<Rightarrow> [violation_at file (fld_full_name oldField) ''FIELD_NO_DELETE''
          (''field '' @ fld_name oldField @ '' (number '' @ fmt_int (fld_number oldField)
             @ '') was removed from '' @ msg_full_name msg)]
      | Some newField \<Rightarrow>
          (if fld_kind oldField \<noteq> fld_kind newField then
             [violation_at file (fld_full_name oldField) ''FIELD_SAME_TYPE''
               (''field '' @ fld_name oldField @ '' changed type from ''
                  @ kind_string (fld_kind oldField) @ '' to '' @ kind_string (fld_kind newField))]
           else [])
        @ (if fld_name oldField \<noteq> fld_name newField then
             [violation_at file (fld_full_name oldField) ''FIELD_SAME_NAME''
               (''field number '' @ fmt_int (fld_number oldField) @ '' renamed from ''
                  @ fld_name oldField @ '' to '' @ fld_name newField)]
           else [])
        @ (if fld_cardinality oldField \<noteq> fld_cardinality newField then
             [violation_at file (fld_full_name oldField) ''FIELD_SAME_CARDINALITY''
               (''field '' @ fld_name oldField @ '' changed cardinality from ''
                  @ cardinality_string (fld_cardinality oldField) @ '' to ''
                  @ cardinality_string (fld_cardinality newField))]
           else [])
        @ (if fld_kind oldField = MessageKind \<and> fld_kind newField = MessageKind
              \<and> fld_message oldField \<noteq> fld_message newField then
             [violation_at file (fld_full_name oldField) ''FIELD_SAME_MESSAGE_TYPE''
               (''field '' @ fld_name oldField @ '' changed message type from ''
                  @ fld_message oldField @ '' to '' @ fld_message newField)]
           else [])
        @ (if fld_kind oldField = EnumKind \<and> fld_kind newField = EnumKind
              \<and> fld_enum oldField \<noteq> fld_enum newField then
             [violation_at file (fld_full_name oldField) ''FIELD_SAME_ENUM_TYPE''
               (''field '' @ fld_name oldField @ '' changed enum type from ''
                  @ fld_enum oldField @ '' to '' @ fld_enum newField)]
           else []))"

definition checkEnum :: "file_desc \<Rightarrow> enum_desc \<Rightarrow> enum_desc list \<Rightarrow> violation list" where
  "checkEnum file oldEnum newEnums =
     (case enumByName newEnums (en_name oldEnum) of
        None \<Rightarrow> [violation_at file (en_full_name oldEnum) ''ENUM_NO_DELETE''
          (''enum '' @ en_name oldEnum @ '' was removed'')]
      | Some newEnum \<Rightarrow>
          concat (map (\<lambda>oldVal.
            (case valueByNumber (en_values newEnum) (ev_number oldVal) of
               None \<Rightarrow> [violation_at file (ev_full_name oldVal) ''ENUM_VALUE_NO_DELETE''
                 (''enum value '' @ ev_name oldVal @ '' (number '' @ fmt_int (ev_number oldVal)
                    @ '') was removed from '' @ en_full_name oldEnum)]
             | Some _ \<Rightarrow> [])) (en_values oldEnum)))"

definition checkMethod :: "file_desc \<Rightarrow> service_desc \<Rightarrow> method_desc \<Rightarrow> method_desc list \<Rightarrow> violation list" where
  "checkMethod file oldSvc oldMethod newMethods =
     (case methodByName newMethods (mtd_name oldMethod) of
        None \<Rightarrow> [violation_at file (mtd_full_name oldMethod) ''METHOD_NO_DELETE''
          (''method '' @ mtd_name oldMethod @ '' was removed from '' @ svc_full_name oldSvc)]
      | Some newMethod \<Rightarrow>
          (if mtd_input oldMethod \<noteq> mtd_input newMethod then
             [violation_at file (mtd_full_name oldMethod) ''METHOD_SAME_INPUT_TYPE''
               (''method '' @ mtd_name oldMethod @ '' changed input type from ''
                  @ mtd_input oldMethod @ '' to '' @ mtd_input newMethod)]
           else [])
        @ (if mtd_output oldMethod \<noteq> mtd_output newMethod then
             [violation_at file (mtd_full_name oldMethod) ''METHOD_SAME_OUTPUT_TYPE''
               (''method '' @ mtd_name oldMethod @ '' changed output type from ''
                  @ mtd_output oldMethod @ '' to '' @ mtd_output newMethod)]
           else []))"

definition checkService :: "file_desc \<Rightarrow> service_desc \<Rightarrow> service_desc list \<Rightarrow> violation list" where
  "checkService file oldSvc newSvcs =
     (case serviceByName newSvcs (svc_name oldSvc) of
        None \<Rightarrow> [violation_at file (svc_full_name oldSvc) ''SERVICE_NO_DELETE''
          (''service '' @ svc_name oldSvc @ '' was removed'')]
      | Some newSvc \<Rightarrow>
          concat (map (\<lambda>m. checkMethod file oldSvc m (svc_methods newSvc)) (svc_methods oldSvc)))"

definition checkOneof :: "file_desc \<Rightarrow> oneof_desc \<Rightarrow> oneof_desc list \<Rightarrow> violation list" where
  "checkOneof file oldOneof newOneofs =
     (case oneofByName newOneofs (oo_name oldOneof) of
        None \<Rightarrow> [violation_at file (oo_full_name oldOneof) ''ONEOF_NO_DELETE''
          (''oneof '' @ oo_name oldOneof @ '' was removed'')]
      | Some _ \<Rightarrow> [])"

fun checkMessage :: "file_desc \<Rightarrow> message_desc \<Rightarrow> message_desc list \<Rightarrow> violation list" where
  "checkMessage file (Message n fn fs ms es xs os) newMsgs =
     (case msgByName newMsgs n of
        None \<Rightarrow> [violation_at file fn ''MESSAGE_NO_DELETE'' (''message '' @ n @ '' was removed'')]
      | Some newMsg \<Rightarrow>
          concat (map (\<lambda>f. checkField file (Message n fn fs ms es xs os) f (msg_fields newMsg)) fs)
        @ concat (map (\<lambda>m. checkMessage file m (msg_messages newMsg)) ms)
        @ concat (map (\<lambda>e. checkEnum file e (msg_enums newMsg)) es)
        @ concat (map (\<lambda>d. checkOneof file d (msg_oneofs newMsg)) os))"

definition checkFile :: "file_desc \<Rightarrow> file_desc \<Rightarrow> violation list" where
  "checkFile oldFile newFile =
     concat (map (\<lambda>m. checkMessage oldFile m (file_messages newFile)) (file_messages oldFile))
   @ concat (map (\<lambda>e. checkEnum oldFile e (file_enums newFile)) (file_enums oldFile))
   @ concat (map (\<lambda>s. checkService oldFile s (file_services newFile)) (file_services oldFile))"

definition Check :: "lib \<Rightarrow> snapshot option \<Rightarrow> snapshot \<Rightarrow> violation list" where
  "Check L old new =
     (case old of None \<Rightarrow> []
      | Some old \<Rightarrow> concat (map (\<lambda>oldFile.
          (case lib_FindFileByPath L (snap_files new) (file_path oldFile) of
             None \<Rightarrow> [violation_at oldFile (file_path oldFile) ''FILE_NO_DELETE'' ''file was removed'']
           | Some newFile \<Rightarrow> checkFile oldFile newFile)) (snap_files old)))"

section \<open>The wire contract of a snapshot\<close>

text \<open>
  What consumers rely on, one fact per declared element. A fact stands under the names of the
  messages that enclose it, outermost first.
\<close>

datatype fact =
    MessageF
  | FieldF int string kind cardinality "string option"
  | OneofF string
  | EnumF string
  | EnumValueF string int
  | ServiceF string
  | MethodF string string string string

definition field_ref :: "field_desc \<Rightarrow> string option" where
  "field_ref f = (if fld_kind f = MessageKind then Some (fld_message f)
                  else if fld_kind f = EnumKind then Some (fld_enum f) else None)"

definition field_fact :: "field_desc \<Rightarrow> fact" where
  "field_fact f = FieldF (fld_number f) (fld_name f) (fld_kind f) (fld_cardinality f) (field_ref f)"

definition enum_facts :: "enum_desc \<Rightarrow> fact set" where
  "enum_facts e = insert (EnumF (en_name e)) ((\<lambda>v. EnumValueF (en_name e) (ev_number v)) ` set (en_values e))"

definition method_fact :: "service_desc \<Rightarrow> method_desc \<Rightarrow> fact" where
  "method_fact s m = MethodF (svc_name s) (mtd_name m) (mtd_input m) (mtd_output m)"

definition service_facts :: "service_desc \<Rightarrow> fact set" where
  "service_facts s = insert (ServiceF (svc_name s)) (method_fact s ` set (svc_methods s))"

definition under :: "string \<Rightarrow> (string list \<times> fact) set \<Rightarrow> (string list \<times> fact) set" where
  "under n X = (\<lambda>(p, x). (n # p, x)) ` X"

fun message_body :: "message_desc \<Rightarrow> (string list \<times> fact) set" where
  "message_body (Message n fn fs ms es xs os) =
     Pair [] ` (insert MessageF (field_fact ` set fs \<union> (\<lambda>d. OneofF (oo_name d)) ` set os
       \<union> (\<Union>e \<in> set es. enum_facts e)))
     \<union> (\<Union>m \<in> set ms. under (msg_name m) (message_body m))"

definition file_body :: "file_desc \<Rightarrow> (string list \<times> fact) set" where
  "file_body f = (\<Union>m \<in> set (file_messages f). under (msg_name m) (message_body m))
     \<union> Pair [] ` ((\<Union>e \<in> set (file_enums f). enum_facts e) \<union> (\<Union>s \<in> set (file_services f). service_facts s))"

text \<open>A file is part of the contract even when it declares nothing.\<close>

definition contract :: "file_desc list \<Rightarrow> (string \<times> (string list \<times> fact) option) set" where
  "contract fs = (\<Union>f \<in> set fs. Pair (file_path f) ` insert None (Some ` file_body f))"

text \<open>
  What a descriptor tree built by protobuf guarantees: the names of siblings and the numbers of
  the fields of a message are unique.
\<close>

fun wf_message :: "message_desc \<Rightarrow> bool" where
  "wf_message (Message n fn fs ms es xs os) \<longleftrightarrow>
     distinct (map fld_number fs) \<and> distinct (map msg_name ms) \<and> distinct (map en_name es)
     \<and> (\<forall>m \<in> set ms. wf_message m)"

definition wf_file :: "file_desc \<Rightarrow> bool" where
  "wf_file f \<longleftrightarrow> distinct (map msg_name (file_messages f)) \<and> distinct (map en_name (file_enums f))
     \<and> distinct (map svc_name (file_services f))
     \<and> (\<forall>m \<in> set (file_messages f). wf_message m)
     \<and> (\<forall>s \<in> set (file_services f). distinct (map mtd_name (svc_methods s)))"

definition wf_files :: "file_desc list \<Rightarrow> bool" where
  "wf_files fs \<longleftrightarrow> distinct (map file_path fs) \<and> (\<forall>f \<in> set fs. wf_file f)"

lemma checkField_ok_iff:
  assumes "distinct (map fld_number fs)"
  shows "checkField file m f fs = [] \<longleftrightarrow> field_fact f \<in> field_fact ` set fs"
proof (cases "fieldByNumber fs (fld_number f)")
  case None
  then have "fld_number f \<notin> fld_number ` set fs" by (simp add: by_None_iff)
  then have "field_fact f \<notin> field_fact ` set fs" by (auto simp: field_fact_def)
  with None show ?thesis by (simp add: checkField_def)
next
  case (Some g)
  then have g: "g \<in> set fs" "fld_number g = fld_number f" by (auto dest: by_Some_D)
  then have "field_fact f \<in> field_fact ` set fs \<longleftrightarrow> field_fact f = field_fact g"
    by (intro keyed_image_iff [OF assms]) (simp_all add: field_fact_def)
  with Some g show ?thesis
    by (auto simp: checkField_def field_fact_def field_ref_def)
qed

lemma enum_facts_subset_iff:
  assumes "distinct (map en_name es)" and "e' \<in> set es" and "en_name e' = en_name e"
  shows "enum_facts e \<subseteq> (\<Union>d \<in> set es. enum_facts d) \<longleftrightarrow>
    ev_number ` set (en_values e) \<subseteq> ev_number ` set (en_values e')"
proof -
  have "EnumValueF (en_name e) i \<in> (\<Union>d \<in> set es. enum_facts d) \<longleftrightarrow> i \<in> ev_number ` set (en_values e')" for i
    using assms(2,3) by (subst keyed_UN_iff [OF assms(1,2)]) (auto simp: enum_facts_def)
  moreover have "EnumF (en_name e) \<in> (\<Union>d \<in> set es. enum_facts d)"
    using assms(2,3) by (auto simp: enum_facts_def intro!: bexI [of _ e'])
  ultimately show ?thesis
    by (simp only: enum_facts_def [of e] insert_subset image_subset_iff simp_thms)
qed

lemma checkEnum_ok_iff:
  assumes "distinct (map en_name es)"
  shows "checkEnum file e es = [] \<longleftrightarrow> enum_facts e \<subseteq> (\<Union>e' \<in> set es. enum_facts e')"
proof (cases "enumByName es (en_name e)")
  case None
  then have "EnumF (en_name e) \<notin> (\<Union>e' \<in> set es. enum_facts e')"
    by (auto simp: by_None_iff enum_facts_def)
  then have "\<not> enum_facts e \<subseteq> (\<Union>e' \<in> set es. enum_facts e')" by (auto simp: enum_facts_def [of e])
  with None show ?thesis by (simp add: checkEnum_def)
next
  case (Some e')
  then have "e' \<in> set es" "en_name e' = en_name e" by (auto dest: by_Some_D)
  moreover have "checkEnum file e es = [] \<longleftrightarrow> ev_number ` set (en_values e) \<subseteq> ev_number ` set (en_values e')"
    using Some by (force simp: checkEnum_def by_None_iff split: option.splits)
  ultimately show ?thesis using enum_facts_subset_iff [OF assms] by simp
qed

lemma service_facts_subset_iff:
  assumes "distinct (map svc_name ss)" and "s' \<in> set ss" and "svc_name s' = svc_name s"
  shows "service_facts s \<subseteq> (\<Union>d \<in> set ss. service_facts d) \<longleftrightarrow>
    method_fact s ` set (svc_methods s) \<subseteq> method_fact s ` set (svc_methods s')"
proof -
  have "method_fact s m \<in> (\<Union>d \<in> set ss. service_facts d) \<longleftrightarrow>
      method_fact s m \<in> method_fact s ` set (svc_methods s')" for m
    using assms(2,3)
    by (subst keyed_UN_iff [OF assms(1,2)]) (auto simp: service_facts_def method_fact_def)
  moreover have "ServiceF (svc_name s) \<in> (\<Union>d \<in> set ss. service_facts d)"
    using assms(2,3) by (auto simp: service_facts_def intro!: bexI [of _ s'])
  ultimately show ?thesis
    by (simp only: service_facts_def [of s] insert_subset image_subset_iff simp_thms)
qed

lemma checkMethod_ok_iff:
  assumes "distinct (map mtd_name ds)"
  shows "checkMethod file s m ds = [] \<longleftrightarrow> method_fact s m \<in> method_fact s ` set ds"
proof (cases "methodByName ds (mtd_name m)")
  case None
  then have "mtd_name m \<notin> mtd_name ` set ds" by (simp add: by_None_iff)
  then have "method_fact s m \<notin> method_fact s ` set ds" by (auto simp: method_fact_def)
  with None show ?thesis by (simp add: checkMethod_def)
next
  case (Some d)
  then have d: "d \<in> set ds" "mtd_name d = mtd_name m" by (auto dest: by_Some_D)
  then have "method_fact s m \<in> method_fact s ` set ds \<longleftrightarrow> method_fact s m = method_fact s d"
    by (intro keyed_image_iff [OF assms]) (simp_all add: method_fact_def)
  with Some d show ?thesis by (auto simp: checkMethod_def method_fact_def)
qed

lemma checkService_ok_iff:
  assumes "distinct (map svc_name ss)" and "\<forall>s \<in> set ss. distinct (map mtd_name (svc_methods s))"
  shows "checkService file s ss = [] \<longleftrightarrow> service_facts s \<subseteq> (\<Union>s' \<in> set ss. service_facts s')"
proof (cases "serviceByName ss (svc_name s)")
  case None
  then have "ServiceF (svc_name s) \<notin> (\<Union>s' \<in> set ss. service_facts s')"
    by (auto simp: by_None_iff service_facts_def method_fact_def)
  then have "\<not> service_facts s \<subseteq> (\<Union>s' \<in> set ss. service_facts s')" by (auto simp: service_facts_def [of s])
  with None show ?thesis by (simp add: checkService_def)
next
  case (Some s')
  then have "s' \<in> set ss" "svc_name s' = svc_name s" by (auto dest: by_Some_D)
  with Some assms show ?thesis
    by (auto simp: service_facts_subset_iff checkService_def checkMethod_ok_iff)
qed

lemma checkOneof_ok_iff:
  "checkOneof file d os = [] \<longleftrightarrow> OneofF (oo_name d) \<in> (\<lambda>d. OneofF (oo_name d)) ` set os"
proof -
  have "checkOneof file d os = [] \<longleftrightarrow> oneofByName os (oo_name d) \<noteq> None"
    by (auto simp: checkOneof_def split: option.splits)
  then show ?thesis by (auto simp: by_None_iff)
qed

text \<open>
  Facts under distinct names do not mix, so containment in a union of siblings is containment in
  the sibling of the same name.
\<close>

lemma under_mem_iff: "(p, x) \<in> under n X \<longleftrightarrow> (\<exists>q. p = n # q \<and> (q, x) \<in> X)"
  by (auto simp: under_def)

lemma under_subset_iff:
  assumes "distinct (map msg_name ms)" and "m' \<in> set ms" and "msg_name m' = n"
  shows "under n X \<subseteq> (\<Union>m \<in> set ms. under (msg_name m) (message_body m)) \<longleftrightarrow> X \<subseteq> message_body m'"
proof -
  have "(n # p, x) \<in> (\<Union>m \<in> set ms. under (msg_name m) (message_body m)) \<longleftrightarrow> (p, x) \<in> message_body m'" for p x
    using assms(3) by (subst keyed_UN_iff [OF assms(1,2)]) (auto simp: under_mem_iff)
  moreover have "under n X \<subseteq> Y \<longleftrightarrow> (\<forall>(p, x) \<in> X. (n # p, x) \<in> Y)" for Y
    by (auto simp: under_def)
  ultimately show ?thesis by auto
qed

lemma root_facts_mem [simp]: "(n # p, x) \<in> Pair [] ` X \<longleftrightarrow> False" "([], x) \<in> Pair [] ` X \<longleftrightarrow> x \<in> X"
  "([], x) \<in> under n Y \<longleftrightarrow> False"
  by (auto simp: under_mem_iff)

lemma split_subset_iff:
  "Pair [] ` A \<union> (\<Union>m \<in> M. under (f m) (B m)) \<subseteq> Pair [] ` A' \<union> (\<Union>m \<in> M'. under (f m) (B m)) \<longleftrightarrow>
     A \<subseteq> A' \<and> (\<forall>m \<in> M. under (f m) (B m) \<subseteq> (\<Union>m \<in> M'. under (f m) (B m)))"
proof -
  let ?U = "\<Union>m \<in> M'. under (f m) (B m)"
  have "Pair [] ` A \<subseteq> Pair [] ` A' \<union> ?U \<longleftrightarrow> A \<subseteq> A'"
    unfolding image_subset_iff by (simp add: subset_eq)
  moreover have "under n X \<subseteq> Pair [] ` A' \<union> ?U \<longleftrightarrow> under n X \<subseteq> ?U" for n X
  proof -
    have "under n X \<inter> Pair [] ` A' = {}" by (auto simp: under_def)
    then show ?thesis by (rule disjoint_subset_Un)
  qed
  ultimately show ?thesis by (simp only: Un_subset_iff UN_subset_iff)
qed

lemma member_facts_subset_iff:
  "insert MessageF (field_fact ` F \<union> (\<lambda>d. OneofF (oo_name d)) ` D \<union> (\<Union>e \<in> E. enum_facts e))
     \<subseteq> insert MessageF (field_fact ` F' \<union> (\<lambda>d. OneofF (oo_name d)) ` D' \<union> (\<Union>e \<in> E'. enum_facts e)) \<longleftrightarrow>
   (\<forall>f \<in> F. field_fact f \<in> field_fact ` F') \<and>
   (\<forall>d \<in> D. OneofF (oo_name d) \<in> (\<lambda>d. OneofF (oo_name d)) ` D') \<and>
   (\<forall>e \<in> E. enum_facts e \<subseteq> (\<Union>e \<in> E'. enum_facts e))"
proof -
  let ?R = "insert MessageF (field_fact ` F' \<union> (\<lambda>d. OneofF (oo_name d)) ` D' \<union> (\<Union>e \<in> E'. enum_facts e))"
  have no: "MessageF \<notin> enum_facts e" "field_fact f \<notin> enum_facts e" "OneofF n \<notin> enum_facts e"
    "field_fact f \<noteq> MessageF" "field_fact f \<noteq> OneofF n" for e f n
    by (auto simp: enum_facts_def field_fact_def)
  have "field_fact f \<in> ?R \<longleftrightarrow> field_fact f \<in> field_fact ` F'" for f
    using no by (simp add: image_iff)
  moreover have "OneofF n \<in> ?R \<longleftrightarrow> OneofF n \<in> (\<lambda>d. OneofF (oo_name d)) ` D'" for n
    using no(3) no(5) [symmetric] by (simp add: image_iff)
  moreover have "enum_facts e \<subseteq> ?R \<longleftrightarrow> enum_facts e \<subseteq> (\<Union>e \<in> E'. enum_facts e)" for e
  proof -
    have "enum_facts e \<inter> insert MessageF (field_fact ` F' \<union> (\<lambda>d. OneofF (oo_name d)) ` D') = {}"
      using no by auto
    from disjoint_subset_Un [OF this] show ?thesis by (simp only: Un_insert_left)
  qed
  moreover have "MessageF \<in> ?R" by simp
  ultimately show ?thesis
    by (simp only: insert_subset Un_subset_iff UN_subset_iff image_subset_iff simp_thms conj_assoc)
qed

lemma checkMessage_ok_iff:
  assumes "distinct (map msg_name ms')" and "\<forall>m' \<in> set ms'. wf_message m'"
  shows "checkMessage file m ms' = [] \<longleftrightarrow>
    under (msg_name m) (message_body m) \<subseteq> (\<Union>m' \<in> set ms'. under (msg_name m') (message_body m'))"
  using assms
proof (induction m arbitrary: ms')
  case (Message n fn fs ms es xs os)
  let ?m = "Message n fn fs ms es xs os"
  show ?case
  proof (cases "msgByName ms' n")
    case None
    then have "([n], MessageF) \<notin> (\<Union>m' \<in> set ms'. under (msg_name m') (message_body m'))"
      by (auto simp: by_None_iff under_mem_iff)
    moreover have "([n], MessageF) \<in> under n (message_body ?m)"
      by (simp add: under_mem_iff)
    ultimately have "\<not> under n (message_body ?m) \<subseteq> (\<Union>m' \<in> set ms'. under (msg_name m') (message_body m'))"
      by blast
    with None show ?thesis by simp
  next
    case (Some m')
    then have m': "m' \<in> set ms'" "msg_name m' = n" by (auto dest: by_Some_D)
    obtain n' fn' fs2 ms2 es2 xs2 os2 where eq: "m' = Message n' fn' fs2 ms2 es2 xs2 os2"
      by (cases m')
    from m' Message.prems have wf: "wf_message m'" by blast
    from wf have d: "distinct (map fld_number fs2)" "distinct (map en_name es2)"
      "distinct (map msg_name ms2)" "\<forall>m \<in> set ms2. wf_message m"
      unfolding eq wf_message.simps by blast+
    from Message.IH [OF _ d(3,4)] have "checkMessage file d ms2 = [] \<longleftrightarrow>
        under (msg_name d) (message_body d) \<subseteq> (\<Union>m' \<in> set ms2. under (msg_name m') (message_body m'))"
      if "d \<in> set ms" for d using that by blast
    then have nested: "(\<forall>d \<in> set ms. checkMessage file d ms2 = []) \<longleftrightarrow> (\<forall>d \<in> set ms.
        under (msg_name d) (message_body d) \<subseteq> (\<Union>m' \<in> set ms2. under (msg_name m') (message_body m')))"
      by (rule ball_cong [OF refl])
    have "checkMessage file ?m ms' = [] \<longleftrightarrow> (\<forall>f \<in> set fs. checkField file ?m f fs2 = [])
        \<and> (\<forall>d \<in> set os. checkOneof file d os2 = []) \<and> (\<forall>e \<in> set es. checkEnum file e es2 = [])
        \<and> (\<forall>d \<in> set ms. checkMessage file d ms2 = [])"
      unfolding checkMessage.simps Some option.case eq message_desc.sel append_is_Nil_conv
        concat_map_eq_Nil_iff by blast
    also have "\<dots> \<longleftrightarrow> message_body ?m \<subseteq> message_body m'"
      unfolding eq message_body.simps split_subset_iff member_facts_subset_iff nested
        checkField_ok_iff [OF d(1)] checkEnum_ok_iff [OF d(2)] checkOneof_ok_iff by blast
    finally have "checkMessage file ?m ms' = [] \<longleftrightarrow> message_body ?m \<subseteq> message_body m'" .
    with under_subset_iff [OF Message.prems(1) m'] show ?thesis
      by (simp only: message_desc.sel)
  qed
qed

lemma decl_facts_subset_iff:
  "(\<Union>e \<in> E. enum_facts e) \<union> (\<Union>s \<in> S. service_facts s)
     \<subseteq> (\<Union>e \<in> E'. enum_facts e) \<union> (\<Union>s \<in> S'. service_facts s) \<longleftrightarrow>
   (\<forall>e \<in> E. enum_facts e \<subseteq> (\<Union>e \<in> E'. enum_facts e)) \<and>
   (\<forall>s \<in> S. service_facts s \<subseteq> (\<Union>s \<in> S'. service_facts s))"
proof -
  have no: "enum_facts e \<inter> service_facts s = {}" for e s
    by (auto simp: enum_facts_def service_facts_def method_fact_def)
  then have "service_facts s \<inter> (\<Union>e \<in> E'. enum_facts e) = {}" for s by blast
  note s = disjoint_subset_Un [OF this]
  from no have "enum_facts e \<inter> (\<Union>s \<in> S'. service_facts s) = {}" for e by blast
  note e = disjoint_subset_Un [OF this, unfolded Un_commute [of "\<Union>s \<in> S'. service_facts s"]]
  show ?thesis by (simp only: Un_subset_iff UN_subset_iff s e)
qed

lemma checkFile_ok_iff:
  assumes "wf_file f'"
  shows "checkFile f f' = [] \<longleftrightarrow> file_body f \<subseteq> file_body f'"
proof -
  from assms have wf: "distinct (map msg_name (file_messages f'))" "\<forall>m \<in> set (file_messages f'). wf_message m"
    "distinct (map en_name (file_enums f'))" "distinct (map svc_name (file_services f'))"
    "\<forall>s \<in> set (file_services f'). distinct (map mtd_name (svc_methods s))"
    unfolding wf_file_def by blast+
  have "checkFile f f' = [] \<longleftrightarrow>
      (\<forall>m \<in> set (file_messages f). checkMessage f m (file_messages f') = []) \<and>
      (\<forall>e \<in> set (file_enums f). checkEnum f e (file_enums f') = []) \<and>
      (\<forall>s \<in> set (file_services f). checkService f s (file_services f') = [])"
    unfolding checkFile_def append_is_Nil_conv concat_map_eq_Nil_iff ..
  also have "\<dots> \<longleftrightarrow> file_body f \<subseteq> file_body f'"
    unfolding file_body_def Un_commute [of "\<Union>m \<in> M. under (g m) (B m)" for M g B] split_subset_iff
      decl_facts_subset_iff checkMessage_ok_iff [OF wf(1,2)] checkEnum_ok_iff [OF wf(3)]
      checkService_ok_iff [OF wf(4,5)] by blast
  finally show ?thesis .
qed

text \<open>The check as a whole, file by file and as containment of contracts.\<close>

lemma Check_ok_files:
  assumes "files_lookup L"
  shows "result_OK (Check L (Some old) new) \<longleftrightarrow>
    (\<forall>f \<in> set (snap_files old). \<exists>f'. find (\<lambda>g. file_path g = file_path f) (snap_files new) = Some f' \<and> checkFile f f' = [])"
  using assms unfolding files_lookup_def result_OK_def Check_def
  by (auto split: option.splits)

lemma file_contract_subset_iff:
  assumes "distinct (map file_path fs)" and "f' \<in> set fs" and "file_path f' = file_path f"
  shows "Pair (file_path f) ` insert None (Some ` file_body f) \<subseteq> contract fs \<longleftrightarrow> file_body f \<subseteq> file_body f'"
proof -
  have "(file_path f, x) \<in> contract fs \<longleftrightarrow> x \<in> insert None (Some ` file_body f')" for x
    unfolding contract_def using assms(3) by (subst keyed_UN_iff [OF assms(1,2)]) auto
  then show ?thesis by (auto simp: image_subset_iff)
qed

lemma Check_ok_contract:
  assumes "files_lookup L" and "wf_files (snap_files new)"
  shows "result_OK (Check L (Some old) new) \<longleftrightarrow> contract (snap_files old) \<subseteq> contract (snap_files new)"
proof -
  let ?N = "snap_files new"
  from assms(2) have d: "distinct (map file_path ?N)" and wf: "f' \<in> set ?N \<Longrightarrow> wf_file f'" for f'
    by (auto simp: wf_files_def)
  have "(\<exists>f'. find (\<lambda>g. file_path g = file_path f) ?N = Some f' \<and> checkFile f f' = []) \<longleftrightarrow>
      Pair (file_path f) ` insert None (Some ` file_body f) \<subseteq> contract ?N" (is "?l f \<longleftrightarrow> ?r f") for f
  proof (cases "find (\<lambda>g. file_path g = file_path f) ?N")
    case None
    then have "file_path f \<notin> file_path ` set ?N" unfolding find_key_None_iff .
    then have "(file_path f, None) \<notin> contract ?N" by (auto simp: contract_def)
    with None show ?thesis by auto
  next
    case (Some f')
    then have f': "f' \<in> set ?N" "file_path f' = file_path f" by (auto dest: find_Some_mem)
    with Some wf d show ?thesis
      by (simp only: file_contract_subset_iff checkFile_ok_iff option.inject ex_simps simp_thms)
  qed
  then show ?thesis
    unfolding Check_ok_files [OF assms(1)] contract_def [of "snap_files old"] UN_subset_iff by simp
qed

section \<open>Histories\<close>

text \<open>
  The promise a check between two versions makes to consumers is about every later version, not
  only the next one. The interface: a check that accepts an unchanged version and composes; the
  lemma: a history in which each version passes against the one before passes between any two.
\<close>

locale evolution =
  fixes valid :: "'v \<Rightarrow> bool" and passes :: "'v \<Rightarrow> 'v \<Rightarrow> bool"
  assumes passes_refl: "valid v \<Longrightarrow> passes v v"
    and passes_trans: "valid v \<Longrightarrow> valid w \<Longrightarrow> passes u v \<Longrightarrow> passes v w \<Longrightarrow> passes u w"
begin

lemma history_passes:
  assumes "\<forall>v \<in> set vs. valid v" and "\<forall>k. Suc k < length vs \<longrightarrow> passes (vs ! k) (vs ! Suc k)"
    and "i \<le> j" and "j < length vs"
  shows "passes (vs ! i) (vs ! j)"
  using assms(3,4)
proof (induction j rule: dec_induct)
  case base
  then show ?case using assms(1) by (simp add: passes_refl)
next
  case (step k)
  with assms(1,2) passes_trans [of "vs ! k" "vs ! Suc k" "vs ! i"] show ?case by simp
qed

end

interpretation compat_evolution:
  evolution "\<lambda>s. wf_files (snap_files s)" "\<lambda>old new. files_lookup L \<longrightarrow> result_OK (Check L (Some old) new)" for L
  by unfold_locales (auto simp: Check_ok_contract)

section \<open>Properties\<close>

text \<open>
  Property C3 (Check_ok_iff_contract). \<^verbatim>\<open>compat.Check\<close> reports no violation exactly when every element
  of the old snapshot's wire contract (files, messages at every nesting depth, fields with number,
  name, kind, cardinality and referenced type, oneofs, enums and enum numbers, services and
  methods with their types) is in the contract of the new snapshot. With no old snapshot the
  check always passes.
\<close>

theorem Check_ok_iff_contract:
  assumes "files_lookup L" and "wf_files (snap_files new)"
  shows "result_OK (Check L old new) \<longleftrightarrow>
    (case old of None \<Rightarrow> True | Some s \<Rightarrow> contract (snap_files s) \<subseteq> contract (snap_files new))"
proof (cases old)
  case None
  then show ?thesis by (simp add: Check_def result_OK_def)
next
  case (Some s)
  with Check_ok_contract [OF assms] show ?thesis by simp
qed

definition demo_field :: "int \<Rightarrow> string \<Rightarrow> kind \<Rightarrow> field_desc" where
  "demo_field n name k = \<lparr>fld_name = name, fld_full_name = ''acme.Config.'' @ name, fld_number = n,
     fld_kind = k, fld_cardinality = Optional, fld_message = [], fld_enum = []\<rparr>"

definition demo_snapshot :: "u64 \<Rightarrow> field_desc list \<Rightarrow> snapshot" where
  "demo_snapshot v fs = \<lparr>snap_version = v,
     snap_files = [File ''a.proto'' ''acme'' [] [Message ''Config'' ''acme.Config'' fs [] [] [] []] [] [] []],
     snap_types = [],
     snap_fileList = [File ''a.proto'' ''acme'' [] [Message ''Config'' ''acme.Config'' fs [] [] [] []] [] [] []]\<rparr>"

abbreviation demo_v1 :: snapshot where
  "demo_v1 \<equiv> demo_snapshot 1 [demo_field 1 ''host'' StringKind]"

abbreviation demo_v2 :: snapshot where
  "demo_v2 \<equiv> demo_snapshot 2 [demo_field 2 ''port'' Int32Kind, demo_field 1 ''host'' StringKind]"

lemma demo_wf: "wf_files (snap_files demo_v1)" "wf_files (snap_files demo_v2)"
  by (simp_all add: wf_files_def wf_file_def demo_snapshot_def demo_field_def)

theorem Check_ok_iff_contract_witness:
  "contract (snap_files demo_v1) \<subseteq> contract (snap_files demo_v2) \<and>
   \<not> contract (snap_files demo_v2) \<subseteq> contract (snap_files demo_v1)"
proof -
  have "result_OK (Check list_lib (Some demo_v1) demo_v2)"
    and "\<not> result_OK (Check list_lib (Some demo_v2) demo_v1)" by code_simp+
  with Check_ok_iff_contract [OF list_lib_files(1) demo_wf(2), of "Some demo_v1"]
    Check_ok_iff_contract [OF list_lib_files(1) demo_wf(1), of "Some demo_v2"]
  show ?thesis by simp
qed

text \<open>
  Property C8 (Check_history). If each version of a schema passes the check against the version
  before it, then any later version passes against any earlier one, so consumers of an old version
  stay compatible across the whole history.
\<close>

theorem Check_history:
  assumes "files_lookup L" and "\<forall>s \<in> set vs. wf_files (snap_files s)"
    and "\<forall>k. Suc k < length vs \<longrightarrow> result_OK (Check L (Some (vs ! k)) (vs ! Suc k))"
    and "i \<le> j" and "j < length vs"
  shows "result_OK (Check L (Some (vs ! i)) (vs ! j))"
  using compat_evolution.history_passes [of vs L i j] assms by simp

theorem Check_history_witness:
  "result_OK (Check list_lib (Some demo_v1) demo_v2)"
proof -
  have "result_OK (Check list_lib (Some demo_v1) demo_v1)"
    and "result_OK (Check list_lib (Some demo_v1) demo_v2)" by code_simp+
  then have "\<forall>k. Suc k < length [demo_v1, demo_v1, demo_v2] \<longrightarrow>
      result_OK (Check list_lib (Some ([demo_v1, demo_v1, demo_v2] ! k)) ([demo_v1, demo_v1, demo_v2] ! Suc k))"
    by (simp add: less_Suc_eq all_conj_distrib)
  from Check_history [OF list_lib_files(1) _ this, of 0 2] demo_wf show ?thesis by simp
qed

end
