(* ===== verification/Conflict.thy ===== *)
theory Conflict
  imports Snapshot
begin

text \<open>
  \<^verbatim>\<open>compiler/conflict.go\<close>: detection of fully-qualified names that a child snapshot and an ancestor
  snapshot both define, in different files (decision D2 of the namespace hierarchy). The map from
  names to entries is an association list with distinct keys. The property says which conflicts
  are reported, and in which order.
\<close>

section \<open>Collecting names\<close>

record fqn_entry =
  fe_kind :: string
  fe_file :: string

type_synonym fqn_map = "(string \<times> fqn_entry) list"

definition put_fqn :: "string \<Rightarrow> string \<Rightarrow> string \<Rightarrow> fqn_map \<Rightarrow> fqn_map" where
  "put_fqn kind file name out = AList.update name \<lparr>fe_kind = kind, fe_file = file\<rparr> out"

fun walkMessage :: "string \<Rightarrow> message_desc \<Rightarrow> fqn_map \<Rightarrow> fqn_map" where
  "walkMessage file (Message n fn fs ms es xs os) out =
     fold (\<lambda>x. put_fqn ''extension'' file (ext_full_name x)) xs
     (fold (\<lambda>e. put_fqn ''enum'' file (en_full_name e)) es
     (fold (walkMessage file) ms
     (put_fqn ''message'' file fn out)))"

definition walkFile :: "file_desc \<Rightarrow> fqn_map \<Rightarrow> fqn_map" where
  "walkFile fd out =
     fold (\<lambda>x. put_fqn ''extension'' (file_path fd) (ext_full_name x)) (file_exts fd)
     (fold (\<lambda>s. put_fqn ''service'' (file_path fd) (svc_full_name s)) (file_services fd)
     (fold (\<lambda>e. put_fqn ''enum'' (file_path fd) (en_full_name e)) (file_enums fd)
     (fold (walkMessage (file_path fd)) (file_messages fd) out)))"

definition collectFQNs :: "snapshot \<Rightarrow> fqn_map" where
  "collectFQNs snap = fold walkFile (snap_fileList snap) []"

section \<open>Detection\<close>

definition conflict_of :: "fqn_map \<Rightarrow> string \<times> fqn_entry \<Rightarrow> fqn_conflict list" where
  "conflict_of ancestorFQNs = (\<lambda>(fqn, cd).
     (case map_of ancestorFQNs fqn of
        None \<Rightarrow> []
      | Some ad \<Rightarrow> if fe_file cd = fe_file ad then []
          else [\<lparr>fc_FQN = fqn, fc_Kind = fe_kind cd, fc_ChildFile = fe_file cd,
                  fc_AncestorFile = fe_file ad\<rparr>]))"

definition DetectFQNConflicts :: "snapshot option \<Rightarrow> snapshot option \<Rightarrow> fqn_conflict list" where
  "DetectFQNConflicts child ancestor =
     (case (child, ancestor) of
        (Some child, Some ancestor) \<Rightarrow>
          (let ancestorFQNs = collectFQNs ancestor in
           if length ancestorFQNs = 0 then []
           else sort_key fc_FQN (concat (map (conflict_of ancestorFQNs) (collectFQNs child))))
      | _ \<Rightarrow> [])"

fun join_space :: "string list \<Rightarrow> string" where
  "join_space [] = []"
| "join_space [s] = s"
| "join_space (s # ss) = s @ '' '' @ join_space ss"

text \<open>The error's text; the code never calls it with no conflict.\<close>

definition conflict_Error :: "string \<Rightarrow> fqn_conflict list \<Rightarrow> string" where
  "conflict_Error ancestorNamespaceID conflicts =
     (if length conflicts = 1 then
        (let c = conflicts ! 0 in
         ''FQN '' @ fmt_q (fc_FQN c) @ '' ('' @ fc_Kind c @ '') is already defined in namespace ''
           @ fmt_q ancestorNamespaceID @ '' at '' @ fc_AncestorFile c)
      else fmt_nat (length conflicts) @ '' FQNs in namespace '' @ fmt_q (fc_FQN (conflicts ! 0))
        @ '' conflict with ancestor '' @ fmt_q ancestorNamespaceID @ '': [''
        @ join_space (map fc_FQN conflicts) @ '']'')"

section \<open>What is collected\<close>

text \<open>
  The names a file declares, with kind and file, in the order of the walk; the table of a snapshot
  maps each name to its last declaration.
\<close>

definition entry :: "string \<Rightarrow> string \<Rightarrow> string \<Rightarrow> string \<times> fqn_entry" where
  "entry kind file name = (name, \<lparr>fe_kind = kind, fe_file = file\<rparr>)"

fun message_decls :: "string \<Rightarrow> message_desc \<Rightarrow> (string \<times> fqn_entry) list" where
  "message_decls file (Message n fn fs ms es xs os) =
     entry ''message'' file fn # concat (map (message_decls file) ms)
     @ map (\<lambda>e. entry ''enum'' file (en_full_name e)) es
     @ map (\<lambda>x. entry ''extension'' file (ext_full_name x)) xs"

definition file_decls :: "file_desc \<Rightarrow> (string \<times> fqn_entry) list" where
  "file_decls fd = concat (map (message_decls (file_path fd)) (file_messages fd))
     @ map (\<lambda>e. entry ''enum'' (file_path fd) (en_full_name e)) (file_enums fd)
     @ map (\<lambda>s. entry ''service'' (file_path fd) (svc_full_name s)) (file_services fd)
     @ map (\<lambda>x. entry ''extension'' (file_path fd) (ext_full_name x)) (file_exts fd)"

definition fqn_table :: "snapshot \<Rightarrow> string \<Rightarrow> fqn_entry option" where
  "fqn_table snap = map_of (rev (concat (map file_decls (snap_fileList snap))))"

text \<open>Every walk is the insertion of a list of declarations.\<close>

definition put_all :: "(string \<times> fqn_entry) list \<Rightarrow> fqn_map \<Rightarrow> fqn_map" where
  "put_all ds = fold (\<lambda>(n, e). AList.update n e) ds"

lemma put_all_append: "put_all (xs @ ys) out = put_all ys (put_all xs out)"
  by (simp add: put_all_def)

lemma put_all_concat:
  assumes "\<And>x out. x \<in> set xs \<Longrightarrow> f x out = put_all (g x) out"
  shows "fold f xs out = put_all (concat (map g xs)) out"
  using assms
proof (induction xs arbitrary: out)
  case Nil
  then show ?case by (simp add: put_all_def)
next
  case (Cons x xs)
  then show ?case by (simp add: put_all_append)
qed

lemma put_fqn_fold: "fold (\<lambda>x. put_fqn k file (h x)) xs out = put_all (map (\<lambda>x. entry k file (h x)) xs) out"
  by (induction xs arbitrary: out) (simp_all add: put_all_def put_fqn_def entry_def)

lemma walkMessage_put_all: "walkMessage file m out = put_all (message_decls file m) out"
proof (induction m arbitrary: out)
  case (Message n fn fs ms es xs os)
  have "fold (walkMessage file) ms o' = put_all (concat (map (message_decls file) ms)) o'" for o'
    using Message by (intro put_all_concat) simp
  moreover have "put_all (entry k file n' # ds) o' = put_all ds (put_fqn k file n' o')" for k n' ds o'
    by (simp add: put_all_def put_fqn_def entry_def)
  ultimately show ?case by (simp add: put_fqn_fold put_all_append)
qed

lemma walkFile_put_all: "walkFile fd out = put_all (file_decls fd) out"
proof -
  have "fold (walkMessage (file_path fd)) (file_messages fd) o' =
      put_all (concat (map (message_decls (file_path fd)) (file_messages fd))) o'" for o'
    by (intro put_all_concat walkMessage_put_all)
  then show ?thesis by (simp add: walkFile_def file_decls_def put_fqn_fold put_all_append)
qed

lemma collectFQNs_put_all:
  "collectFQNs snap = put_all (concat (map file_decls (snap_fileList snap))) []"
  unfolding collectFQNs_def by (intro put_all_concat walkFile_put_all)

lemma map_of_put_all: "map_of (put_all ds out) = map_of out ++ map_of (rev ds)"
  by (induction ds arbitrary: out) (auto simp: put_all_def update_conv' map_add_upd_left map_add_def fun_eq_iff split: option.splits)

lemma collectFQNs_table: "map_of (collectFQNs snap) = fqn_table snap"
  by (simp add: collectFQNs_put_all fqn_table_def map_of_put_all)

lemma collectFQNs_distinct: "distinct (map fst (collectFQNs snap))"
proof -
  have "distinct (map fst (put_all ds out))" if "distinct (map fst out)" for ds out
    using that by (induction ds arbitrary: out) (auto simp: put_all_def distinct_update)
  then show ?thesis by (simp add: collectFQNs_put_all)
qed

lemma message_decls_path: "(n, e) \<in> set (message_decls p m) \<Longrightarrow> fe_file e = p"
proof (induction m)
  case (Message n' fn fs ms es xs os)
  from Message.prems show ?case
    by (auto simp: entry_def dest: Message.IH)
qed

lemma file_decls_path: "(n, e) \<in> set (file_decls fd) \<Longrightarrow> fe_file e = file_path fd"
  by (auto simp: file_decls_def entry_def dest: message_decls_path)

section \<open>What is reported\<close>

lemma conflict_of_mem_iff:
  "c \<in> set (conflict_of A (fqn, cd)) \<longleftrightarrow> (\<exists>ad. map_of A fqn = Some ad \<and> fe_file cd \<noteq> fe_file ad \<and>
     c = \<lparr>fc_FQN = fqn, fc_Kind = fe_kind cd, fc_ChildFile = fe_file cd, fc_AncestorFile = fe_file ad\<rparr>)"
  by (cases "map_of A fqn") (simp_all add: conflict_of_def)

lemma conflict_of_name: "c \<in> set (conflict_of A y) \<Longrightarrow> fc_FQN c = fst y"
  by (cases y) (auto simp: conflict_of_mem_iff)

lemma conflict_of_distinct: "distinct (map fc_FQN (conflict_of A y))"
  by (cases y) (simp add: conflict_of_def split: option.splits)

lemma conflicts_names_distinct:
  "distinct (map fst C) \<Longrightarrow> distinct (map fc_FQN (concat (map (conflict_of A) C)))"
proof (induction C)
  case Nil
  then show ?case by simp
next
  case (Cons x C)
  have "fc_FQN ` set (conflict_of A x) \<inter> fc_FQN ` set (concat (map (conflict_of A) C)) = {}"
  proof (rule ccontr)
    assume "\<not> ?thesis"
    then obtain c d y where "c \<in> set (conflict_of A x)" "y \<in> set C" "d \<in> set (conflict_of A y)"
      "fc_FQN c = fc_FQN d" by auto
    then have "fst x = fst y" "y \<in> set C" by (simp_all add: conflict_of_name)
    with Cons.prems show False by (metis distinct.simps(2) image_eqI list.map(2) list.set_map)
  qed
  with Cons conflict_of_distinct [of A x] show ?case
    by (simp only: list.map concat.simps map_append distinct_append set_map) simp
qed

lemma DetectFQNConflicts_eq:
  "DetectFQNConflicts (Some child) (Some ancestor) =
     sort_key fc_FQN (concat (map (conflict_of (collectFQNs ancestor)) (collectFQNs child)))"
proof (cases "collectFQNs ancestor")
  case Nil
  then have "concat (map (conflict_of (collectFQNs ancestor)) (collectFQNs child)) = []"
    by (auto simp: conflict_of_def)
  with Nil show ?thesis by (simp only: DetectFQNConflicts_def Let_def) simp
next
  case Cons
  then show ?thesis by (simp add: DetectFQNConflicts_def Let_def)
qed

lemma DetectFQNConflicts_mem:
  "c \<in> set (DetectFQNConflicts (Some child) (Some ancestor)) \<longleftrightarrow>
     (\<exists>cd ad. fqn_table child (fc_FQN c) = Some cd \<and> fqn_table ancestor (fc_FQN c) = Some ad \<and>
        fe_file cd \<noteq> fe_file ad \<and>
        c = \<lparr>fc_FQN = fc_FQN c, fc_Kind = fe_kind cd, fc_ChildFile = fe_file cd, fc_AncestorFile = fe_file ad\<rparr>)"
    (is "?l = ?r")
proof -
  have "?l \<longleftrightarrow> (\<exists>fqn cd. fqn_table child fqn = Some cd \<and> c \<in> set (conflict_of (collectFQNs ancestor) (fqn, cd)))"
    using collectFQNs_distinct [of child] unfolding collectFQNs_table [symmetric]
    by (simp add: DetectFQNConflicts_eq Bex_def)
  also have "\<dots> \<longleftrightarrow> ?r"
    unfolding conflict_of_mem_iff collectFQNs_table by (cases c) auto
  finally show ?thesis .
qed


text \<open>
  Property C22 (D2_same_path_redefinition). A child file at the path of an ancestor's file may
  redefine any of that file's types without a conflict: when every declaration of the two
  snapshots is in one file of the same path, nothing is reported, whatever they declare.
\<close>

theorem D2_same_path_redefinition:
  assumes "\<forall>f \<in> set (snap_fileList child) \<union> set (snap_fileList ancestor). file_path f = p"
  shows "DetectFQNConflicts (Some child) (Some ancestor) = []"
proof -
  have "fe_file e = p" if "fqn_table s n = Some e" "\<forall>f \<in> set (snap_fileList s). file_path f = p" for s n e
    using that by (auto simp: fqn_table_def dest!: map_of_SomeD file_decls_path)
  note path = this
  have "c \<notin> set (DetectFQNConflicts (Some child) (Some ancestor))" for c
  proof
    assume "c \<in> set (DetectFQNConflicts (Some child) (Some ancestor))"
    then obtain cd ad where "fqn_table child (fc_FQN c) = Some cd"
      "fqn_table ancestor (fc_FQN c) = Some ad" "fe_file cd \<noteq> fe_file ad"
      unfolding DetectFQNConflicts_mem by blast
    with path assms show False by blast
  qed
  then show ?thesis by (cases "DetectFQNConflicts (Some child) (Some ancestor)") auto
qed

definition money_snapshot :: "kind \<Rightarrow> snapshot" where
  "money_snapshot k = \<lparr>snap_version = 1, snap_files = [], snap_types = [],
     snap_fileList = [File ''money.proto'' ''acme'' []
       [Message ''Money'' ''acme.Money'' [\<lparr>fld_name = ''units'', fld_full_name = ''acme.Money.units'',
          fld_number = 1, fld_kind = k, fld_cardinality = Optional, fld_message = [], fld_enum = []\<rparr>]
          [] [] [] []] [] [] []]\<rparr>"

theorem D2_same_path_redefinition_witness:
  "DetectFQNConflicts (Some (money_snapshot StringKind)) (Some (money_snapshot Int64Kind)) = [] \<and>
   fqn_table (money_snapshot StringKind) ''acme.Money'' \<noteq> None \<and>
   fqn_table (money_snapshot Int64Kind) ''acme.Money'' \<noteq> None"
  using D2_same_path_redefinition [of "money_snapshot StringKind" "money_snapshot Int64Kind" "''money.proto''"]
  by (simp add: money_snapshot_def fqn_table_def file_decls_def entry_def)

end
