(* ===== verification/Compiler.thy ===== *)
theory Compiler
  imports Snapshot
begin

text \<open>
  The package \<^verbatim>\<open>compiler\<close> except for conflict detection: bounds, normalisation and hashing of
  sources, the resolver chain, \<^verbatim>\<open>Compile\<close> with its walk over imports, the fingerprint and the
  version string. protocompile and the parser are the parameter \<open>L\<close>. A map of sources is an
  association list; the three loops over it use the order of the list. The deadline of a compile
  acts only inside protocompile, where it shows as an error of \<open>lib_Compile\<close>.
\<close>

section \<open>Types and options\<close>

abbreviation DefaultCompileTimeout :: int where
  "DefaultCompileTimeout \<equiv> 30 * 1000000000"

abbreviation DefaultMaxFileSourceBytes :: int where
  "DefaultMaxFileSourceBytes \<equiv> 8 * 1024 * 1024"

abbreviation DefaultMaxFiles :: int where
  "DefaultMaxFiles \<equiv> 1000"

record file_result =
  fr_Filename :: string
  fr_BlobSHA256 :: string
  fr_OriginalSource :: bytes

record dep =
  dep_NamespaceID :: string
  dep_SchemaID :: string
  dep_Filename :: string
  dep_Version :: u64

record dep_source =
  ds_Namespace :: string
  ds_SchemaID :: string
  ds_Version :: u64
  ds_Filename :: string
  ds_Source :: bytes

record chain_tier =
  ct_NamespaceID :: string
  ct_Files :: "dep_source list"

record compile_result =
  cr_Snapshot :: snapshot
  cr_Compiled :: bytes
  cr_Files :: "file_result list"
  cr_Deps :: "dep list"

record compiler =
  c_timeout :: int
  c_maxFileSourceBytes :: int
  c_maxFiles :: int

datatype compiler_option = WithTimeout int | WithMaxFileSourceBytes int | WithMaxFiles int

fun apply_option :: "compiler_option \<Rightarrow> compiler \<Rightarrow> compiler" where
  "apply_option (WithTimeout d) c = c\<lparr>c_timeout := d\<rparr>"
| "apply_option (WithMaxFileSourceBytes n) c = c\<lparr>c_maxFileSourceBytes := n\<rparr>"
| "apply_option (WithMaxFiles n) c = c\<lparr>c_maxFiles := n\<rparr>"

definition compiler_New :: "compiler_option list \<Rightarrow> compiler" where
  "compiler_New opts = fold apply_option opts
     \<lparr>c_timeout = DefaultCompileTimeout, c_maxFileSourceBytes = DefaultMaxFileSourceBytes,
      c_maxFiles = DefaultMaxFiles\<rparr>"

section \<open>Normalisation and hashing\<close>

definition sha256Hex :: "lib \<Rightarrow> bytes \<Rightarrow> string" where
  "sha256Hex L bs = hex_encode (lib_Sha256 L bs)"

definition parseSource :: "lib \<Rightarrow> string \<Rightarrow> bytes \<Rightarrow> token list result" where
  "parseSource L filename text =
     (let (diagnostics, toks) = lib_Parse L filename text in
      case find diag_is_error diagnostics of
        Some d \<Rightarrow> Inl (Errorf (diag_message d))
      | None \<Rightarrow> Inr toks)"

definition writeCanonical :: "token list \<Rightarrow> bytes" where
  "writeCanonical toks = concat (map (\<lambda>tok.
     if tok_synthetic tok \<or> tok_skippable tok then []
     else if tok_text tok \<noteq> [] then tok_text tok @ '' '' else []) toks)"

definition NormalizeAndHash :: "lib \<Rightarrow> string \<Rightarrow> bytes \<Rightarrow> (string \<times> bytes) result" where
  "NormalizeAndHash L filename src =
     bindE (wrapE (''parsing '' @ filename @ '': '') (parseSource L filename src)) (\<lambda>file.
     Inr (hex_encode (lib_Sha256 L (writeCanonical file)), src))"

definition fingerprint_line :: "file_result \<Rightarrow> string" where
  "fingerprint_line f = fr_Filename f @ '':'' @ fr_BlobSHA256 f @ [CHR 0x0A]"

definition ComputeFingerprint :: "lib \<Rightarrow> file_result list \<Rightarrow> string" where
  "ComputeFingerprint L files =
     sha256Hex L (concat (map fingerprint_line (sort_key fr_Filename files)))"

definition IsWellKnownType :: "lib \<Rightarrow> string \<Rightarrow> bool" where
  "IsWellKnownType L filename =
     (if lib_GlobalFile L filename then True
      else lib_Resolve L (WithStandardImports ZeroSourceResolver) filename \<noteq> None)"

definition dep_version :: "string \<Rightarrow> (string \<times> string) list \<Rightarrow> string" where
  "dep_version path deps = fold (\<lambda>(p, v) acc. if p = path then v else acc) deps []"

definition Version :: "lib \<Rightarrow> string" where
  "Version L =
     (let deps = (case lib_BuildDeps L of None \<Rightarrow> [] | Some ds \<Rightarrow> ds) in
      ''protocompile@'' @ dep_version ''github.com/trendvidia/protocompile'' deps
      @ ''+protobuf-go@'' @ dep_version ''google.golang.org/protobuf'' deps)"

section \<open>The resolver chain\<close>

definition bundledImports :: "string list" where
  "bundledImports = [''protowire/schema/v1/annotations.proto'', ''pxf/annotations.proto'']"

definition bundledResolver :: "lib \<Rightarrow> resolver" where
  "bundledResolver L = SourceResolver (\<lambda>path.
     if path \<notin> set bundledImports then None else lib_BundledFile L path)"

definition merged_sources :: "(string \<times> bytes) list \<Rightarrow> dep_source list \<Rightarrow> string \<Rightarrow> bytes option" where
  "merged_sources sources deps =
     fold (\<lambda>d m. m(ds_Filename d \<mapsto> ds_Source d)) deps
     (fold (\<lambda>(filename, content) m. m(filename \<mapsto> content)) sources (\<lambda>_. None))"

definition sourceMapResolver :: "(string \<times> bytes) list \<Rightarrow> dep_source list \<Rightarrow> resolver" where
  "sourceMapResolver sources deps = SourceResolver (merged_sources sources deps)"

definition buildResolverChain ::
  "lib \<Rightarrow> (string \<times> bytes) list \<Rightarrow> dep_source list \<Rightarrow> chain_tier list \<Rightarrow> dep_source list \<Rightarrow> resolver" where
  "buildResolverChain L sources deps parentChain builtins = WithStandardImports (CompositeResolver (
     [sourceMapResolver sources deps]
     @ concat (map (\<lambda>tier. if length (ct_Files tier) = 0 then [] else [sourceMapResolver [] (ct_Files tier)]) parentChain)
     @ (if length builtins > 0 then [sourceMapResolver [] builtins] else [])
     @ [bundledResolver L]))"

section \<open>Compile\<close>

text \<open>
  The closure \<^verbatim>\<open>addFile\<close> over \<^verbatim>\<open>seen\<close> and \<^verbatim>\<open>fileDescriptors\<close>; \<^verbatim>\<open>fds.File\<close> is always the wire form of
  the latter.
\<close>

fun addFile :: "file_desc \<Rightarrow> string list \<times> file_desc list \<Rightarrow> string list \<times> file_desc list" where
  "addFile (File p pkg imps ms es xs ss) (seen, fds) =
     (if p \<in> set seen then (seen, fds)
      else let (seen', fds') = fold addFile imps (p # seen, fds)
           in (seen', fds' @ [File p pkg imps ms es xs ss]))"

definition collectFiles :: "file_desc list \<Rightarrow> file_desc list" where
  "collectFiles compiled = snd (fold addFile compiled ([], []))"

definition dep_record :: "dep_source \<Rightarrow> dep" where
  "dep_record d = \<lparr>dep_NamespaceID = ds_Namespace d, dep_SchemaID = ds_SchemaID d,
     dep_Filename = ds_Filename d, dep_Version = ds_Version d\<rparr>"

definition checkBounds :: "compiler \<Rightarrow> (string \<times> bytes) list \<Rightarrow> unit result" where
  "checkBounds c sources =
     (if c_maxFiles c > 0 \<and> int (length sources) > c_maxFiles c then
        Inl (Errorf (''too many files ('' @ fmt_nat (length sources) @ '' > '' @ fmt_int (c_maxFiles c) @ '')''))
      else if c_maxFileSourceBytes c > 0 then
        (case find (\<lambda>(_, source). int (length source) > c_maxFileSourceBytes c) sources of
           Some (filename, source) \<Rightarrow> Inl (Errorf (''source '' @ fmt_q filename @ '' exceeds ''
             @ fmt_int (c_maxFileSourceBytes c) @ '' byte limit ('' @ fmt_nat (length source) @ '' bytes)''))
         | None \<Rightarrow> Inr ())
      else Inr ())"

definition normalizeFile :: "lib \<Rightarrow> string \<times> bytes \<Rightarrow> file_result result" where
  "normalizeFile L = (\<lambda>(filename, source).
     bindE (wrapE (''normalizing '' @ filename @ '': '') (NormalizeAndHash L filename source)) (\<lambda>(sha, orig).
     Inr \<lparr>fr_Filename = filename, fr_BlobSHA256 = sha, fr_OriginalSource = orig\<rparr>))"

definition Compile ::
  "lib \<Rightarrow> compiler \<Rightarrow> u64 \<Rightarrow> (string \<times> bytes) list \<Rightarrow> dep_source list \<Rightarrow> chain_tier list \<Rightarrow> dep_source list
     \<Rightarrow> compile_result result" where
  "Compile L c version sources deps parentChain builtins =
     bindE (checkBounds c sources) (\<lambda>_.
     bindE (mapE (normalizeFile L) sources) (\<lambda>fileResults.
     bindE (wrapE ''compilation failed: '' (libE (lib_Compile L
        (buildResolverChain L sources deps parentChain builtins) (map fst sources)))) (\<lambda>compiled.
     let fileDescriptors = collectFiles compiled in
     bindE (wrapE ''serializing descriptor set: ''
        (libE (lib_Marshal L (map (lib_ToProto L) fileDescriptors)))) (\<lambda>serialized.
     bindE (wrapE ''building snapshot: '' (NewFromFiles L version fileDescriptors)) (\<lambda>snap.
     Inr \<lparr>cr_Snapshot = snap, cr_Compiled = serialized, cr_Files = fileResults,
          cr_Deps = map dep_record deps @ concat (map (\<lambda>tier. map dep_record (ct_Files tier)) parentChain)\<rparr>)))))"

section \<open>The walk over imports\<close>

text \<open>A file with everything it imports, directly or through other files.\<close>

fun file_closure :: "file_desc \<Rightarrow> file_desc set" where
  "file_closure (File p pkg imps ms es xs ss) =
     insert (File p pkg imps ms es xs ss) (\<Union>f \<in> set imps. file_closure f)"

lemma file_closure_self: "f \<in> file_closure f"
  by (cases f) auto

lemma file_closure_imports: "g \<in> set (file_imports f) \<Longrightarrow> file_closure g \<subseteq> file_closure f"
  by (cases f) auto

lemma file_closure_size: "h \<in> file_closure g \<Longrightarrow> size h \<le> size g"
proof (induction g)
  case (File p pkg imps ms es xs ss)
  show ?case
  proof (cases "h = File p pkg imps ms es xs ss")
    case False
    with File.prems obtain g where g: "g \<in> set imps" "h \<in> file_closure g" by auto
    with File.IH have "size h \<le> size g" by blast
    also from g(1) have "size g \<le> size_list size imps" by (rule size_list_estimation') simp
    finally show ?thesis by simp
  qed simp
qed

lemma self_contained_Nil [simp]: "self_contained []"
  by (simp add: self_contained_def)

lemma self_contained_snoc:
  "self_contained (fds @ [f]) \<longleftrightarrow>
     self_contained fds \<and> file_path f \<notin> file_path ` set fds \<and> set (file_imports f) \<subseteq> set fds"
  by (auto simp: self_contained_def nth_append less_Suc_eq)

lemma self_contained_closed:
  assumes "self_contained fds"
  shows "f \<in> set fds \<Longrightarrow> file_closure f \<subseteq> set fds"
proof (induction f)
  case (File p pkg imps ms es xs ss)
  let ?f = "File p pkg imps ms es xs ss"
  from File.prems obtain i where i: "i < length fds" "fds ! i = ?f" by (auto simp: in_set_conv_nth)
  with assms have "set imps \<subseteq> set (take i fds)" unfolding self_contained_def by (metis file_desc.sel(3))
  then have "set imps \<subseteq> set fds" by (meson order_trans set_take_subset)
  with File show ?case by auto
qed

text \<open>
  The invariant of the walk: \<open>U\<close> holds one descriptor per path, \<open>S\<close> the paths of the files whose
  imports are being walked. Everything seen is either in \<open>S\<close> or already listed, and the list is
  self-contained.
\<close>

definition walk_inv :: "file_desc set \<Rightarrow> string set \<Rightarrow> string list \<times> file_desc list \<Rightarrow> bool" where
  "walk_inv U S st \<longleftrightarrow> set (fst st) = S \<union> file_path ` set (snd st) \<and> set (snd st) \<subseteq> U
     \<and> self_contained (snd st)"

definition walks :: "file_desc set \<Rightarrow> string set \<Rightarrow> file_desc list \<Rightarrow>
  (string list \<times> file_desc list \<Rightarrow> string list \<times> file_desc list) \<Rightarrow> bool" where
  "walks U S fs step \<longleftrightarrow> (\<forall>st. walk_inv U S st \<longrightarrow> walk_inv U S (step st)
     \<and> set fs \<subseteq> set (snd (step st)) \<and> set (snd st) \<subseteq> set (snd (step st))
     \<and> set (snd (step st)) \<subseteq> set (snd st) \<union> (\<Union>f \<in> set fs. file_closure f))"

lemma walksD:
  assumes "walks U S fs step" and "walk_inv U S st"
  shows "walk_inv U S (step st)" and "set fs \<subseteq> set (snd (step st))"
    and "set (snd st) \<subseteq> set (snd (step st))"
    and "set (snd (step st)) \<subseteq> set (snd st) \<union> (\<Union>f \<in> set fs. file_closure f)"
  using assms unfolding walks_def by blast+

lemma walks_fold:
  assumes "\<And>f. f \<in> set fs \<Longrightarrow> walks U S [f] (addFile f)"
  shows "walks U S fs (fold addFile fs)"
  using assms
proof (induction fs)
  case Nil
  then show ?case by (simp add: walks_def)
next
  case (Cons f fs)
  then have f: "walks U S [f] (addFile f)" and fs: "walks U S fs (fold addFile fs)" by auto
  show ?case unfolding walks_def
  proof (intro allI impI conjI)
    fix st assume st: "walk_inv U S st"
    note a = walksD [OF f st]
    note b = walksD [OF fs a(1)]
    from b(1) show "walk_inv U S (fold addFile (f # fs) st)" by simp
    from a(2) b(2,3) show "set (f # fs) \<subseteq> set (snd (fold addFile (f # fs) st))" by auto
    from a(3) b(3) show "set (snd st) \<subseteq> set (snd (fold addFile (f # fs) st))" by simp
    from a(4) b(4) show "set (snd (fold addFile (f # fs) st)) \<subseteq> set (snd st) \<union> (\<Union>g \<in> set (f # fs). file_closure g)"
      by auto
  qed
qed

lemma addFile_walks:
  assumes "inj_on file_path U"
  shows "file_closure f \<subseteq> U \<Longrightarrow> S \<inter> file_path ` file_closure f = {} \<Longrightarrow> walks U S [f] (addFile f)"
proof (induction f arbitrary: S)
  case (File p pkg imps ms es xs ss)
  let ?f = "File p pkg imps ms es xs ss" and ?S = "insert p S"
  have fU: "?f \<in> U" using File.prems(1) by auto
  have below: "p \<notin> file_path ` file_closure g" "file_closure g \<subseteq> U" "S \<inter> file_path ` file_closure g = {}"
    if g: "g \<in> set imps" for g
  proof -
    show gU: "file_closure g \<subseteq> U" and "S \<inter> file_path ` file_closure g = {}" using File.prems g by auto
    show "p \<notin> file_path ` file_closure g"
    proof
      assume "p \<in> file_path ` file_closure g"
      then obtain h where h: "h \<in> file_closure g" "file_path h = p" by auto
      with gU fU assms have "h = ?f" by (metis file_desc.sel(1) inj_onD subsetD)
      with h have "size ?f \<le> size g" by (auto dest: file_closure_size)
      also from g have "size g \<le> size_list size imps" by (rule size_list_estimation') simp
      finally show False by simp
    qed
  qed
  then have imps: "walks U ?S imps (fold addFile imps)"
    by (intro walks_fold File.IH) auto
  show ?case unfolding walks_def
  proof (intro allI impI)
    fix st assume st: "walk_inv U S st"
    obtain seen fds where eq: "st = (seen, fds)" by (cases st)
    show "walk_inv U S (addFile ?f st) \<and> set [?f] \<subseteq> set (snd (addFile ?f st)) \<and> set (snd st) \<subseteq> set (snd (addFile ?f st))
        \<and> set (snd (addFile ?f st)) \<subseteq> set (snd st) \<union> (\<Union>f \<in> set [?f]. file_closure f)"
    proof (cases "p \<in> set seen")
      case True
      with st File.prems(2) obtain g where "g \<in> set fds" "file_path g = p" by (auto simp: walk_inv_def eq)
      with st fU assms have "?f \<in> set fds" by (metis eq file_desc.sel(1) inj_onD snd_conv subsetD walk_inv_def)
      with True st show ?thesis by (auto simp: eq)
    next
      case False
      let ?r = "fold addFile imps (p # seen, fds)"
      from st have "walk_inv U ?S (p # seen, fds)" by (simp add: walk_inv_def eq)
      note r = walksD [OF imps this]
      from False st have "p \<notin> file_path ` set fds" by (auto simp: walk_inv_def eq)
      with r(4) below(1) have new: "p \<notin> file_path ` set (snd ?r)" by auto
      from False have "addFile ?f st = (fst ?r, snd ?r @ [?f])" by (simp add: eq split: prod.splits)
      with r new fU show ?thesis by (auto simp: walk_inv_def self_contained_snoc eq)
    qed
  qed
qed

text \<open>The list the walk returns: self-contained, and exactly the closure of the compiled files.\<close>

lemma collectFiles_spec:
  assumes "inj_on file_path (\<Union>f \<in> set fs. file_closure f)"
  shows "self_contained (collectFiles fs)" and "set (collectFiles fs) = (\<Union>f \<in> set fs. file_closure f)"
proof -
  let ?U = "\<Union>f \<in> set fs. file_closure f"
  have "walks ?U {} fs (fold addFile fs)"
    by (intro walks_fold addFile_walks assms) auto
  moreover have "walk_inv ?U {} ([], [])" by (simp add: walk_inv_def)
  ultimately have w: "walk_inv ?U {} (fold addFile fs ([], []))"
    and sub: "set fs \<subseteq> set (collectFiles fs)"
    unfolding collectFiles_def by (fact walksD)+
  from w have "set (collectFiles fs) \<subseteq> ?U" by (simp add: walk_inv_def collectFiles_def)
  note sub = sub this
  from w show sc: "self_contained (collectFiles fs)" by (simp add: walk_inv_def collectFiles_def)
  with sub show "set (collectFiles fs) = ?U" by (blast dest: self_contained_closed)
qed

section \<open>Results of Compile\<close>

text \<open>
  protocompile links every path once, so the descriptors of one compilation that have the same
  path are the same descriptor.
\<close>

definition linked_once :: "lib \<Rightarrow> bool" where
  "linked_once L \<longleftrightarrow> (\<forall>r ns fs. lib_Compile L r ns = Inr fs \<longrightarrow> inj_on file_path (\<Union>f \<in> set fs. file_closure f))"

lemma list_lib_linked: "linked_once list_lib"
  by (auto simp: linked_once_def list_lib_def bare_file_def inj_on_def split: if_splits)

lemma Compile_InrD:
  assumes "Compile L c v sources deps chain builtins = Inr r"
  obtains compiled where
    "checkBounds c sources = Inr ()"
    "mapE (normalizeFile L) sources = Inr (cr_Files r)"
    "lib_Compile L (buildResolverChain L sources deps chain builtins) (map fst sources) = Inr compiled"
    "lib_Marshal L (map (lib_ToProto L) (collectFiles compiled)) = Inr (cr_Compiled r)"
    "NewFromFiles L v (collectFiles compiled) = Inr (cr_Snapshot r)"
    "cr_Deps r = map dep_record deps @ concat (map (\<lambda>tier. map dep_record (ct_Files tier)) chain)"
  using assms by (auto simp: Compile_def Let_def)

lemma normalizeFile_Inr:
  "normalizeFile L (f, src) = Inr r \<longleftrightarrow>
     (\<exists>toks. parseSource L f src = Inr toks \<and>
        r = \<lparr>fr_Filename = f, fr_BlobSHA256 = sha256Hex L (writeCanonical toks), fr_OriginalSource = src\<rparr>)"
  by (auto simp: normalizeFile_def NormalizeAndHash_def sha256Hex_def)

lemma mapE_normalizeFile:
  "mapE (normalizeFile L) sources = Inr rs \<Longrightarrow>
     map (\<lambda>r. (fr_Filename r, fr_OriginalSource r)) rs = sources"
  by (induction sources arbitrary: rs) (auto simp: normalizeFile_Inr)

text \<open>
  Rebuilding a snapshot from the stored bytes: the wire form decodes to the compiled files, and
  since clashes do not depend on the order of registration, construction cannot fail.
\<close>

lemma snapshot_rebuild:
  assumes "types_register L" and "rebuild_ok L" and "wire_roundtrip L"
    and sc: "self_contained fds"
    and snap: "NewFromFiles L v fds = Inr s" and bytes: "lib_Marshal L (map (lib_ToProto L) fds) = Inr bs"
  obtains ps s' where "lib_Unmarshal L bs = Inr ps" "New L v' ps = Inr s'"
    "set (snap_files s') = set fds" "mset (snap_types s') = mset (snap_types s)"
proof -
  from assms(3) bytes have ps: "lib_Unmarshal L bs = Inr (map (lib_ToProto L) fds)"
    unfolding wire_roundtrip_def by blast
  from assms(2) sc obtain fs where fs: "lib_NewFiles L (map (lib_ToProto L) fds) = Inr fs"
    "set fs = set fds" "distinct (map file_path fs)" unfolding rebuild_ok_def by blast
  from sc fs(3) have "distinct fs" "distinct fds" by (auto simp: self_contained_def distinct_map)
  with fs(2) have "mset fs = mset fds" by (simp add: set_eq_iff_mset_eq_distinct)
  then have m: "mset (concat (map file_types fs)) = mset (concat (map file_types fds))"
    by (metis mset_concat mset_map sum_mset_sum_list)
  note d = NewFromFiles_InrD [OF assms(1) snap]
  from d(4) have "no_clash (concat (map file_types fs))" by (simp add: no_clash_mset [OF m])
  with fs(1) have "New L v' (map (lib_ToProto L) fds) =
      Inr \<lparr>snap_version = v', snap_files = fs, snap_types = concat (map file_types fs), snap_fileList = fs\<rparr>"
    by (simp add: New_Inr_iff [OF assms(1)])
  from that [OF ps this] fs(2) m d(3) show ?thesis by simp
qed

section \<open>Lookup through the tiers\<close>

definition tier_lookup :: "dep_source list \<Rightarrow> string \<Rightarrow> bytes option" where
  "tier_lookup ds p = map_of (rev (map (\<lambda>d. (ds_Filename d, ds_Source d)) ds)) p"

lemma fold_upd: "fold (\<lambda>x m. m(k x \<mapsto> v x)) xs m0 = m0 ++ map_of (rev (map (\<lambda>x. (k x, v x)) xs))"
  by (induction xs arbitrary: m0) (auto simp: map_add_def fun_eq_iff split: option.splits)

lemma merged_sources_eq:
  assumes "distinct (map fst sources)"
  shows "merged_sources sources deps p =
    (case tier_lookup deps p of Some src \<Rightarrow> Some src | None \<Rightarrow> map_of sources p)"
proof -
  have "fold (\<lambda>(f, c) m. m(f \<mapsto> c)) sources (\<lambda>_. None) = map_of (rev sources)"
    using fold_upd [of fst snd sources Map.empty] by (simp add: case_prod_beta')
  also have "map_of (rev sources) = map_of sources"
    by (rule map_of_inject_set [THEN iffD2]) (use assms in \<open>simp_all add: rev_map [symmetric]\<close>)
  finally show ?thesis by (simp add: merged_sources_def fold_upd tier_lookup_def map_add_def)
qed

lemma tier_lookup_Nil [simp]: "tier_lookup [] p = None"
  by (simp add: tier_lookup_def)

text \<open>The chain's answer is the first tier's that has the path; empty tiers have none.\<close>

lemma first_some_tiers:
  assumes "\<And>acc. lib_Resolve L (SourceResolver acc) p = map_option FoundSource (acc p)"
  shows "first_some (\<lambda>r. lib_Resolve L r p)
      (concat (map (\<lambda>tier. if length (ct_Files tier) = 0 then [] else [sourceMapResolver [] (ct_Files tier)]) chain)) =
    map_option FoundSource (first_some (\<lambda>tier. tier_lookup (ct_Files tier) p) chain)"
proof (induction chain)
  case Nil
  then show ?case by simp
next
  case (Cons t chain)
  have "lib_Resolve L (sourceMapResolver [] (ct_Files t)) p = map_option FoundSource (tier_lookup (ct_Files t) p)"
    by (simp add: sourceMapResolver_def assms merged_sources_eq split: option.splits)
  with Cons show ?case by (auto split: option.splits)
qed

definition chain_lookup ::
  "lib \<Rightarrow> (string \<times> bytes) list \<Rightarrow> dep_source list \<Rightarrow> chain_tier list \<Rightarrow> dep_source list \<Rightarrow> string \<Rightarrow> bytes option" where
  "chain_lookup L sources deps chain builtins p = first_some (\<lambda>look. look ())
     ([\<lambda>_. tier_lookup deps p, \<lambda>_. map_of sources p]
      @ map (\<lambda>tier _. tier_lookup (ct_Files tier) p) chain
      @ [\<lambda>_. tier_lookup builtins p, \<lambda>_. if p \<in> set bundledImports then lib_BundledFile L p else None])"

lemma first_some_map: "first_some f (map g xs) = first_some (\<lambda>x. f (g x)) xs"
  by (induction xs) (auto split: option.splits)

lemma resolver_chain_eq:
  assumes "resolvers_ok L" and "distinct (map fst sources)"
    and "chain_lookup L sources deps chain builtins p = Some src"
  shows "lib_Resolve L (buildResolverChain L sources deps chain builtins) p = Some (FoundSource src)"
proof -
  have res: "lib_Resolve L (SourceResolver acc) p = map_option FoundSource (acc p)" for acc
    using assms(1) by (simp add: resolvers_ok_def)
  have tier: "lib_Resolve L (sourceMapResolver s ds) p = map_option FoundSource (merged_sources s ds p)" for s ds
    by (simp add: sourceMapResolver_def res)
  let ?tiers = "[sourceMapResolver sources deps]
     @ concat (map (\<lambda>tier. if length (ct_Files tier) = 0 then [] else [sourceMapResolver [] (ct_Files tier)]) chain)
     @ (if length builtins > 0 then [sourceMapResolver [] builtins] else []) @ [bundledResolver L]"
  have "first_some (\<lambda>r. lib_Resolve L r p) ?tiers = map_option FoundSource (chain_lookup L sources deps chain builtins p)"
    using assms(2) unfolding first_some_append first_some_tiers [OF res] chain_lookup_def
    by (auto simp: tier merged_sources_eq bundledResolver_def res first_some_map split: option.splits)
  with assms(1,3) show ?thesis unfolding buildResolverChain_def resolvers_ok_def by simp
qed

section \<open>The fingerprint determines the files\<close>

abbreviation hash_pair :: "file_result \<Rightarrow> string \<times> string" where
  "hash_pair f \<equiv> (fr_Filename f, fr_BlobSHA256 f)"

text \<open>Names without newlines; hashes are hexadecimal, so without colons and newlines.\<close>

definition plain_result :: "file_result \<Rightarrow> bool" where
  "plain_result f \<longleftrightarrow> CHR 0x0A \<notin> set (fr_Filename f) \<and> CHR 0x0A \<notin> set (fr_BlobSHA256 f)
     \<and> CHR '':'' \<notin> set (fr_BlobSHA256 f)"

lemma fingerprint_line_inj:
  assumes "plain_result f" and "plain_result g"
  shows "fingerprint_line f @ xs = fingerprint_line g @ ys \<longleftrightarrow> hash_pair f = hash_pair g \<and> xs = ys"
proof -
  let ?l = "\<lambda>h. fr_Filename h @ CHR '':'' # fr_BlobSHA256 h"
  have "fingerprint_line f @ xs = fingerprint_line g @ ys \<longleftrightarrow> ?l f @ CHR 0x0A # xs = ?l g @ CHR 0x0A # ys"
    by (simp add: fingerprint_line_def)
  also have "\<dots> \<longleftrightarrow> ?l f = ?l g \<and> xs = ys"
    using assms by (intro split_at_first) (auto simp: plain_result_def)
  also have "?l f = ?l g \<longleftrightarrow> hash_pair f = hash_pair g"
    using assms by (simp add: split_at_last plain_result_def)
  finally show ?thesis .
qed

lemma fingerprint_text_inj:
  "\<forall>f \<in> set fs \<union> set gs. plain_result f \<Longrightarrow>
     concat (map fingerprint_line fs) = concat (map fingerprint_line gs) \<longleftrightarrow> map hash_pair fs = map hash_pair gs"
proof (induction fs arbitrary: gs)
  case Nil
  then show ?case by (cases gs) (auto simp: fingerprint_line_def)
next
  case (Cons f fs)
  show ?case
  proof (cases gs)
    case Nil
    then show ?thesis by (simp add: fingerprint_line_def)
  next
    case (Cons g gs')
    with Cons.prems Cons.IH [of gs'] show ?thesis by (simp add: fingerprint_line_inj)
  qed
qed

lemma sort_hash_pairs:
  assumes "distinct (map fr_Filename fs)" and "distinct (map fr_Filename gs)"
  shows "map hash_pair (sort_key fr_Filename fs) = map hash_pair (sort_key fr_Filename gs) \<longleftrightarrow>
    hash_pair ` set fs = hash_pair ` set gs" (is "?l fs = ?l gs \<longleftrightarrow> ?r")
proof
  assume "?l fs = ?l gs"
  from arg_cong [OF this, of set] show ?r by simp
next
  assume r: ?r
  have m: "map fst (?l hs) = map fr_Filename (sort_key fr_Filename hs)" for hs by simp
  have "inj_on fr_Filename (set hs) \<Longrightarrow> inj_on fst (hash_pair ` set hs)" for hs
    by (auto simp: inj_on_def)
  with assms r have "inj_on fst (set (?l fs) \<union> set (?l gs))" by (simp add: distinct_map)
  with assms r show "?l fs = ?l gs"
    by (intro map_sorted_distinct_set_unique [of fst]) (simp_all only: m sorted_sort_key
        distinct_map set_map set_sort distinct_sort simp_thms)
qed

section \<open>Properties\<close>


definition demo_result :: "string \<Rightarrow> string \<Rightarrow> file_result" where
  "demo_result f h = \<lparr>fr_Filename = f, fr_BlobSHA256 = h, fr_OriginalSource = []\<rparr>"


text \<open>
  Property C10 (Compile_self_contained). The files of a compiled snapshot are the closure of the
  compiled sources under imports, each path once and every file after its imports, so the stored
  descriptor set is self-contained.
\<close>

theorem Compile_self_contained:
  assumes "linked_once L" and "types_register L" and "files_register L"
    and "Compile L c v sources deps chain builtins = Inr r"
  shows "\<exists>compiled.
    lib_Compile L (buildResolverChain L sources deps chain builtins) (map fst sources) = Inr compiled \<and>
    set (snap_fileList (cr_Snapshot r)) = (\<Union>f \<in> set compiled. file_closure f) \<and>
    self_contained (snap_fileList (cr_Snapshot r)) \<and> snap_files (cr_Snapshot r) = snap_fileList (cr_Snapshot r)"
  using assms(4)
proof (rule Compile_InrD)
  fix compiled
  assume c: "lib_Compile L (buildResolverChain L sources deps chain builtins) (map fst sources) = Inr compiled"
    and s: "NewFromFiles L v (collectFiles compiled) = Inr (cr_Snapshot r)"
  from assms(1) c have "inj_on file_path (\<Union>f \<in> set compiled. file_closure f)"
    unfolding linked_once_def by blast
  note spec = collectFiles_spec [OF this]
  from c spec NewFromFiles_InrD(1) [OF assms(2) s] NewFromFiles_files(1) [OF assms(2,3) s]
  show ?thesis by auto
qed

theorem Compile_self_contained_witness:
  "\<exists>r. Compile list_lib (compiler_New []) 1 [(''b.proto'', ''B''), (''a.proto'', ''A'')] [] [] [] = Inr r \<and>
     self_contained (snap_fileList (cr_Snapshot r))"
proof -
  have "\<not> Sum_Type.isl (Compile list_lib (compiler_New []) 1 [(''b.proto'', ''B''), (''a.proto'', ''A'')] [] [] [])"
    by code_simp
  then obtain r where "Compile list_lib (compiler_New []) 1 [(''b.proto'', ''B''), (''a.proto'', ''A'')] [] [] [] = Inr r"
    by (cases "Compile list_lib (compiler_New []) 1 [(''b.proto'', ''B''), (''a.proto'', ''A'')] [] [] []") auto
  with Compile_self_contained [OF list_lib_linked list_lib_types(1) list_lib_files(2) this] show ?thesis by blast
qed

text \<open>
  Property C11 (resolver_nearest_first). An import is answered by the nearest tier that has the
  path: files of other schemas of the namespace, the schema's own sources, each ancestor in
  order, the builtins, the bundled schemas; the standard files only answer when none of these do.
\<close>

theorem resolver_nearest_first:
  assumes "resolvers_ok L" and "distinct (map fst sources)"
    and "chain_lookup L sources deps chain builtins p = Some src"
  shows "lib_Resolve L (buildResolverChain L sources deps chain builtins) p = Some (FoundSource src)"
  using assms by (rule resolver_chain_eq)

definition demo_dep :: "string \<Rightarrow> string \<Rightarrow> dep_source" where
  "demo_dep f src = \<lparr>ds_Namespace = ''org'', ds_SchemaID = ''s'', ds_Version = 1, ds_Filename = f, ds_Source = src\<rparr>"

definition demo_tier :: "dep_source list \<Rightarrow> chain_tier" where
  "demo_tier ds = \<lparr>ct_NamespaceID = ''org'', ct_Files = ds\<rparr>"

theorem resolver_nearest_first_witness:
  "lib_Resolve list_lib (buildResolverChain list_lib [(''a.proto'', ''own'')] []
     [demo_tier [], demo_tier [demo_dep ''m.proto'' ''near''], demo_tier [demo_dep ''m.proto'' ''far'']]
     [demo_dep ''m.proto'' ''builtin'']) ''m.proto'' = Some (FoundSource ''near'')"
  by (rule resolver_nearest_first [OF list_lib_resolvers])
    (simp_all add: chain_lookup_def tier_lookup_def demo_dep_def demo_tier_def)

text \<open>
  Property C21 (own_source_overridden). When another schema of the namespace has a file of the same
  name, a compile succeeds with that file's text in place of the submitted one, while the hash
  and the blob recorded for the name are those of the submitted text.
\<close>

theorem own_source_overridden:
  assumes "resolvers_ok L" and "distinct (map fst sources)" and "(p, own) \<in> set sources"
    and "ds_Filename d = p" and "Compile L c v sources (ds @ [d]) chain builtins = Inr r"
  shows "lib_Resolve L (buildResolverChain L sources (ds @ [d]) chain builtins) p = Some (FoundSource (ds_Source d)) \<and>
    (\<exists>f \<in> set (cr_Files r). \<exists>toks. parseSource L p own = Inr toks \<and> fr_Filename f = p \<and> fr_OriginalSource f = own
       \<and> fr_BlobSHA256 f = sha256Hex L (writeCanonical toks))"
proof
  from assms(4) have "chain_lookup L sources (ds @ [d]) chain builtins p = Some (ds_Source d)"
    by (simp add: chain_lookup_def tier_lookup_def)
  with assms(1,2) show "lib_Resolve L (buildResolverChain L sources (ds @ [d]) chain builtins) p =
      Some (FoundSource (ds_Source d))" by (rule resolver_chain_eq)
  from assms(5) have "mapE (normalizeFile L) sources = Inr (cr_Files r)" by (rule Compile_InrD)
  from mapE_Inr_mem_arg [OF this assms(3)]
  show "\<exists>f \<in> set (cr_Files r). \<exists>toks. parseSource L p own = Inr toks \<and> fr_Filename f = p \<and> fr_OriginalSource f = own
      \<and> fr_BlobSHA256 f = sha256Hex L (writeCanonical toks)"
    by (force simp: normalizeFile_Inr)
qed

theorem own_source_overridden_witness:
  "lib_Resolve list_lib (buildResolverChain list_lib [(''m.proto'', ''mine'')] [demo_dep ''m.proto'' ''theirs''] [] [])
     ''m.proto'' = Some (FoundSource ''theirs'')"
proof -
  let ?c = "Compile list_lib (compiler_New []) 1 [(''m.proto'', ''mine'')] ([] @ [demo_dep ''m.proto'' ''theirs'']) [] []"
  have "\<not> Sum_Type.isl ?c" by code_simp
  then obtain r where "?c = Inr r" by (cases ?c) auto
  from own_source_overridden [OF list_lib_resolvers _ _ _ this, of "''m.proto''" "''mine''"]
  show ?thesis by (simp add: demo_dep_def)
qed

end
