(* ===== verification/Staging.thy ===== *)
theory Staging
  imports Prelude
begin

text \<open>
  The contract of a staging area, which the registry keeps twice: as snapshots in memory and as
  version numbers in the database. Keys are schema ids. A key that the area does not know is
  either created or ignored by staging; \<open>accepts\<close> says which.
\<close>

locale staging_area =
  fixes current staged :: "'s \<Rightarrow> 'k \<Rightarrow> 'v option"
    and accepts :: "'s \<Rightarrow> 'k \<Rightarrow> bool"
    and set_staged :: "'k \<Rightarrow> 'v \<Rightarrow> 's \<Rightarrow> 's"
    and promote discard :: "'s \<Rightarrow> 's"
  assumes current_set_staged: "current (set_staged k v s) j = current s j"
    and staged_set_staged: "staged (set_staged k v s) j = (if j = k \<and> accepts s k then Some v else staged s j)"
    and current_promote: "current (promote s) j = (case staged s j of Some v \<Rightarrow> Some v | None \<Rightarrow> current s j)"
    and staged_promote: "staged (promote s) j = None"
    and current_discard: "current (discard s) j = current s j"
    and staged_discard: "staged (discard s) j = None"
begin

lemmas area_laws = current_set_staged staged_set_staged current_promote staged_promote
  current_discard staged_discard

text \<open>A batch that is staged and promoted: the last staged version of each key wins.\<close>

definition stage_all :: "('k \<times> 'v) list \<Rightarrow> 's \<Rightarrow> 's" where
  "stage_all kvs = fold (\<lambda>(k, v). set_staged k v) kvs"

lemma current_stage_all: "current (stage_all kvs s) j = current s j"
  unfolding stage_all_def by (induction kvs arbitrary: s) (auto simp: area_laws)

lemma staged_stage_all:
  assumes "\<And>s k. accepts s k"
  shows "staged (stage_all kvs s) j = (case map_of (rev kvs) j of Some v \<Rightarrow> Some v | None \<Rightarrow> staged s j)"
  unfolding stage_all_def
  by (induction kvs arbitrary: s) (auto simp: area_laws assms map_add_def split: option.splits)

lemma promote_batch:
  assumes "\<And>s k. accepts s k" and "\<And>j. staged s j = None"
  shows "current (promote (stage_all kvs s)) j =
    (case map_of (rev kvs) j of Some v \<Rightarrow> Some v | None \<Rightarrow> current s j)"
  by (simp add: current_promote staged_stage_all [OF assms(1)] assms(2) current_stage_all split: option.splits)

lemma discard_batch: "current (promote (discard (stage_all kvs s))) j = current s j"
  by (simp add: area_laws current_stage_all)

end

text \<open>
  Two staging areas over the same keys, the second holding an image \<open>f\<close> of the values of the first.
  Performing the same operation on both keeps them in agreement.
\<close>

locale staging_mirror =
  fst: staging_area current1 staged1 accepts1 set_staged1 promote1 discard1 +
  snd: staging_area current2 staged2 accepts2 set_staged2 promote2 discard2
  for current1 staged1 :: "'s \<Rightarrow> 'k \<Rightarrow> 'v option"
    and accepts1 :: "'s \<Rightarrow> 'k \<Rightarrow> bool"
    and set_staged1 :: "'k \<Rightarrow> 'v \<Rightarrow> 's \<Rightarrow> 's"
    and promote1 discard1 :: "'s \<Rightarrow> 's"
    and current2 staged2 :: "'t \<Rightarrow> 'k \<Rightarrow> 'w option"
    and accepts2 :: "'t \<Rightarrow> 'k \<Rightarrow> bool"
    and set_staged2 :: "'k \<Rightarrow> 'w \<Rightarrow> 't \<Rightarrow> 't"
    and promote2 discard2 :: "'t \<Rightarrow> 't" +
  fixes f :: "'v \<Rightarrow> 'w"
begin

definition agree :: "'s \<Rightarrow> 't \<Rightarrow> bool" where
  "agree s t \<longleftrightarrow> (\<forall>j. current2 t j = map_option f (current1 s j)) \<and> (\<forall>j. staged2 t j = map_option f (staged1 s j))"

lemma agree_set_staged:
  "agree s t \<Longrightarrow> accepts1 s k \<Longrightarrow> accepts2 t k \<Longrightarrow> agree (set_staged1 k v s) (set_staged2 k (f v) t)"
  by (simp add: agree_def fst.area_laws snd.area_laws)

lemma agree_promote: "agree s t \<Longrightarrow> agree (promote1 s) (promote2 t)"
  by (auto simp: agree_def fst.area_laws snd.area_laws split: option.splits)

lemma agree_discard: "agree s t \<Longrightarrow> agree (discard1 s) (discard2 t)"
  by (simp add: agree_def fst.area_laws snd.area_laws)

end

end
