(* ===== verification/Namespace.thy ===== *)
theory Namespace
  imports Snapshot Staging
begin

text \<open>
  \<^verbatim>\<open>namespace/namespace.go\<close>: the namespaces in memory, their schema slots with current and staged
  snapshots, and the chain of parents. A namespace object is created once per id, by
  \<^verbatim>\<open>GetOrCreate\<close>, so a pointer to it is its id. The two \<^verbatim>\<open>sync.Map\<close>s are association lists; \<^verbatim>\<open>Range\<close>
  visits them in list order.
\<close>

section \<open>Slots and namespaces\<close>

record slot =
  slot_current :: "snapshot option"
  slot_staged :: "snapshot option"

record namespace =
  ns_parent :: "string option"
  ns_schemas :: "(string \<times> slot) list"

type_synonym memory = "(string \<times> namespace) list"

definition newNamespace :: namespace where
  "newNamespace = \<lparr>ns_parent = None, ns_schemas = []\<rparr>"

definition getSlot :: "string \<Rightarrow> namespace \<Rightarrow> slot option" where
  "getSlot schemaID ns = map_of (ns_schemas ns) schemaID"

definition getOrCreateSlot :: "string \<Rightarrow> namespace \<Rightarrow> namespace" where
  "getOrCreateSlot schemaID ns =
     (case getSlot schemaID ns of
        Some _ \<Rightarrow> ns
      | None \<Rightarrow> ns\<lparr>ns_schemas := ns_schemas ns @ [(schemaID, \<lparr>slot_current = None, slot_staged = None\<rparr>)]\<rparr>)"

definition update_slot :: "string \<Rightarrow> (slot \<Rightarrow> slot) \<Rightarrow> namespace \<Rightarrow> namespace" where
  "update_slot schemaID f ns = ns\<lparr>ns_schemas := AList.map_entry schemaID f (ns_schemas ns)\<rparr>"

definition Current :: "string \<Rightarrow> namespace \<Rightarrow> snapshot option" where
  "Current schemaID ns = (case getSlot schemaID ns of None \<Rightarrow> None | Some slot \<Rightarrow> slot_current slot)"

definition Staged :: "string \<Rightarrow> namespace \<Rightarrow> snapshot option" where
  "Staged schemaID ns = (case getSlot schemaID ns of None \<Rightarrow> None | Some slot \<Rightarrow> slot_staged slot)"

definition SetCurrent :: "string \<Rightarrow> snapshot \<Rightarrow> namespace \<Rightarrow> namespace" where
  "SetCurrent schemaID snap ns =
     update_slot schemaID (\<lambda>slot. slot\<lparr>slot_current := Some snap\<rparr>) (getOrCreateSlot schemaID ns)"

definition SetStaged :: "string \<Rightarrow> snapshot \<Rightarrow> namespace \<Rightarrow> namespace" where
  "SetStaged schemaID snap ns =
     update_slot schemaID (\<lambda>slot. slot\<lparr>slot_staged := Some snap\<rparr>) (getOrCreateSlot schemaID ns)"

definition promote_slot :: "slot \<Rightarrow> slot" where
  "promote_slot slot = (case slot_staged slot of
     None \<Rightarrow> slot | Some staged \<Rightarrow> slot\<lparr>slot_current := Some staged, slot_staged := None\<rparr>)"

definition ns_Promote :: "namespace \<Rightarrow> string list \<times> namespace" where
  "ns_Promote ns =
     (map fst (filter (\<lambda>(_, slot). slot_staged slot \<noteq> None) (ns_schemas ns)),
      ns\<lparr>ns_schemas := map (\<lambda>(k, slot). (k, promote_slot slot)) (ns_schemas ns)\<rparr>)"

definition ns_DiscardStaging :: "namespace \<Rightarrow> namespace" where
  "ns_DiscardStaging ns =
     ns\<lparr>ns_schemas := map (\<lambda>(k, slot). (k, slot\<lparr>slot_staged := None\<rparr>)) (ns_schemas ns)\<rparr>"

definition AllCurrent :: "namespace \<Rightarrow> (string \<times> snapshot) list" where
  "AllCurrent ns = concat (map (\<lambda>(k, slot).
     case slot_current slot of Some snap \<Rightarrow> [(k, snap)] | None \<Rightarrow> []) (ns_schemas ns))"

definition ProposedView :: "namespace \<Rightarrow> (string \<times> snapshot) list" where
  "ProposedView ns = concat (map (\<lambda>(k, slot).
     case slot_staged slot of Some snap \<Rightarrow> [(k, snap)]
     | None \<Rightarrow> (case slot_current slot of Some snap \<Rightarrow> [(k, snap)] | None \<Rightarrow> [])) (ns_schemas ns))"

definition SchemaIDs :: "namespace \<Rightarrow> string list" where
  "SchemaIDs ns = map fst (ns_schemas ns)"

section \<open>The registry of namespaces\<close>

definition Get :: "memory \<Rightarrow> string \<Rightarrow> namespace option" where
  "Get mem nid = map_of mem nid"

definition GetOrCreate :: "string \<Rightarrow> memory \<Rightarrow> memory" where
  "GetOrCreate nid mem = (case Get mem nid of Some _ \<Rightarrow> mem | None \<Rightarrow> mem @ [(nid, newNamespace)])"

definition on_namespace :: "string \<Rightarrow> (namespace \<Rightarrow> namespace) \<Rightarrow> memory \<Rightarrow> memory" where
  "on_namespace nid f mem = AList.map_entry nid f mem"

definition Parent :: "memory \<Rightarrow> string \<Rightarrow> string option" where
  "Parent mem nid = (case Get mem nid of None \<Rightarrow> None | Some ns \<Rightarrow> ns_parent ns)"

definition SetParent :: "string \<Rightarrow> string option \<Rightarrow> memory \<Rightarrow> memory" where
  "SetParent nid parent mem = on_namespace nid (\<lambda>ns. ns\<lparr>ns_parent := parent\<rparr>) mem"

abbreviation chainMaxDepth :: nat where
  "chainMaxDepth \<equiv> 64"

function chain_from :: "memory \<Rightarrow> string option \<Rightarrow> string list \<Rightarrow> string list" where
  "chain_from mem cur chain =
     (case cur of
        None \<Rightarrow> chain
      | Some nid \<Rightarrow>
          if length chain < chainMaxDepth then
            (if nid \<in> set chain then chain else chain_from mem (Parent mem nid) (chain @ [nid]))
          else chain)"
  by pat_completeness auto

termination chain_from
  by (relation "measure (\<lambda>(_, _, chain). chainMaxDepth - length chain)") auto

declare chain_from.simps [simp del]

definition Chain :: "memory \<Rightarrow> string \<Rightarrow> string list" where
  "Chain mem nid = chain_from mem (Some nid) []"

section \<open>The staging area in memory\<close>

lemma getSlot_update_slot [simp]:
  "getSlot j (update_slot k f ns) = (if j = k then map_option f (getSlot k ns) else getSlot j ns)"
  by (auto simp: getSlot_def update_slot_def map_of_map_entry split: option.splits)

lemma getSlot_getOrCreateSlot [simp]:
  "getSlot j (getOrCreateSlot k ns) =
     (if j = k \<and> getSlot k ns = None then Some \<lparr>slot_current = None, slot_staged = None\<rparr> else getSlot j ns)"
  by (auto simp: getSlot_def getOrCreateSlot_def map_add_def split: option.splits)

lemma map_of_map_snd: "map_of (map (\<lambda>(k, v). (k, f v)) al) k = map_option f (map_of al k)"
  by (induction al) auto

lemma getSlot_Promote [simp]: "getSlot j (snd (ns_Promote ns)) = map_option promote_slot (getSlot j ns)"
  by (simp add: getSlot_def ns_Promote_def map_of_map_snd)

lemma getSlot_DiscardStaging [simp]:
  "getSlot j (ns_DiscardStaging ns) = map_option (\<lambda>slot. slot\<lparr>slot_staged := None\<rparr>) (getSlot j ns)"
  by (simp add: getSlot_def ns_DiscardStaging_def map_of_map_snd)

lemma ns_parent_ops [simp]:
  "ns_parent (SetStaged k v ns) = ns_parent ns" "ns_parent (SetCurrent k v ns) = ns_parent ns"
  "ns_parent (snd (ns_Promote ns)) = ns_parent ns" "ns_parent (ns_DiscardStaging ns) = ns_parent ns"
  by (simp_all add: SetStaged_def SetCurrent_def update_slot_def getOrCreateSlot_def ns_Promote_def
      ns_DiscardStaging_def split: option.splits)

interpretation memory_area: staging_area
  "\<lambda>ns j. Current j ns" "\<lambda>ns j. Staged j ns" "\<lambda>_ _. True" SetStaged "\<lambda>ns. snd (ns_Promote ns)" ns_DiscardStaging
  by unfold_locales
    (auto simp: Current_def Staged_def SetStaged_def promote_slot_def split: option.splits)

text \<open>\<^verbatim>\<open>SetCurrent\<close>, which \<^verbatim>\<open>Restore\<close> uses, and the derived views.\<close>

lemma Current_SetCurrent [simp]: "Current j (SetCurrent k v ns) = (if j = k then Some v else Current j ns)"
  by (auto simp: Current_def SetCurrent_def split: option.splits)

lemma Staged_SetCurrent [simp]: "Staged j (SetCurrent k v ns) = Staged j ns"
  by (auto simp: Staged_def SetCurrent_def split: option.splits)

section \<open>The memory as a map\<close>

lemma Get_GetOrCreate: "Get (GetOrCreate n mem) m = (if m = n \<and> Get mem n = None then Some newNamespace else Get mem m)"
  by (auto simp: Get_def GetOrCreate_def map_add_def split: option.splits)

lemma Get_on_namespace: "Get (on_namespace n f mem) m = (if m = n then map_option f (Get mem n) else Get mem m)"
  by (auto simp: Get_def on_namespace_def map_of_map_entry split: option.splits)

lemmas Get_simps [simp] = Get_GetOrCreate Get_on_namespace

lemma Parent_GetOrCreate [simp]: "Parent (GetOrCreate n mem) m = Parent mem m"
  by (auto simp: Parent_def newNamespace_def split: option.splits)

lemma Parent_on_namespace:
  "(\<And>ns. ns_parent (f ns) = ns_parent ns) \<Longrightarrow> Parent (on_namespace n f mem) m = Parent mem m"
  by (auto simp: Parent_def split: option.splits)

lemma Parent_SetParent:
  "Parent (SetParent n p mem) m = (if m = n \<and> Get mem n \<noteq> None then p else Parent mem m)"
  by (auto simp: Parent_def SetParent_def split: option.splits)

section \<open>The chain of parents\<close>

text \<open>A walk along parent links, each namespace at most once.\<close>

definition parent_path :: "memory \<Rightarrow> string list \<Rightarrow> bool" where
  "parent_path mem c \<longleftrightarrow> distinct c \<and> (\<forall>i. Suc i < length c \<longrightarrow> Parent mem (c ! i) = Some (c ! Suc i))"

text \<open>Why a walk ends: at a root, at a namespace seen before, or at the depth bound.\<close>

definition chain_end :: "memory \<Rightarrow> string list \<Rightarrow> bool" where
  "chain_end mem c \<longleftrightarrow> length c = chainMaxDepth \<or>
     (case Parent mem (last c) of None \<Rightarrow> True | Some p \<Rightarrow> p \<in> set c)"

lemma parent_path_snoc:
  assumes "parent_path mem c" and "n \<notin> set c" and "c \<noteq> [] \<Longrightarrow> Parent mem (last c) = Some n"
  shows "parent_path mem (c @ [n])"
proof -
  have "Parent mem ((c @ [n]) ! i) = Some ((c @ [n]) ! Suc i)" if "Suc i < length (c @ [n])" for i
  proof (cases "Suc i < length c")
    case True
    with assms(1) show ?thesis by (simp add: parent_path_def nth_append)
  next
    case False
    with that have i: "i = length c - 1" "c \<noteq> []" by auto
    with assms(3) show ?thesis by (simp add: nth_append last_conv_nth)
  qed
  with assms(1,2) show ?thesis by (simp add: parent_path_def)
qed

lemma chain_from_spec:
  assumes "parent_path mem chain" and "length chain \<le> chainMaxDepth"
    and "chain \<noteq> [] \<Longrightarrow> cur = Parent mem (last chain)" and "chain = [] \<Longrightarrow> cur = Some n"
  shows "parent_path mem (chain_from mem cur chain) \<and> length (chain_from mem cur chain) \<le> chainMaxDepth \<and>
    chain_end mem (chain_from mem cur chain) \<and> (\<exists>ext. chain_from mem cur chain = chain @ ext) \<and>
    chain_from mem cur chain \<noteq> [] \<and> (chain = [] \<longrightarrow> hd (chain_from mem cur chain) = n)"
  using assms
proof (induction mem cur chain rule: chain_from.induct)
  case (1 mem cur chain)
  show ?case
  proof (cases "\<exists>m. cur = Some m \<and> length chain < chainMaxDepth \<and> m \<notin> set chain")
    case True
    then obtain m where m: "cur = Some m" "length chain < chainMaxDepth" "m \<notin> set chain" by blast
    have "parent_path mem (chain @ [m])"
      using 1(2,4) m by (intro parent_path_snoc) auto
    from 1(1) [OF m(1) m(2) m(3) this] m(2) have ih: "parent_path mem (chain_from mem (Parent mem m) (chain @ [m])) \<and>
        length (chain_from mem (Parent mem m) (chain @ [m])) \<le> chainMaxDepth \<and>
        chain_end mem (chain_from mem (Parent mem m) (chain @ [m])) \<and>
        (\<exists>ext. chain_from mem (Parent mem m) (chain @ [m]) = (chain @ [m]) @ ext) \<and>
        chain_from mem (Parent mem m) (chain @ [m]) \<noteq> []" by simp
    have eq: "chain_from mem cur chain = chain_from mem (Parent mem m) (chain @ [m])"
      using m by (subst chain_from.simps) simp
    from ih have "chain = [] \<longrightarrow> hd (chain_from mem cur chain) = n"
      unfolding eq using 1(5) m(1) by auto
    with ih show ?thesis unfolding eq by auto
  next
    case False
    then have "chain_from mem cur chain = chain"
      by (subst chain_from.simps) (auto split: option.splits)
    moreover from False 1(3,4,5) have "chain \<noteq> []" by auto
    moreover from False 1(3,4) this have "chain_end mem chain"
      by (auto simp: chain_end_def split: option.splits)
    ultimately show ?thesis using 1(2,3) by simp
  qed
qed

lemma Chain_spec:
  "parent_path mem (Chain mem n)" "length (Chain mem n) \<le> chainMaxDepth" "chain_end mem (Chain mem n)"
  "Chain mem n \<noteq> []" "hd (Chain mem n) = n"
  using chain_from_spec [of mem "[]" "Some n" n] by (simp_all add: Chain_def parent_path_def)

text \<open>When the walk ends at a root it has visited every ancestor.\<close>

definition ancestor :: "memory \<Rightarrow> string \<Rightarrow> string \<Rightarrow> bool" where
  "ancestor mem = (\<lambda>n m. Parent mem n = Some m)\<^sup>*\<^sup>*"

lemma parent_path_ancestor:
  "parent_path mem c \<Longrightarrow> i < length c \<Longrightarrow> ancestor mem (hd c) (c ! i)"
proof (induction i)
  case 0
  then show ?case by (simp add: ancestor_def hd_conv_nth)
next
  case (Suc i)
  then have "ancestor mem (hd c) (c ! i)" "Parent mem (c ! i) = Some (c ! Suc i)"
    by (auto simp: parent_path_def)
  then show ?case by (auto simp: ancestor_def intro: rtranclp.rtrancl_into_rtrancl)
qed

lemma Chain_closed:
  assumes "length (Chain mem n) < chainMaxDepth" and m: "m \<in> set (Chain mem n)" and p: "Parent mem m = Some p"
  shows "p \<in> set (Chain mem n)"
proof -
  let ?c = "Chain mem n"
  from m obtain i where i: "i < length ?c" "m = ?c ! i" by (auto simp: in_set_conv_nth)
  show ?thesis
  proof (cases "Suc i < length ?c")
    case True
    with Chain_spec(1) [of mem n] i(2) p have "p = ?c ! Suc i" unfolding parent_path_def by force
    with True show ?thesis by simp
  next
    case False
    with i have "i = length ?c - 1" by simp
    with i(2) have "m = last ?c" by (simp add: last_conv_nth Chain_spec(4))
    with p Chain_spec(3) [of mem n] assms(1) show ?thesis unfolding chain_end_def by simp
  qed
qed

lemma Chain_complete:
  assumes "length (Chain mem n) < chainMaxDepth"
  shows "set (Chain mem n) = {m. ancestor mem n m}"
proof (rule set_eqI, unfold mem_Collect_eq, rule iffI)
  fix m assume "m \<in> set (Chain mem n)"
  then obtain i where "i < length (Chain mem n)" "m = Chain mem n ! i" by (auto simp: in_set_conv_nth)
  with parent_path_ancestor [OF Chain_spec(1) [of mem n], of i] show "ancestor mem n m"
    unfolding Chain_spec(5) by simp
next
  fix m assume "ancestor mem n m"
  then show "m \<in> set (Chain mem n)"
    unfolding ancestor_def
  proof (induction rule: rtranclp_induct)
    case base
    show ?case using hd_in_set [OF Chain_spec(4) [of mem n]] unfolding Chain_spec(5) .
  next
    case (step y z)
    from Chain_closed [OF assms step.IH step.hyps(2)] show ?case .
  qed
qed

section \<open>Properties\<close>

text \<open>
  Property C18 (Chain_correct). \<^verbatim>\<open>Chain\<close> always returns: it starts with the namespace itself, follows
  parent pointers one by one, names no namespace twice and has at most 64 entries, whatever the
  parent pointers are; and when it has fewer than 64 entries it is exactly the set of ancestors,
  so a cycle in memory never makes it loop.
\<close>

theorem Chain_correct:
  "hd (Chain mem n) = n \<and> distinct (Chain mem n) \<and> length (Chain mem n) \<le> 64 \<and>
   (\<forall>i. Suc i < length (Chain mem n) \<longrightarrow> Parent mem (Chain mem n ! i) = Some (Chain mem n ! Suc i)) \<and>
   (length (Chain mem n) < 64 \<longrightarrow> set (Chain mem n) = {m. ancestor mem n m})"
  using Chain_spec [of mem n] Chain_complete [of mem n] by (simp add: parent_path_def)

definition demo_memory :: memory where
  "demo_memory = [(''a'', newNamespace\<lparr>ns_parent := Some ''b''\<rparr>), (''b'', newNamespace\<lparr>ns_parent := Some ''c''\<rparr>),
     (''c'', newNamespace\<lparr>ns_parent := Some ''b''\<rparr>)]"

theorem Chain_correct_witness: "{m. ancestor demo_memory ''a'' m} = {''a'', ''b'', ''c''}"
proof -
  have c: "Chain demo_memory ''a'' = [''a'', ''b'', ''c'']" by code_simp
  have "length (Chain demo_memory ''a'') < 64" unfolding c by simp
  with Chain_correct [of demo_memory "''a''"] have "set (Chain demo_memory ''a'') = {m. ancestor demo_memory ''a'' m}"
    by blast
  then show ?thesis unfolding c list.set ..
qed

text \<open>
  Property C19 (staging_batch). Staging a batch of snapshots and promoting makes the last snapshot
  staged for each schema its current one and leaves every other schema as it was; discarding
  instead of promoting leaves every current snapshot as it was.
\<close>

theorem staging_batch:
  assumes "\<And>j. Staged j ns = None"
  shows "Current j (snd (ns_Promote (fold (\<lambda>(k, v). SetStaged k v) kvs ns))) =
      (case map_of (rev kvs) j of Some v \<Rightarrow> Some v | None \<Rightarrow> Current j ns) \<and>
    Current j (snd (ns_Promote (ns_DiscardStaging (fold (\<lambda>(k, v). SetStaged k v) kvs ns)))) = Current j ns"
  using memory_area.promote_batch [OF TrueI assms, where kvs = kvs and j = j]
    memory_area.discard_batch [of j kvs ns]
  by (simp add: memory_area.stage_all_def)

definition bare_snapshot :: "u64 \<Rightarrow> snapshot" where
  "bare_snapshot v = \<lparr>snap_version = v, snap_files = [], snap_types = [], snap_fileList = []\<rparr>"

theorem staging_batch_witness:
  "Current ''s'' (snd (ns_Promote (fold (\<lambda>(k, v). SetStaged k v)
     [(''s'', bare_snapshot 1), (''t'', bare_snapshot 1), (''s'', bare_snapshot 2)] newNamespace))) = Some (bare_snapshot 2)"
proof -
  have "Staged j newNamespace = None" for j by (simp add: Staged_def getSlot_def newNamespace_def)
  from staging_batch [OF this, of "''s''" "[(''s'', bare_snapshot 1), (''t'', bare_snapshot 1), (''s'', bare_snapshot 2)]"]
  have "Current ''s'' (snd (ns_Promote (fold (\<lambda>(k, v). SetStaged k v)
      [(''s'', bare_snapshot 1), (''t'', bare_snapshot 1), (''s'', bare_snapshot 2)] newNamespace))) =
    (case map_of (rev [(''s'', bare_snapshot 1), (''t'', bare_snapshot 1), (''s'', bare_snapshot 2)]) ''s'' of
      Some v \<Rightarrow> Some v | None \<Rightarrow> Current ''s'' newNamespace)" by (rule conjunct1)
  also have "\<dots> = Some (bare_snapshot 2)" by simp
  finally show ?thesis .
qed

end
