(* ===== verification/Store.thy ===== *)
theory Store
  imports Prelude Staging
begin

text \<open>
  The persistence layer: the interface and row types of \<^verbatim>\<open>store/store.go\<close>, the SQL statements of
  \<^verbatim>\<open>store/postgres/sqlc\<close> over tables with the keys of \<^verbatim>\<open>migrations\<close>, and the methods of
  \<^verbatim>\<open>store/postgres/postgres.go\<close>. PostgreSQL is modelled by its documented behaviour: statements are
  atomic, primary and foreign keys reject rows, a failed transaction leaves no trace. Text columns
  sort by a collation key with ties broken by the text itself (a deterministic collation);
  \<^verbatim>\<open>BIGINT\<close> columns are integers. Any statement may fail to reach the database: \<open>db_faults\<close> holds,
  for the statements to come, which of them fail.

  \<^verbatim>\<open>now()\<close> is the clock \<open>db_clock\<close> of the database. Left out: the wire encoding of JSON metadata, which
  is kept as the decoded map.
\<close>

section \<open>Tables\<close>

type_synonym metadata = "(string \<times> string) list"

record ns_row =
  nr_id :: string
  nr_created_at :: int
  nr_deleted_at :: "int option"
  nr_metadata :: metadata
  nr_parent :: "string option"

record event_row =
  er_id :: int
  er_ns :: string
  er_previous :: "string option"
  er_new :: "string option"
  er_actor :: string
  er_at :: int

record blob_row =
  br_ns :: string
  br_sha :: string
  br_source :: bytes
  br_size :: int
  br_created_at :: int

record schema_row =
  sr_ns :: string
  sr_id :: string
  sr_current :: "int option"
  sr_staged :: "int option"
  sr_created_at :: int
  sr_deleted_at :: "int option"
  sr_metadata :: metadata

record version_row =
  vr_ns :: string
  vr_schema :: string
  vr_version :: int
  vr_compiled :: bytes
  vr_compiler :: string
  vr_created_by :: string
  vr_created_at :: int
  vr_deleted_at :: "int option"
  vr_metadata :: metadata

record file_row =
  vf_ns :: string
  vf_schema :: string
  vf_version :: int
  vf_filename :: string
  vf_sha :: string

record dep_row =
  vd_ns :: string
  vd_schema :: string
  vd_version :: int
  vd_dep_ns :: string
  vd_dep_schema :: string
  vd_filename :: string
  vd_dep_version :: int

record db =
  db_namespaces :: "ns_row list"
  db_events :: "event_row list"
  db_blobs :: "blob_row list"
  db_schemas :: "schema_row list"
  db_versions :: "version_row list"
  db_files :: "file_row list"
  db_deps :: "dep_row list"
  db_next_event :: int
  db_clock :: int
  db_collation :: "string \<Rightarrow> string"
  db_faults :: "bool list"

definition text_key :: "db \<Rightarrow> string \<Rightarrow> string \<times> string" where
  "text_key db s = (db_collation db s, s)"

text \<open>A statement: it fails if the next fault says so, and runs otherwise.\<close>

definition statement :: "(db, 'a) act \<Rightarrow> (db, 'a) act" where
  "statement q db =
     (case db_faults db of
        [] \<Rightarrow> q db
      | f # fs \<Rightarrow> (let db = db\<lparr>db_faults := fs\<rparr> in
          if f then (Inl (DbError Unavailable), db) else q db))"

definition select :: "(db \<Rightarrow> 'a result) \<Rightarrow> (db, 'a) act" where
  "select f = statement (\<lambda>db. (f db, db))"

definition one_row :: "'a option \<Rightarrow> 'a result" where
  "one_row r = (case r of None \<Rightarrow> Inl (DbError NoRows) | Some a \<Rightarrow> Inr a)"

text \<open>
  A transaction: \<^verbatim>\<open>Begin\<close>, the body, \<^verbatim>\<open>Commit\<close>; on any error the deferred \<^verbatim>\<open>Rollback\<close> restores the
  tables. The three strings prefix the errors of \<^verbatim>\<open>Begin\<close> and \<^verbatim>\<open>Commit\<close>.
\<close>

definition rolled_back :: "db \<Rightarrow> db \<Rightarrow> db" where
  "rolled_back db0 db = db0\<lparr>db_faults := db_faults db\<rparr>"

definition transaction :: "string \<Rightarrow> string option \<Rightarrow> (db, 'a) act \<Rightarrow> (db, 'a) act" where
  "transaction begin_prefix commit_prefix body db =
     (case wrapA begin_prefix (statement (retA ())) db of
        (Inl e, db1) \<Rightarrow> (Inl e, db1)
      | (Inr _, db1) \<Rightarrow>
          (case bindA body (\<lambda>a. bindA (case commit_prefix of
                Some p \<Rightarrow> wrapA p (statement (retA ())) | None \<Rightarrow> statement (retA ())) (\<lambda>_. retA a)) db1 of
             (Inl e, db2) \<Rightarrow> (Inl e, rolled_back db1 db2)
           | (Inr a, db2) \<Rightarrow> (Inr a, db2)))"

section \<open>SQL statements on namespaces and their events\<close>

abbreviation ns_ids :: "db \<Rightarrow> string set" where
  "ns_ids db \<equiv> nr_id ` set (db_namespaces db)"

definition q_CreateNamespace :: "string \<Rightarrow> metadata \<Rightarrow> string option \<Rightarrow> (db, unit) act" where
  "q_CreateNamespace nid meta parent = statement (\<lambda>db.
     if nid \<in> ns_ids db then (Inl (DbError UniqueViolation), db)
     else if (case parent of None \<Rightarrow> False | Some p \<Rightarrow> p \<notin> insert nid (ns_ids db))
       then (Inl (DbError ForeignKeyViolation), db)
     else (Inr (), db\<lparr>db_namespaces := db_namespaces db @
       [\<lparr>nr_id = nid, nr_created_at = db_clock db, nr_deleted_at = None, nr_metadata = meta,
         nr_parent = parent\<rparr>]\<rparr>))"

definition q_GetNamespace :: "string \<Rightarrow> (db, ns_row) act" where
  "q_GetNamespace nid = select (\<lambda>db. one_row (find (\<lambda>r. nr_id r = nid) (db_namespaces db)))"

definition q_ListNamespaces :: "(db, ns_row list) act" where
  "q_ListNamespaces = select (\<lambda>db.
     Inr (sort_key (\<lambda>r. text_key db (nr_id r)) (filter (\<lambda>r. nr_deleted_at r = None) (db_namespaces db))))"

definition namespaces_page :: "db \<Rightarrow> string \<Rightarrow> int \<Rightarrow> ns_row list" where
  "namespaces_page db after limit = take (nat limit) (sort_key (\<lambda>r. text_key db (nr_id r))
     (filter (\<lambda>r. nr_deleted_at r = None \<and> text_key db (nr_id r) > text_key db after) (db_namespaces db)))"

definition q_ListNamespacesPage :: "string \<Rightarrow> int \<Rightarrow> (db, ns_row list) act" where
  "q_ListNamespacesPage after limit = select (\<lambda>db. Inr (namespaces_page db after limit))"

definition q_ClearNamespaceParent :: "string \<Rightarrow> (db, int) act" where
  "q_ClearNamespaceParent nid = statement (\<lambda>db.
     (Inr (int (length (filter (\<lambda>r. nr_id r = nid) (db_namespaces db)))),
      db\<lparr>db_namespaces := map (\<lambda>r. if nr_id r = nid then r\<lparr>nr_parent := None\<rparr> else r) (db_namespaces db)\<rparr>))"

text \<open>The recursive CTE: the new parent and its ancestors, at most 64 rows deep.\<close>

fun cte_ancestors :: "ns_row list \<Rightarrow> nat \<Rightarrow> string \<Rightarrow> string list" where
  "cte_ancestors rows 0 nid = []"
| "cte_ancestors rows (Suc depth) nid =
     (case find (\<lambda>r. nr_id r = nid) rows of
        None \<Rightarrow> []
      | Some r \<Rightarrow> nid # (case nr_parent r of None \<Rightarrow> [] | Some p \<Rightarrow> cte_ancestors rows depth p))"

definition q_SetNamespaceParent :: "string \<Rightarrow> string \<Rightarrow> (db, int) act" where
  "q_SetNamespaceParent new_parent nid = statement (\<lambda>db.
     if nid \<in> ns_ids db \<and> nid \<noteq> new_parent \<and> new_parent \<in> ns_ids db
        \<and> nid \<notin> set (cte_ancestors (db_namespaces db) 64 new_parent)
     then (Inr 1, db\<lparr>db_namespaces :=
       map (\<lambda>r. if nr_id r = nid then r\<lparr>nr_parent := Some new_parent\<rparr> else r) (db_namespaces db)\<rparr>)
     else (Inr 0, db))"

definition q_SoftDeleteNamespace :: "string \<Rightarrow> (db, unit) act" where
  "q_SoftDeleteNamespace nid = statement (\<lambda>db.
     (Inr (), db\<lparr>db_namespaces := map (\<lambda>r. if nr_id r = nid \<and> nr_deleted_at r = None
        then r\<lparr>nr_deleted_at := Some (db_clock db)\<rparr> else r) (db_namespaces db)\<rparr>))"

definition q_RecordNamespaceParentEvent :: "string \<Rightarrow> string option \<Rightarrow> string option \<Rightarrow> string \<Rightarrow> (db, unit) act" where
  "q_RecordNamespaceParentEvent nid previous new actor = statement (\<lambda>db.
     if nid \<notin> ns_ids db then (Inl (DbError ForeignKeyViolation), db)
     else (Inr (), db\<lparr>db_events := db_events db @
       [\<lparr>er_id = db_next_event db, er_ns = nid, er_previous = previous, er_new = new, er_actor = actor,
         er_at = db_clock db\<rparr>], db_next_event := db_next_event db + 1\<rparr>))"

definition q_ListNamespaceParentEvents :: "string \<Rightarrow> int \<Rightarrow> (db, event_row list) act" where
  "q_ListNamespaceParentEvents nid limit = select (\<lambda>db.
     Inr (take (nat limit) (rev (sort_key (\<lambda>e. (er_at e, er_id e))
       (filter (\<lambda>e. er_ns e = nid) (db_events db))))))"

definition q_ListNamespaceParentEventsPage :: "string \<Rightarrow> int \<Rightarrow> int \<Rightarrow> (db, event_row list) act" where
  "q_ListNamespaceParentEventsPage nid after_id limit = select (\<lambda>db.
     Inr (take (nat limit) (rev (sort_key er_id
       (filter (\<lambda>e. er_ns e = nid \<and> (after_id = 0 \<or> er_id e < after_id)) (db_events db))))))"

section \<open>SQL statements on blobs and schemas\<close>

abbreviation blob_keys :: "db \<Rightarrow> (string \<times> string) set" where
  "blob_keys db \<equiv> (\<lambda>b. (br_ns b, br_sha b)) ` set (db_blobs db)"

abbreviation schema_keys :: "db \<Rightarrow> (string \<times> string) set" where
  "schema_keys db \<equiv> (\<lambda>s. (sr_ns s, sr_id s)) ` set (db_schemas db)"

definition q_PutBlob :: "string \<Rightarrow> string \<Rightarrow> bytes \<Rightarrow> int \<Rightarrow> (db, unit) act" where
  "q_PutBlob nid sha src sz = statement (\<lambda>db.
     if (nid, sha) \<in> blob_keys db then (Inr (), db)
     else if nid \<notin> ns_ids db then (Inl (DbError ForeignKeyViolation), db)
     else (Inr (), db\<lparr>db_blobs := db_blobs db @
       [\<lparr>br_ns = nid, br_sha = sha, br_source = src, br_size = sz,
         br_created_at = db_clock db\<rparr>]\<rparr>))"

definition q_GetBlob :: "string \<Rightarrow> string \<Rightarrow> (db, blob_row) act" where
  "q_GetBlob nid sha = select (\<lambda>db. one_row (find (\<lambda>b. br_ns b = nid \<and> br_sha b = sha) (db_blobs db)))"

definition q_GetBlobsByHashes :: "string \<Rightarrow> string list \<Rightarrow> (db, blob_row list) act" where
  "q_GetBlobsByHashes nid shas = select (\<lambda>db.
     Inr (filter (\<lambda>b. br_ns b = nid \<and> br_sha b \<in> set shas) (db_blobs db)))"

definition q_CreateSchema :: "string \<Rightarrow> string \<Rightarrow> metadata \<Rightarrow> (db, unit) act" where
  "q_CreateSchema nid sid meta = statement (\<lambda>db.
     if (nid, sid) \<in> schema_keys db then (Inl (DbError UniqueViolation), db)
     else if nid \<notin> ns_ids db then (Inl (DbError ForeignKeyViolation), db)
     else (Inr (), db\<lparr>db_schemas := db_schemas db @
       [\<lparr>sr_ns = nid, sr_id = sid, sr_current = None, sr_staged = None, sr_created_at = db_clock db, sr_deleted_at = None,
         sr_metadata = meta\<rparr>]\<rparr>))"

definition find_schema :: "db \<Rightarrow> string \<Rightarrow> string \<Rightarrow> schema_row option" where
  "find_schema db nid sid = find (\<lambda>s. sr_ns s = nid \<and> sr_id s = sid) (db_schemas db)"

definition q_GetSchema :: "string \<Rightarrow> string \<Rightarrow> (db, schema_row) act" where
  "q_GetSchema nid sid = select (\<lambda>db. one_row (find_schema db nid sid))"

definition q_ListSchemas :: "string \<Rightarrow> (db, schema_row list) act" where
  "q_ListSchemas nid = select (\<lambda>db.
     Inr (sort_key (\<lambda>s. text_key db (sr_id s)) (filter (\<lambda>s. sr_ns s = nid \<and> sr_deleted_at s = None) (db_schemas db))))"

definition schemas_page :: "db \<Rightarrow> string \<Rightarrow> string \<Rightarrow> int \<Rightarrow> schema_row list" where
  "schemas_page db nid after limit = take (nat limit) (sort_key (\<lambda>s. text_key db (sr_id s))
     (filter (\<lambda>s. sr_ns s = nid \<and> sr_deleted_at s = None \<and> text_key db (sr_id s) > text_key db after) (db_schemas db)))"

definition q_ListSchemasPage :: "string \<Rightarrow> string \<Rightarrow> int \<Rightarrow> (db, schema_row list) act" where
  "q_ListSchemasPage nid after limit = select (\<lambda>db. Inr (schemas_page db nid after limit))"

definition update_schemas :: "(schema_row \<Rightarrow> bool) \<Rightarrow> (schema_row \<Rightarrow> schema_row) \<Rightarrow> db \<Rightarrow> db" where
  "update_schemas P f db = db\<lparr>db_schemas := map (\<lambda>s. if P s then f s else s) (db_schemas db)\<rparr>"

definition q_SetStagedVersion :: "string \<Rightarrow> string \<Rightarrow> int \<Rightarrow> (db, unit) act" where
  "q_SetStagedVersion nid sid v = statement (modifyA
     (update_schemas (\<lambda>s. sr_ns s = nid \<and> sr_id s = sid) (\<lambda>s. s\<lparr>sr_staged := Some v\<rparr>)))"

definition q_ClearStagedVersion :: "string \<Rightarrow> string \<Rightarrow> (db, unit) act" where
  "q_ClearStagedVersion nid sid = statement (modifyA
     (update_schemas (\<lambda>s. sr_ns s = nid \<and> sr_id s = sid) (\<lambda>s. s\<lparr>sr_staged := None\<rparr>)))"

definition q_SetCurrentVersion :: "string \<Rightarrow> string \<Rightarrow> int option \<Rightarrow> (db, unit) act" where
  "q_SetCurrentVersion nid sid v = statement (modifyA
     (update_schemas (\<lambda>s. sr_ns s = nid \<and> sr_id s = sid) (\<lambda>s. s\<lparr>sr_current := v\<rparr>)))"

definition q_SoftDeleteSchema :: "string \<Rightarrow> string \<Rightarrow> (db, unit) act" where
  "q_SoftDeleteSchema nid sid = statement (modifyA (\<lambda>db.
     update_schemas (\<lambda>s. sr_ns s = nid \<and> sr_id s = sid \<and> sr_deleted_at s = None)
       (\<lambda>s. s\<lparr>sr_deleted_at := Some (db_clock db)\<rparr>) db))"

definition q_GetStagedSchemas :: "string \<Rightarrow> (db, schema_row list) act" where
  "q_GetStagedSchemas nid = select (\<lambda>db.
     Inr (filter (\<lambda>s. sr_ns s = nid \<and> sr_staged s \<noteq> None \<and> sr_deleted_at s = None) (db_schemas db)))"

definition q_PromoteAllStaged :: "string \<Rightarrow> (db, (string \<times> int option) list) act" where
  "q_PromoteAllStaged nid = statement (\<lambda>db.
     (Inr (map (\<lambda>s. (sr_id s, sr_staged s)) (filter (\<lambda>s. sr_ns s = nid \<and> sr_staged s \<noteq> None) (db_schemas db))),
      update_schemas (\<lambda>s. sr_ns s = nid \<and> sr_staged s \<noteq> None)
        (\<lambda>s. s\<lparr>sr_current := sr_staged s, sr_staged := None\<rparr>) db))"

definition q_DiscardAllStaged :: "string \<Rightarrow> (db, unit) act" where
  "q_DiscardAllStaged nid = statement (modifyA
     (update_schemas (\<lambda>s. sr_ns s = nid \<and> sr_staged s \<noteq> None) (\<lambda>s. s\<lparr>sr_staged := None\<rparr>)))"

section \<open>SQL statements on versions\<close>

abbreviation version_keys :: "db \<Rightarrow> (string \<times> string \<times> int) set" where
  "version_keys db \<equiv> (\<lambda>v. (vr_ns v, vr_schema v, vr_version v)) ` set (db_versions db)"

definition q_InsertVersion :: "version_row \<Rightarrow> (db, unit) act" where
  "q_InsertVersion row = statement (\<lambda>db.
     if (vr_ns row, vr_schema row, vr_version row) \<in> version_keys db then (Inl (DbError UniqueViolation), db)
     else if (vr_ns row, vr_schema row) \<notin> schema_keys db then (Inl (DbError ForeignKeyViolation), db)
     else (Inr (), db\<lparr>db_versions := db_versions db @ [row\<lparr>vr_created_at := db_clock db\<rparr>]\<rparr>))"

definition q_InsertVersionFile :: "file_row \<Rightarrow> (db, unit) act" where
  "q_InsertVersionFile row = statement (\<lambda>db.
     if (vf_ns row, vf_schema row, vf_version row, vf_filename row)
          \<in> (\<lambda>f. (vf_ns f, vf_schema f, vf_version f, vf_filename f)) ` set (db_files db)
       then (Inl (DbError UniqueViolation), db)
     else if (vf_ns row, vf_schema row, vf_version row) \<notin> version_keys db
       \<or> (vf_ns row, vf_sha row) \<notin> blob_keys db then (Inl (DbError ForeignKeyViolation), db)
     else (Inr (), db\<lparr>db_files := db_files db @ [row]\<rparr>))"

definition q_InsertVersionDep :: "dep_row \<Rightarrow> (db, unit) act" where
  "q_InsertVersionDep row = statement (\<lambda>db.
     if (vd_ns row, vd_schema row, vd_version row, vd_dep_ns row, vd_dep_schema row, vd_filename row)
          \<in> (\<lambda>d. (vd_ns d, vd_schema d, vd_version d, vd_dep_ns d, vd_dep_schema d, vd_filename d)) ` set (db_deps db)
       then (Inl (DbError UniqueViolation), db)
     else if (vd_ns row, vd_schema row, vd_version row) \<notin> version_keys db
       \<or> vd_dep_ns row \<notin> ns_ids db then (Inl (DbError ForeignKeyViolation), db)
     else (Inr (), db\<lparr>db_deps := db_deps db @ [row]\<rparr>))"

definition find_version :: "db \<Rightarrow> string \<Rightarrow> string \<Rightarrow> int \<Rightarrow> version_row option" where
  "find_version db nid sid v =
     find (\<lambda>r. vr_ns r = nid \<and> vr_schema r = sid \<and> vr_version r = v) (db_versions db)"

definition q_GetVersion :: "string \<Rightarrow> string \<Rightarrow> int \<Rightarrow> (db, version_row) act" where
  "q_GetVersion nid sid v = select (\<lambda>db. one_row (find_version db nid sid v))"

definition version_files :: "db \<Rightarrow> string \<Rightarrow> string \<Rightarrow> int \<Rightarrow> file_row list" where
  "version_files db nid sid v = sort_key (\<lambda>f. text_key db (vf_filename f))
     (filter (\<lambda>f. vf_ns f = nid \<and> vf_schema f = sid \<and> vf_version f = v) (db_files db))"

definition q_GetVersionFiles :: "string \<Rightarrow> string \<Rightarrow> int \<Rightarrow> (db, file_row list) act" where
  "q_GetVersionFiles nid sid v = select (\<lambda>db. Inr (version_files db nid sid v))"

definition version_deps :: "db \<Rightarrow> string \<Rightarrow> string \<Rightarrow> int \<Rightarrow> dep_row list" where
  "version_deps db nid sid v =
     filter (\<lambda>d. vd_ns d = nid \<and> vd_schema d = sid \<and> vd_version d = v) (db_deps db)"

definition q_GetVersionDeps :: "string \<Rightarrow> string \<Rightarrow> int \<Rightarrow> (db, dep_row list) act" where
  "q_GetVersionDeps nid sid v = select (\<lambda>db. Inr (version_deps db nid sid v))"

definition live_versions :: "db \<Rightarrow> string \<Rightarrow> string \<Rightarrow> int list" where
  "live_versions db nid sid = sort (map vr_version
     (filter (\<lambda>r. vr_ns r = nid \<and> vr_schema r = sid \<and> vr_deleted_at r = None) (db_versions db)))"

definition q_ListVersions :: "string \<Rightarrow> string \<Rightarrow> (db, int list) act" where
  "q_ListVersions nid sid = select (\<lambda>db. Inr (live_versions db nid sid))"

definition q_SoftDeleteVersion :: "string \<Rightarrow> string \<Rightarrow> int \<Rightarrow> (db, unit) act" where
  "q_SoftDeleteVersion nid sid v = statement (\<lambda>db. (Inr (), db\<lparr>db_versions := map (\<lambda>r.
     if vr_ns r = nid \<and> vr_schema r = sid \<and> vr_version r = v then r\<lparr>vr_deleted_at := Some (db_clock db)\<rparr> else r) (db_versions db)\<rparr>))"

definition q_GetDependents :: "string \<Rightarrow> string \<Rightarrow> (db, (string \<times> int) list) act" where
  "q_GetDependents nid dep_sid = select (\<lambda>db. Inr (remdups (map (\<lambda>d. (vd_schema d, vd_version d))
     (filter (\<lambda>d. vd_ns d = nid \<and> vd_dep_ns d = nid \<and> vd_dep_schema d = dep_sid) (db_deps db)))))"

definition q_GetCrossNamespaceDependents ::
  "string \<Rightarrow> string \<Rightarrow> string \<Rightarrow> int \<Rightarrow> (db, (string \<times> string \<times> int) list) act" where
  "q_GetCrossNamespaceDependents dep_nid dep_sid filename v = select (\<lambda>db.
     Inr (remdups (map (\<lambda>d. (vd_ns d, vd_schema d, vd_version d))
       (filter (\<lambda>d. vd_dep_ns d = dep_nid \<and> vd_dep_schema d = dep_sid \<and> vd_filename d = filename
          \<and> vd_dep_version d = v) (db_deps db)))))"

section \<open>Recovery queries\<close>

record load_row =
  lr_ns :: string
  lr_schema :: string
  lr_version :: int
  lr_compiled :: bytes
  lr_compiler :: string
  lr_filename :: string
  lr_sha :: string

text \<open>The join of a schema row with its version \<open>v\<close> and that version's files.\<close>

definition join_version :: "db \<Rightarrow> schema_row \<Rightarrow> int \<Rightarrow> load_row list" where
  "join_version db s v =
     concat (map (\<lambda>sv. map (\<lambda>svf. \<lparr>lr_ns = vr_ns sv, lr_schema = vr_schema sv, lr_version = vr_version sv,
         lr_compiled = vr_compiled sv, lr_compiler = vr_compiler sv, lr_filename = vf_filename svf,
         lr_sha = vf_sha svf\<rparr>)
       (filter (\<lambda>svf. vf_ns svf = vr_ns sv \<and> vf_schema svf = vr_schema sv \<and> vf_version svf = vr_version sv) (db_files db)))
     (filter (\<lambda>sv. vr_ns sv = sr_ns s \<and> vr_schema sv = sr_id s \<and> vr_version sv = v) (db_versions db)))"

definition load_key :: "db \<Rightarrow> load_row \<Rightarrow> (string \<times> string) \<times> (string \<times> string) \<times> (string \<times> string)" where
  "load_key db r = (text_key db (lr_ns r), text_key db (lr_schema r), text_key db (lr_filename r))"

definition load_rows :: "db \<Rightarrow> (schema_row \<Rightarrow> bool) \<Rightarrow> (schema_row \<Rightarrow> int option) \<Rightarrow> load_row list" where
  "load_rows db P sel = sort_key (load_key db) (concat (map (\<lambda>s.
     (case sel s of None \<Rightarrow> [] | Some v \<Rightarrow> join_version db s v)) (filter (\<lambda>s. P s \<and> sr_deleted_at s = None) (db_schemas db))))"

definition q_LoadAllCurrent :: "(db, load_row list) act" where
  "q_LoadAllCurrent = select (\<lambda>db. Inr (load_rows db (\<lambda>_. True) sr_current))"

definition q_LoadNamespaceCurrent :: "string \<Rightarrow> (db, load_row list) act" where
  "q_LoadNamespaceCurrent nid = select (\<lambda>db. Inr (load_rows db (\<lambda>s. sr_ns s = nid) sr_current))"

definition proposed_version :: "schema_row \<Rightarrow> int option" where
  "proposed_version s = (case sr_staged s of Some v \<Rightarrow> Some v | None \<Rightarrow> sr_current s)"

definition q_LoadNamespaceProposed :: "string \<Rightarrow> (db, load_row list) act" where
  "q_LoadNamespaceProposed nid = select (\<lambda>db. Inr (load_rows db (\<lambda>s. sr_ns s = nid) proposed_version))"

section \<open>Conversions\<close>

definition versionToDB :: "u64 \<Rightarrow> int" where
  "versionToDB v = (if uint v > max_int64 then max_int64 else uint v)"

definition versionFromDB :: "int \<Rightarrow> u64" where
  "versionFromDB v = (if v < 0 then 0 else word_of_int v)"

definition intToInt32Clamp :: "int \<Rightarrow> int" where
  "intToInt32Clamp n = (if n > 2147483647 then 2147483647 else if n < 0 then 0 else n)"

definition pgint8ToPtr :: "int option \<Rightarrow> u64 option" where
  "pgint8ToPtr v = (case v of None \<Rightarrow> None | Some i \<Rightarrow> Some (versionFromDB i))"

definition marshalJSONOrEmpty :: "metadata option \<Rightarrow> metadata" where
  "marshalJSONOrEmpty m = (case m of None \<Rightarrow> [] | Some m \<Rightarrow> m)"

definition unmarshalJSONMap :: "metadata \<Rightarrow> metadata option" where
  "unmarshalJSONMap m = Some m"

section \<open>The types of the store interface\<close>

record store_namespace =
  sn_ID :: string
  sn_CreatedAt :: int
  sn_DeletedAt :: "int option"
  sn_Metadata :: "metadata option"
  sn_ParentNamespaceID :: "string option"

record parent_event =
  ev_ID :: int
  ev_NamespaceID :: string
  ev_PreviousParentID :: "string option"
  ev_NewParentID :: "string option"
  ev_ActorID :: string
  ev_OccurredAt :: int

record store_blob =
  sb_NamespaceID :: string
  sb_SHA256 :: string
  sb_OriginalSource :: bytes
  sb_SizeBytes :: int
  sb_CreatedAt :: int

record store_schema =
  ss_NamespaceID :: string
  ss_SchemaID :: string
  ss_CurrentVersion :: "u64 option"
  ss_StagedVersion :: "u64 option"
  ss_CreatedAt :: int
  ss_DeletedAt :: "int option"
  ss_Metadata :: "metadata option"

record schema_version =
  sv_NamespaceID :: string
  sv_SchemaID :: string
  sv_Version :: u64
  sv_Compiled :: bytes
  sv_CompilerVersion :: string
  sv_CreatedBy :: string
  sv_CreatedAt :: int
  sv_DeletedAt :: "int option"
  sv_Metadata :: "metadata option"

record version_file =
  vfi_NamespaceID :: string
  vfi_SchemaID :: string
  vfi_Version :: u64
  vfi_Filename :: string
  vfi_BlobSHA256 :: string

record version_dep =
  vde_NamespaceID :: string
  vde_SchemaID :: string
  vde_Version :: u64
  vde_DepNamespaceID :: string
  vde_DepSchemaID :: string
  vde_DepFilename :: string
  vde_DepVersion :: u64

record promoted_schema =
  ps_SchemaID :: string
  ps_PriorVersion :: "u64 option"
  ps_CurrentVersion :: u64

record current_schema =
  cs_NamespaceID :: string
  cs_SchemaID :: string
  cs_Version :: u64
  cs_Compiled :: bytes
  cs_CompilerVersion :: string
  cs_Files :: "version_file list"

section \<open>The store's methods\<close>

subsection \<open>Namespaces\<close>

definition ns_model :: "ns_row \<Rightarrow> store_namespace" where
  "ns_model row = \<lparr>sn_ID = nr_id row, sn_CreatedAt = nr_created_at row, sn_DeletedAt = nr_deleted_at row,
     sn_Metadata = unmarshalJSONMap (nr_metadata row), sn_ParentNamespaceID = nr_parent row\<rparr>"

definition st_CreateNamespace :: "store_namespace \<Rightarrow> (db, unit) act" where
  "st_CreateNamespace ns =
     q_CreateNamespace (sn_ID ns) (marshalJSONOrEmpty (sn_Metadata ns)) (sn_ParentNamespaceID ns)"

definition st_GetNamespace :: "string \<Rightarrow> (db, store_namespace) act" where
  "st_GetNamespace nid = bindA (wrapA (''getting namespace '' @ nid @ '': '') (q_GetNamespace nid)) (\<lambda>row.
     retA (ns_model row))"

definition st_ListNamespaces :: "(db, store_namespace list) act" where
  "st_ListNamespaces = bindA (wrapA ''listing namespaces: '' q_ListNamespaces) (\<lambda>rows. retA (map ns_model rows))"

definition st_ListNamespacesPage :: "string \<Rightarrow> int \<Rightarrow> (db, store_namespace list) act" where
  "st_ListNamespacesPage after limit =
     bindA (wrapA ''listing namespaces page: '' (q_ListNamespacesPage after (intToInt32Clamp limit))) (\<lambda>rows.
     retA (map ns_model rows))"

definition set_parent_body :: "string \<Rightarrow> string option \<Rightarrow> string \<Rightarrow> (db, unit) act" where
  "set_parent_body nid parent actor =
     bindA (catchA (q_GetNamespace nid) (\<lambda>_. failA ErrNamespaceNotFound)) (\<lambda>existing.
     thenA (case parent of
        None \<Rightarrow> thenA (wrapA (''clearing parent for '' @ nid @ '': '') (q_ClearNamespaceParent nid)) (retA ())
      | Some p \<Rightarrow>
          thenA (catchA (q_GetNamespace p) (\<lambda>_. failA ErrNamespaceNotFound))
          (bindA (wrapA (''setting parent for '' @ nid @ '': '') (q_SetNamespaceParent p nid)) (\<lambda>rows.
           if rows = 0 then failA ErrParentCycle else retA ())))
     (wrapA ''recording parent-change audit event: ''
        (q_RecordNamespaceParentEvent nid (nr_parent existing) parent actor)))"

definition st_SetNamespaceParent :: "string \<Rightarrow> string option \<Rightarrow> string \<Rightarrow> (db, unit) act" where
  "st_SetNamespaceParent nid parent actor =
     transaction ''begin tx: '' (Some ''commit: '') (set_parent_body nid parent actor)"

definition st_RecordNamespaceParentEvent :: "parent_event \<Rightarrow> (db, unit) act" where
  "st_RecordNamespaceParentEvent ev =
     q_RecordNamespaceParentEvent (ev_NamespaceID ev) (ev_PreviousParentID ev) (ev_NewParentID ev) (ev_ActorID ev)"

definition event_model :: "event_row \<Rightarrow> parent_event" where
  "event_model row = \<lparr>ev_ID = er_id row, ev_NamespaceID = er_ns row, ev_PreviousParentID = er_previous row,
     ev_NewParentID = er_new row, ev_ActorID = er_actor row, ev_OccurredAt = er_at row\<rparr>"

definition st_ListNamespaceParentEvents :: "string \<Rightarrow> int \<Rightarrow> (db, parent_event list) act" where
  "st_ListNamespaceParentEvents nid limit =
     bindA (wrapA (''listing parent events for '' @ nid @ '': '')
       (q_ListNamespaceParentEvents nid (intToInt32Clamp limit))) (\<lambda>rows. retA (map event_model rows))"

subsection \<open>Blobs and schemas\<close>

definition st_PutBlob :: "store_blob \<Rightarrow> (db, unit) act" where
  "st_PutBlob b = q_PutBlob (sb_NamespaceID b) (sb_SHA256 b) (sb_OriginalSource b) (intToInt32Clamp (sb_SizeBytes b))"

definition st_GetBlob :: "string \<Rightarrow> string \<Rightarrow> (db, store_blob) act" where
  "st_GetBlob nid sha =
     bindA (wrapA (''getting blob '' @ nid @ ''/'' @ sha @ '': '') (q_GetBlob nid sha)) (\<lambda>row.
     retA \<lparr>sb_NamespaceID = br_ns row, sb_SHA256 = br_sha row, sb_OriginalSource = br_source row,
           sb_SizeBytes = br_size row, sb_CreatedAt = br_created_at row\<rparr>)"

definition schemaModelToStore :: "schema_row \<Rightarrow> store_schema" where
  "schemaModelToStore row = \<lparr>ss_NamespaceID = sr_ns row, ss_SchemaID = sr_id row,
     ss_CurrentVersion = pgint8ToPtr (sr_current row), ss_StagedVersion = pgint8ToPtr (sr_staged row),
     ss_CreatedAt = sr_created_at row, ss_DeletedAt = sr_deleted_at row, ss_Metadata = unmarshalJSONMap (sr_metadata row)\<rparr>"

definition st_CreateSchema :: "string \<Rightarrow> string \<Rightarrow> metadata option \<Rightarrow> (db, unit) act" where
  "st_CreateSchema nid sid meta = q_CreateSchema nid sid (marshalJSONOrEmpty meta)"

definition st_GetSchema :: "string \<Rightarrow> string \<Rightarrow> (db, store_schema) act" where
  "st_GetSchema nid sid =
     bindA (wrapA (''getting schema '' @ nid @ ''/'' @ sid @ '': '') (q_GetSchema nid sid)) (\<lambda>row.
     retA (schemaModelToStore row))"

definition st_ListSchemas :: "string \<Rightarrow> (db, store_schema list) act" where
  "st_ListSchemas nid =
     bindA (wrapA (''listing schemas for '' @ nid @ '': '') (q_ListSchemas nid)) (\<lambda>rows.
     retA (map schemaModelToStore rows))"

definition st_ListSchemasPage :: "string \<Rightarrow> string \<Rightarrow> int \<Rightarrow> (db, store_schema list) act" where
  "st_ListSchemasPage nid after limit =
     bindA (wrapA (''listing schemas page for '' @ nid @ '': '')
       (q_ListSchemasPage nid after (intToInt32Clamp limit))) (\<lambda>rows. retA (map schemaModelToStore rows))"

subsection \<open>Versions\<close>

definition file_to_row :: "version_file \<Rightarrow> file_row" where
  "file_to_row f = \<lparr>vf_ns = vfi_NamespaceID f, vf_schema = vfi_SchemaID f, vf_version = versionToDB (vfi_Version f),
     vf_filename = vfi_Filename f, vf_sha = vfi_BlobSHA256 f\<rparr>"

definition dep_to_row :: "version_dep \<Rightarrow> dep_row" where
  "dep_to_row d = \<lparr>vd_ns = vde_NamespaceID d, vd_schema = vde_SchemaID d, vd_version = versionToDB (vde_Version d),
     vd_dep_ns = vde_DepNamespaceID d, vd_dep_schema = vde_DepSchemaID d, vd_filename = vde_DepFilename d,
     vd_dep_version = versionToDB (vde_DepVersion d)\<rparr>"

text \<open>The insert names no creation time: the column's default, filled in by \<^const>\<open>q_InsertVersion\<close>, replaces the 0.\<close>

definition version_to_row :: "schema_version \<Rightarrow> version_row" where
  "version_to_row ver = \<lparr>vr_ns = sv_NamespaceID ver, vr_schema = sv_SchemaID ver,
     vr_version = versionToDB (sv_Version ver), vr_compiled = sv_Compiled ver, vr_compiler = sv_CompilerVersion ver,
     vr_created_by = sv_CreatedBy ver, vr_created_at = 0, vr_deleted_at = None,
     vr_metadata = marshalJSONOrEmpty (sv_Metadata ver)\<rparr>"

definition put_version_body :: "schema_version \<Rightarrow> version_file list \<Rightarrow> version_dep list \<Rightarrow> (db, unit) act" where
  "put_version_body ver files deps =
     thenA (wrapA ''inserting version: '' (q_InsertVersion (version_to_row ver)))
     (thenA (forA (\<lambda>f. wrapA (''inserting version file '' @ vfi_Filename f @ '': '') (q_InsertVersionFile (file_to_row f))) files)
     (thenA (forA (\<lambda>d. wrapA ''inserting version dep: '' (q_InsertVersionDep (dep_to_row d))) deps) (retA ())))"

definition st_PutVersion :: "schema_version \<Rightarrow> version_file list \<Rightarrow> version_dep list \<Rightarrow> (db, unit) act" where
  "st_PutVersion ver files deps =
     transaction ''beginning transaction: '' None (put_version_body ver files deps)"

definition st_GetVersion :: "string \<Rightarrow> string \<Rightarrow> u64 \<Rightarrow> (db, schema_version) act" where
  "st_GetVersion nid sid v =
     bindA (wrapA (''getting version '' @ nid @ ''/'' @ sid @ ''@'' @ fmt_u64 v @ '': '')
       (q_GetVersion nid sid (versionToDB v))) (\<lambda>row.
     retA \<lparr>sv_NamespaceID = vr_ns row, sv_SchemaID = vr_schema row, sv_Version = versionFromDB (vr_version row),
           sv_Compiled = vr_compiled row, sv_CompilerVersion = vr_compiler row, sv_CreatedBy = vr_created_by row,
           sv_CreatedAt = vr_created_at row, sv_DeletedAt = vr_deleted_at row, sv_Metadata = unmarshalJSONMap (vr_metadata row)\<rparr>)"

definition file_of_row :: "file_row \<Rightarrow> version_file" where
  "file_of_row row = \<lparr>vfi_NamespaceID = vf_ns row, vfi_SchemaID = vf_schema row,
     vfi_Version = versionFromDB (vf_version row), vfi_Filename = vf_filename row, vfi_BlobSHA256 = vf_sha row\<rparr>"

definition st_GetVersionFiles :: "string \<Rightarrow> string \<Rightarrow> u64 \<Rightarrow> (db, version_file list) act" where
  "st_GetVersionFiles nid sid v =
     bindA (wrapA ''getting version files: '' (q_GetVersionFiles nid sid (versionToDB v))) (\<lambda>rows.
     retA (map file_of_row rows))"

definition dep_of_row :: "dep_row \<Rightarrow> version_dep" where
  "dep_of_row row = \<lparr>vde_NamespaceID = vd_ns row, vde_SchemaID = vd_schema row,
     vde_Version = versionFromDB (vd_version row), vde_DepNamespaceID = vd_dep_ns row,
     vde_DepSchemaID = vd_dep_schema row, vde_DepFilename = vd_filename row,
     vde_DepVersion = versionFromDB (vd_dep_version row)\<rparr>"

definition st_GetVersionDeps :: "string \<Rightarrow> string \<Rightarrow> u64 \<Rightarrow> (db, version_dep list) act" where
  "st_GetVersionDeps nid sid v =
     bindA (wrapA ''getting version deps: '' (q_GetVersionDeps nid sid (versionToDB v))) (\<lambda>rows.
     retA (map dep_of_row rows))"

definition st_ListVersions :: "string \<Rightarrow> string \<Rightarrow> (db, u64 list) act" where
  "st_ListVersions nid sid =
     bindA (wrapA ''listing versions: '' (q_ListVersions nid sid)) (\<lambda>rows. retA (map versionFromDB rows))"

subsection \<open>Staging, promotion and recovery\<close>

definition st_SetStaged :: "string \<Rightarrow> string \<Rightarrow> u64 \<Rightarrow> (db, unit) act" where
  "st_SetStaged nid sid version =
     (if version = 0 then q_ClearStagedVersion nid sid
      else q_SetStagedVersion nid sid (versionToDB version))"

definition st_Promote :: "string \<Rightarrow> (db, promoted_schema list) act" where
  "st_Promote nid =
     bindA (transaction ''beginning transaction: '' (Some ''committing promotion: '')
       (thenA (wrapA ''locking staged schemas: '' (q_GetStagedSchemas nid))
       (wrapA ''promoting staged: '' (q_PromoteAllStaged nid)))) (\<lambda>rows.
     retA (map (\<lambda>(sid, cur). \<lparr>ps_SchemaID = sid, ps_PriorVersion = None,
        ps_CurrentVersion = versionFromDB (case cur of None \<Rightarrow> 0 | Some v \<Rightarrow> v)\<rparr>) rows))"

definition st_DiscardStaging :: "string \<Rightarrow> (db, unit) act" where
  "st_DiscardStaging nid = q_DiscardAllStaged nid"

definition row_file :: "load_row \<Rightarrow> version_file" where
  "row_file row = \<lparr>vfi_NamespaceID = lr_ns row, vfi_SchemaID = lr_schema row,
     vfi_Version = versionFromDB (lr_version row), vfi_Filename = lr_filename row, vfi_BlobSHA256 = lr_sha row\<rparr>"

definition row_schema :: "load_row \<Rightarrow> current_schema" where
  "row_schema row = \<lparr>cs_NamespaceID = lr_ns row, cs_SchemaID = lr_schema row,
     cs_Version = versionFromDB (lr_version row), cs_Compiled = lr_compiled row,
     cs_CompilerVersion = lr_compiler row, cs_Files = []\<rparr>"

definition same_schema :: "load_row \<Rightarrow> current_schema \<Rightarrow> bool" where
  "same_schema row cs \<longleftrightarrow> cs_NamespaceID cs = lr_ns row \<and> cs_SchemaID cs = lr_schema row"

definition group_row :: "load_row \<Rightarrow> current_schema list \<Rightarrow> current_schema list" where
  "group_row row result =
     map (\<lambda>cs. if same_schema row cs then cs\<lparr>cs_Files := cs_Files cs @ [row_file row]\<rparr> else cs)
       (if list_ex (same_schema row) result then result else result @ [row_schema row])"

definition groupRows :: "load_row list \<Rightarrow> current_schema list" where
  "groupRows rows = fold group_row rows []"

definition st_LoadAllCurrent :: "(db, current_schema list) act" where
  "st_LoadAllCurrent = bindA (wrapA ''loading all current: '' q_LoadAllCurrent) (\<lambda>rows. retA (groupRows rows))"

definition st_LoadNamespaceCurrent :: "string \<Rightarrow> (db, current_schema list) act" where
  "st_LoadNamespaceCurrent nid =
     bindA (wrapA ''loading namespace current: '' (q_LoadNamespaceCurrent nid)) (\<lambda>rows. retA (groupRows rows))"

definition st_LoadNamespaceProposed :: "string \<Rightarrow> (db, current_schema list) act" where
  "st_LoadNamespaceProposed nid =
     bindA (wrapA ''loading namespace proposed: '' (q_LoadNamespaceProposed nid)) (\<lambda>rows. retA (groupRows rows))"

end
