(* ===== verification/Store_Facts.thy ===== *)
theory Store_Facts
  imports Store
begin

text \<open>
  What holds of the persistence layer: the key constraints are an invariant of every operation,
  stored history is never changed or removed, reads and failed transactions leave the tables as
  they were, versions survive the trip through \<^verbatim>\<open>BIGINT\<close>, and the schema rows of a namespace are
  a staging area.
\<close>

section \<open>Orders that faults do not affect\<close>

locale db_order = state_order ok for ok :: "db \<Rightarrow> db \<Rightarrow> bool" +
  assumes ok_faults: "ok s (s\<lparr>db_faults := fs\<rparr>)"
begin

lemma holds_statement:
  assumes "\<And>s r t. q s = (r, t) \<Longrightarrow> ok s t"
  shows "holds (statement q)"
proof (rule holdsI)
  fix s r t assume st: "statement q s = (r, t)"
  show "ok s t"
  proof (cases "db_faults s")
    case Nil
    with st assms show ?thesis by (simp add: statement_def)
  next
    case (Cons f fs)
    show ?thesis
    proof (cases f)
      case True
      with st Cons show ?thesis by (auto simp: statement_def ok_faults)
    next
      case False
      with st Cons have "q (s\<lparr>db_faults := fs\<rparr>) = (r, t)" by (simp add: statement_def)
      with assms ok_faults ok_trans show ?thesis by blast
    qed
  qed
qed

lemma holds_select: "holds (select f)"
  unfolding select_def by (rule holds_statement) (auto simp: ok_refl)

lemma holds_statement_modify: "(\<And>s. ok s (f s)) \<Longrightarrow> holds (statement (modifyA f))"
  by (rule holds_statement) (auto simp: modifyA_def)

lemma holds_transaction:
  assumes "holds body"
  shows "holds (transaction p c body)"
proof (rule holdsI)
  fix s r t assume tr: "transaction p c body s = (r, t)"
  have skip: "holds (statement (retA ()))" by (rule holds_statement) (auto simp: retA_def ok_refl)
  let ?rest = "bindA body (\<lambda>a. bindA (case c of Some p \<Rightarrow> wrapA p (statement (retA ())) | None \<Rightarrow> statement (retA ())) (\<lambda>_. retA a))"
  have rest: "holds ?rest"
    by (intro holds_bind assms) (auto split: option.splits intro: holds_wrap holds_simple skip)
  obtain x s1 where one: "wrapA p (statement (retA ())) s = (x, s1)" by fastforce
  then have s1: "ok s s1" by (rule holdsD [OF holds_wrap [OF skip]])
  obtain y s2 where two: "?rest s1 = (y, s2)" by fastforce
  then have s2: "ok s1 s2" by (rule holdsD [OF rest])
  from tr one two have "t = s1 \<or> t = s2 \<or> t = rolled_back s1 s2"
    by (auto simp: transaction_def split: sum.splits)
  then show "ok s t" using s1 s2 ok_trans ok_faults unfolding rolled_back_def by blast
qed

lemmas store_rules = holds_rules holds_select holds_statement_modify holds_transaction

end

section \<open>Reads and failures leave the tables\<close>

definition same_tables :: "db \<Rightarrow> db \<Rightarrow> bool" where
  "same_tables s t \<longleftrightarrow> t = s\<lparr>db_faults := db_faults t\<rparr>"

lemma same_tables_sel:
  assumes "same_tables s t"
  shows "db_namespaces t = db_namespaces s" "db_events t = db_events s" "db_blobs t = db_blobs s"
    "db_schemas t = db_schemas s" "db_versions t = db_versions s" "db_files t = db_files s"
    "db_deps t = db_deps s" "db_collation t = db_collation s" "db_next_event t = db_next_event s"
    "db_clock t = db_clock s"
  using assms by (cases s; cases t; simp add: same_tables_def)+

lemma same_tables_refl: "same_tables s s"
  by (simp add: same_tables_def)

lemma same_tables_trans: "same_tables s t \<Longrightarrow> same_tables t u \<Longrightarrow> same_tables s u"
  by (cases s; cases t; cases u) (simp add: same_tables_def)

interpretation reads: db_order same_tables
  by unfold_locales (auto simp: same_tables_def intro: same_tables_trans [unfolded same_tables_def])

lemma reads_ops:
  "reads.holds (st_GetNamespace nid)" "reads.holds st_ListNamespaces" "reads.holds (st_ListNamespacesPage a l)"
  "reads.holds (st_ListNamespaceParentEvents nid l)" "reads.holds (st_GetBlob nid sha)"
  "reads.holds (st_GetSchema nid sid)" "reads.holds (st_ListSchemas nid)" "reads.holds (st_ListSchemasPage nid a l)"
  "reads.holds (st_GetVersion nid sid v)" "reads.holds (st_GetVersionFiles nid sid v)"
  "reads.holds (st_GetVersionDeps nid sid v)" "reads.holds (st_ListVersions nid sid)"
  "reads.holds st_LoadAllCurrent" "reads.holds (st_LoadNamespaceCurrent nid)" "reads.holds (st_LoadNamespaceProposed nid)"
  unfolding st_GetNamespace_def st_ListNamespaces_def st_ListNamespacesPage_def
    st_ListNamespaceParentEvents_def st_GetBlob_def st_GetSchema_def st_ListSchemas_def st_ListSchemasPage_def
    st_GetVersion_def st_GetVersionFiles_def st_GetVersionDeps_def st_ListVersions_def st_LoadAllCurrent_def
    st_LoadNamespaceCurrent_def st_LoadNamespaceProposed_def q_GetNamespace_def q_ListNamespaces_def
    q_ListNamespacesPage_def q_ListNamespaceParentEvents_def q_GetBlob_def q_GetSchema_def q_ListSchemas_def
    q_ListSchemasPage_def q_GetVersion_def q_GetVersionFiles_def q_GetVersionDeps_def q_ListVersions_def
    q_LoadAllCurrent_def q_LoadNamespaceCurrent_def q_LoadNamespaceProposed_def
  by (intro reads.store_rules)+

text \<open>A successful statement ran on the tables as they were.\<close>

lemma statement_Inr:
  assumes "statement q s = (Inr a, t)"
  obtains s' where "same_tables s s'" "q s' = (Inr a, t)"
proof (cases "db_faults s")
  case Nil
  with assms that [OF same_tables_refl] show ?thesis by (simp add: statement_def)
next
  case (Cons f fs)
  with assms have "q (s\<lparr>db_faults := fs\<rparr>) = (Inr a, t)" by (auto simp: statement_def Let_def split: if_splits)
  with that [of "s\<lparr>db_faults := fs\<rparr>"] show ?thesis by (simp add: same_tables_def)
qed

lemma select_Inr:
  assumes "select f s = (Inr a, t)"
  shows "same_tables s t" and "\<exists>s'. same_tables s s' \<and> f s' = Inr a"
  using assms unfolding select_def by (auto elim!: statement_Inr)

text \<open>A transaction that fails leaves the tables; one that succeeds ran its body.\<close>

lemma transaction_Inl:
  assumes "transaction p c body s = (Inl e, t)"
  shows "same_tables s t"
proof -
  obtain x s1 where one: "wrapA p (statement (retA ())) s = (x, s1)" by fastforce
  have skip: "reads.holds (statement (retA ()))" by (rule reads.holds_statement) (auto simp: retA_def same_tables_refl)
  from one have s1: "same_tables s s1" by (rule reads.holdsD [OF reads.holds_wrap [OF skip]])
  from assms one have "t = s1 \<or> (\<exists>s2. t = rolled_back s1 s2)"
    by (auto simp: transaction_def split: sum.splits prod.splits)
  with s1 show ?thesis by (auto simp: rolled_back_def intro: same_tables_trans reads.ok_faults)
qed

lemma transaction_Inr:
  assumes "transaction p c body s = (Inr a, t)"
  obtains s1 s2 where "same_tables s s1" "body s1 = (Inr a, s2)" "same_tables s2 t"
proof -
  obtain s1 where one: "statement (retA ()) s = (Inr (), s1)"
    using assms by (auto simp: transaction_def wrapA_def wrapE_def split: prod.splits sum.splits)
  then obtain s2 where two: "body s1 = (Inr a, s2)" and three: "statement (retA ()) s2 = (Inr (), t)"
    using assms by (cases c) (auto simp: transaction_def wrapA_def wrapE_def bindA_def retA_def split: prod.splits sum.splits)
  from one three have "same_tables s s1" "same_tables s2 t" by (auto elim!: statement_Inr simp: retA_def)
  with two that show ?thesis by blast
qed

text \<open>Without faults a statement is its effect and a transaction is its body, undone on an error.\<close>

lemma statement_nofault [simp]: "db_faults s = [] \<Longrightarrow> statement q s = q s"
  by (simp add: statement_def)

lemma transaction_nofault:
  assumes "db_faults s = []" and "db_faults (snd (body s)) = []"
  shows "transaction p c body s =
    (case body s of (Inl e, t) \<Rightarrow> (Inl e, rolled_back s t) | (Inr a, t) \<Rightarrow> (Inr a, t))"
  using assms by (cases c) (auto simp: transaction_def wrapA_def bindA_def retA_def split: prod.splits sum.splits)

lemma select_nofault [simp]: "db_faults s = [] \<Longrightarrow> select f s = (f s, s)"
  by (simp add: select_def)

text \<open>What each successful read returned, as a function of the tables.\<close>

lemma select_same:
  assumes "select f s = (Inr a, t)" and "\<And>u. same_tables s u \<Longrightarrow> f u = f s"
  shows "same_tables s t \<and> f s = Inr a"
  using select_Inr [OF assms(1)] assms(2) by metis

lemma one_row_Inr [simp]: "one_row r = Inr a \<longleftrightarrow> r = Some a"
  by (auto simp: one_row_def split: option.splits)

lemma text_key_same: "same_tables s t \<Longrightarrow> text_key t = text_key s"
  by (simp add: text_key_def same_tables_sel fun_eq_iff)

lemma load_key_same: "same_tables s t \<Longrightarrow> load_key t = load_key s"
  by (simp add: load_key_def text_key_same fun_eq_iff)

lemma join_version_same: "same_tables s t \<Longrightarrow> join_version t = join_version s"
  by (simp add: join_version_def fun_eq_iff same_tables_sel)

lemma load_rows_same: "same_tables s t \<Longrightarrow> load_rows t P sel = load_rows s P sel"
  by (simp add: load_rows_def load_key_same join_version_same same_tables_sel cong: option.case_cong)

lemma q_reads:
  "q_GetNamespace nid s = (Inr nrow, t) \<Longrightarrow> same_tables s t \<and> find (\<lambda>r. nr_id r = nid) (db_namespaces s) = Some nrow"
  "q_GetBlob nid sha s = (Inr brow, t) \<Longrightarrow> same_tables s t \<and> find (\<lambda>b. br_ns b = nid \<and> br_sha b = sha) (db_blobs s) = Some brow"
  "q_GetSchema nid sid s = (Inr srow, t) \<Longrightarrow> same_tables s t \<and> find_schema s nid sid = Some srow"
  "q_GetVersion nid sid v s = (Inr vrow, t) \<Longrightarrow> same_tables s t \<and> find_version s nid sid v = Some vrow"
  "q_GetVersionFiles nid sid v s = (Inr frows, t) \<Longrightarrow> same_tables s t \<and> frows = version_files s nid sid v"
  "q_GetVersionDeps nid sid v s = (Inr drows, t) \<Longrightarrow> same_tables s t \<and> drows = version_deps s nid sid v"
  "q_ListVersions nid sid s = (Inr vs, t) \<Longrightarrow> same_tables s t \<and> vs = live_versions s nid sid"
  "q_ListSchemasPage nid after l s = (Inr srows, t) \<Longrightarrow> same_tables s t \<and> srows = schemas_page s nid after l"
  "q_ListNamespacesPage after l s = (Inr nrows, t) \<Longrightarrow> same_tables s t \<and> nrows = namespaces_page s after l"
  "q_LoadAllCurrent s = (Inr lrows, t) \<Longrightarrow> same_tables s t \<and> lrows = load_rows s (\<lambda>_. True) sr_current"
  "q_LoadNamespaceCurrent nid s = (Inr lrows, t) \<Longrightarrow> same_tables s t \<and> lrows = load_rows s (\<lambda>r. sr_ns r = nid) sr_current"
  "q_LoadNamespaceProposed nid s = (Inr lrows, t) \<Longrightarrow> same_tables s t \<and> lrows = load_rows s (\<lambda>r. sr_ns r = nid) proposed_version"
  unfolding q_GetNamespace_def q_GetBlob_def q_GetSchema_def q_GetVersion_def q_GetVersionFiles_def q_GetVersionDeps_def
    q_ListVersions_def q_ListSchemasPage_def q_ListNamespacesPage_def q_LoadAllCurrent_def q_LoadNamespaceCurrent_def
    q_LoadNamespaceProposed_def
  by (drule select_same; auto simp: same_tables_sel text_key_same load_rows_same find_schema_def find_version_def
      version_files_def version_deps_def live_versions_def schemas_page_def namespaces_page_def)+

lemma catch_fail_Inr [simp]: "catchA m (\<lambda>_. failA e) s = (Inr a, t) \<longleftrightarrow> m s = (Inr a, t)"
  by (auto simp: catchA_def failA_def split: prod.splits sum.splits)

section \<open>Versions as BIGINT\<close>

lemma versionToDB_range: "0 \<le> versionToDB v" "versionToDB v \<le> max_int64"
  by (simp_all add: versionToDB_def)

lemma versionFromDB_ToDB: "uint v \<le> max_int64 \<Longrightarrow> versionFromDB (versionToDB v) = v"
  by (simp add: versionToDB_def versionFromDB_def)

lemma uint_versionFromDB: "0 \<le> i \<Longrightarrow> i \<le> max_int64 \<Longrightarrow> uint (versionFromDB i) = i"
  by (simp add: versionFromDB_def uint_word_of_int)

lemma versionToDB_FromDB: "0 \<le> i \<Longrightarrow> i \<le> max_int64 \<Longrightarrow> versionToDB (versionFromDB i) = i"
  by (simp add: versionToDB_def uint_versionFromDB)

lemma versionFromDB_eq_0_iff: "0 \<le> i \<Longrightarrow> i \<le> max_int64 \<Longrightarrow> versionFromDB i = 0 \<longleftrightarrow> i = 0"
  by (metis uint_0_iff uint_versionFromDB)

section \<open>The staging area in the database\<close>

lemma find_map_key:
  assumes "\<And>x. P (g x) = P x"
  shows "find P (map g xs) = map_option g (find P xs)"
  by (induction xs) (auto simp: assms)

lemma find_schema_update:
  assumes "\<And>s. sr_ns (f s) = sr_ns s" and "\<And>s. sr_id (f s) = sr_id s"
  shows "find_schema (update_schemas Q f db) nid sid =
    map_option (\<lambda>s. if Q s then f s else s) (find_schema db nid sid)"
  unfolding find_schema_def update_schemas_def using assms by (simp add: find_map_key)

lemma find_schema_keys: "find_schema db nid sid = Some r \<Longrightarrow> sr_ns r = nid \<and> sr_id r = sid \<and> r \<in> set (db_schemas db)"
  unfolding find_schema_def by (auto dest: find_Some_mem)

lemma find_schema_None_iff: "find_schema db nid sid = None \<longleftrightarrow> (nid, sid) \<notin> schema_keys db"
  unfolding find_schema_def by (auto simp: find_None_iff)

definition db_current :: "string \<Rightarrow> db \<Rightarrow> string \<Rightarrow> int option" where
  "db_current nid db sid = (case find_schema db nid sid of None \<Rightarrow> None | Some r \<Rightarrow> sr_current r)"

definition db_staged :: "string \<Rightarrow> db \<Rightarrow> string \<Rightarrow> int option" where
  "db_staged nid db sid = (case find_schema db nid sid of None \<Rightarrow> None | Some r \<Rightarrow> sr_staged r)"

abbreviation stage_rows :: "string \<Rightarrow> string \<Rightarrow> int \<Rightarrow> db \<Rightarrow> db" where
  "stage_rows nid sid v \<equiv> update_schemas (\<lambda>s. sr_ns s = nid \<and> sr_id s = sid) (\<lambda>s. s\<lparr>sr_staged := Some v\<rparr>)"

abbreviation promote_rows :: "string \<Rightarrow> db \<Rightarrow> db" where
  "promote_rows nid \<equiv> update_schemas (\<lambda>s. sr_ns s = nid \<and> sr_staged s \<noteq> None)
     (\<lambda>s. s\<lparr>sr_current := sr_staged s, sr_staged := None\<rparr>)"

abbreviation discard_rows :: "string \<Rightarrow> db \<Rightarrow> db" where
  "discard_rows nid \<equiv> update_schemas (\<lambda>s. sr_ns s = nid \<and> sr_staged s \<noteq> None) (\<lambda>s. s\<lparr>sr_staged := None\<rparr>)"

interpretation db_area: staging_area "db_current nid" "db_staged nid" "\<lambda>db sid. (nid, sid) \<in> schema_keys db"
  "stage_rows nid" "promote_rows nid" "discard_rows nid" for nid
proof unfold_locales
  fix db j
  have row: "sr_ns r = nid" if "find_schema db nid j = Some r" for r using that by (auto dest: find_schema_keys)
  show "db_current nid (promote_rows nid db) j = (case db_staged nid db j of Some v \<Rightarrow> Some v | None \<Rightarrow> db_current nid db j)"
    and "db_staged nid (promote_rows nid db) j = None" and "db_current nid (discard_rows nid db) j = db_current nid db j"
    and "db_staged nid (discard_rows nid db) j = None"
    using row by (auto simp: db_current_def db_staged_def find_schema_update split: option.splits)
next
  fix k v db j
  show "db_current nid (stage_rows nid k v db) j = db_current nid db j"
    by (auto simp: db_current_def find_schema_update split: option.splits)
  show "db_staged nid (stage_rows nid k v db) j =
      (if j = k \<and> (nid, k) \<in> schema_keys db then Some v else db_staged nid db j)"
  proof (cases "find_schema db nid j")
    case None
    then have "(nid, j) \<notin> schema_keys db" by (simp only: find_schema_None_iff not_False_eq_True)
    with None show ?thesis by (auto simp: db_staged_def find_schema_update)
  next
    case (Some r)
    then have "sr_ns r = nid" "sr_id r = j" "(nid, j) \<in> schema_keys db" by (force dest: find_schema_keys)+
    with Some show ?thesis by (auto simp: db_staged_def find_schema_update)
  qed
qed

text \<open>Other namespaces are not touched.\<close>

lemma find_schema_other:
  "nid' \<noteq> nid \<Longrightarrow> (\<And>s. Q s \<Longrightarrow> sr_ns s = nid) \<Longrightarrow> (\<And>s. sr_ns (f s) = sr_ns s) \<Longrightarrow> (\<And>s. sr_id (f s) = sr_id s) \<Longrightarrow>
     find_schema (update_schemas Q f db) nid' sid = find_schema db nid' sid"
  by (cases "find_schema db nid' sid") (auto simp: find_schema_update dest: find_schema_keys)

section \<open>Keys\<close>

text \<open>The primary keys and foreign keys of the migrations.\<close>

definition primary_keys :: "db \<Rightarrow> bool" where
  "primary_keys db \<longleftrightarrow>
     distinct (map nr_id (db_namespaces db))
     \<and> distinct (map (\<lambda>b. (br_ns b, br_sha b)) (db_blobs db))
     \<and> distinct (map (\<lambda>s. (sr_ns s, sr_id s)) (db_schemas db))
     \<and> distinct (map (\<lambda>v. (vr_ns v, vr_schema v, vr_version v)) (db_versions db))
     \<and> distinct (map (\<lambda>f. (vf_ns f, vf_schema f, vf_version f, vf_filename f)) (db_files db))
     \<and> distinct (map (\<lambda>d. (vd_ns d, vd_schema d, vd_version d, vd_dep_ns d, vd_dep_schema d, vd_filename d)) (db_deps db))
     \<and> sorted_wrt (<) (map er_id (db_events db)) \<and> (\<forall>e \<in> set (db_events db). er_id e < db_next_event db)"

definition foreign_keys :: "db \<Rightarrow> bool" where
  "foreign_keys db \<longleftrightarrow>
     (\<forall>r \<in> set (db_namespaces db). \<forall>p. nr_parent r = Some p \<longrightarrow> p \<in> ns_ids db)
     \<and> (\<forall>b \<in> set (db_blobs db). br_ns b \<in> ns_ids db)
     \<and> (\<forall>s \<in> set (db_schemas db). sr_ns s \<in> ns_ids db)
     \<and> (\<forall>v \<in> set (db_versions db). (vr_ns v, vr_schema v) \<in> schema_keys db)
     \<and> (\<forall>f \<in> set (db_files db). (vf_ns f, vf_schema f, vf_version f) \<in> version_keys db \<and> (vf_ns f, vf_sha f) \<in> blob_keys db)
     \<and> (\<forall>d \<in> set (db_deps db). (vd_ns d, vd_schema d, vd_version d) \<in> version_keys db \<and> vd_dep_ns d \<in> ns_ids db)
     \<and> (\<forall>e \<in> set (db_events db). er_ns e \<in> ns_ids db)"

definition db_keys :: "db \<Rightarrow> bool" where
  "db_keys db \<longleftrightarrow> primary_keys db \<and> foreign_keys db"

interpretation keys: db_order "\<lambda>s t. db_keys s \<longrightarrow> db_keys t"
  by unfold_locales (auto simp: db_keys_def primary_keys_def foreign_keys_def)

text \<open>An update of rows that keeps their keys and references keeps the constraints.\<close>

lemma map_ns_keys:
  assumes "\<And>r. nr_id (f r) = nr_id r"
    and "\<And>r p. r \<in> set (db_namespaces db) \<Longrightarrow> nr_parent (f r) = Some p \<Longrightarrow> p \<in> ns_ids db"
    and "db_keys db"
  shows "db_keys (db\<lparr>db_namespaces := map f (db_namespaces db)\<rparr>)"
proof -
  have "nr_id ` f ` X = nr_id ` X" for X using assms(1) by (auto simp: image_iff)
  with assms show ?thesis
    by (auto simp: db_keys_def primary_keys_def foreign_keys_def o_def)
qed

lemma map_schema_keys:
  assumes "\<And>s. sr_ns (g s) = sr_ns s" and "\<And>s. sr_id (g s) = sr_id s" and "db_keys db"
  shows "db_keys (db\<lparr>db_schemas := map g (db_schemas db)\<rparr>)"
proof -
  have "(\<lambda>s. (sr_ns s, sr_id s)) ` g ` X = (\<lambda>s. (sr_ns s, sr_id s)) ` X" for X
    using assms(1,2) by (simp only: image_image)
  with assms show ?thesis
    by (simp add: db_keys_def primary_keys_def foreign_keys_def o_def)
qed

lemma update_schemas_keys:
  "(\<And>s. sr_ns (f s) = sr_ns s) \<Longrightarrow> (\<And>s. sr_id (f s) = sr_id s) \<Longrightarrow> db_keys db \<Longrightarrow> db_keys (update_schemas P f db)"
  unfolding update_schemas_def by (rule map_schema_keys) auto

lemma db_keys_parent: "db_keys db \<Longrightarrow> r \<in> set (db_namespaces db) \<Longrightarrow> nr_parent r = Some p \<Longrightarrow> p \<in> ns_ids db"
  by (simp add: db_keys_def foreign_keys_def)

lemma keys_CreateNamespace: "keys.holds (q_CreateNamespace nid meta parent)"
  unfolding q_CreateNamespace_def
  by (rule keys.holds_statement)
    (auto simp: db_keys_def primary_keys_def foreign_keys_def split: if_splits option.splits)

lemma keys_ClearNamespaceParent: "keys.holds (q_ClearNamespaceParent nid)"
  unfolding q_ClearNamespaceParent_def
  by (rule keys.holds_statement)
    (auto intro!: map_ns_keys dest: db_keys_parent split: if_splits)

lemma keys_SetNamespaceParent: "keys.holds (q_SetNamespaceParent p nid)"
  unfolding q_SetNamespaceParent_def
  by (rule keys.holds_statement)
    (auto intro!: map_ns_keys dest: db_keys_parent split: if_splits)

lemma keys_RecordEvent: "keys.holds (q_RecordNamespaceParentEvent nid prev new actor)"
  unfolding q_RecordNamespaceParentEvent_def
  by (rule keys.holds_statement)
    (auto simp: db_keys_def primary_keys_def foreign_keys_def sorted_wrt_append split: if_splits)

lemma keys_PutBlob: "keys.holds (q_PutBlob nid sha src sz)"
  unfolding q_PutBlob_def
  by (rule keys.holds_statement)
    (auto simp: db_keys_def primary_keys_def foreign_keys_def split: if_splits)

lemma keys_CreateSchema: "keys.holds (q_CreateSchema nid sid meta)"
  unfolding q_CreateSchema_def
  by (rule keys.holds_statement)
    (auto simp: db_keys_def primary_keys_def foreign_keys_def split: if_splits)

lemma keys_InsertVersion: "keys.holds (q_InsertVersion row)"
  unfolding q_InsertVersion_def
  by (rule keys.holds_statement)
    (auto simp: db_keys_def primary_keys_def foreign_keys_def split: if_splits)

lemma keys_InsertVersionFile: "keys.holds (q_InsertVersionFile row)"
  unfolding q_InsertVersionFile_def
  by (rule keys.holds_statement)
    (auto simp: db_keys_def primary_keys_def foreign_keys_def split: if_splits)

lemma keys_InsertVersionDep: "keys.holds (q_InsertVersionDep row)"
  unfolding q_InsertVersionDep_def
  by (rule keys.holds_statement)
    (auto simp: db_keys_def primary_keys_def foreign_keys_def split: if_splits)

lemma keys_schema_updates:
  "keys.holds (q_SetStagedVersion nid sid v)" "keys.holds (q_ClearStagedVersion nid sid)"
  "keys.holds (q_SetCurrentVersion nid sid w)" "keys.holds (q_SoftDeleteSchema nid sid)"
  "keys.holds (q_DiscardAllStaged nid)" "keys.holds (q_PromoteAllStaged nid)"
  unfolding q_SetStagedVersion_def q_ClearStagedVersion_def q_SetCurrentVersion_def q_SoftDeleteSchema_def
    q_DiscardAllStaged_def q_PromoteAllStaged_def
  by (auto intro!: keys.holds_statement update_schemas_keys simp: modifyA_def)

lemmas keys_statements = keys_CreateNamespace keys_ClearNamespaceParent keys_SetNamespaceParent
  keys_RecordEvent keys_PutBlob keys_CreateSchema keys_InsertVersion keys_InsertVersionFile
  keys_InsertVersionDep keys_schema_updates

text \<open>Every method of the store keeps the constraints, whatever fails.\<close>

lemma keys_set_parent_body: "keys.holds (set_parent_body nid parent actor)"
  unfolding set_parent_body_def q_GetNamespace_def
  by (intro keys.store_rules keys_statements)

lemma keys_put_version_body: "keys.holds (put_version_body ver files deps)"
  unfolding put_version_body_def by (intro keys.store_rules keys_statements)

lemma keys_ops:
  "keys.holds (st_CreateNamespace ns)" "keys.holds (st_SetNamespaceParent nid parent actor)"
  "keys.holds (st_RecordNamespaceParentEvent ev)" "keys.holds (st_PutBlob b)"
  "keys.holds (st_CreateSchema nid sid meta)" "keys.holds (st_PutVersion ver files deps)"
  "keys.holds (st_SetStaged nid sid v)" "keys.holds (st_Promote nid)" "keys.holds (st_DiscardStaging nid)"
  unfolding st_CreateNamespace_def st_SetNamespaceParent_def st_RecordNamespaceParentEvent_def st_PutBlob_def
    st_CreateSchema_def st_PutVersion_def st_SetStaged_def st_Promote_def st_DiscardStaging_def q_GetStagedSchemas_def
  by (intro keys.store_rules keys_statements keys_set_parent_body keys_put_version_body)+

section \<open>History\<close>

text \<open>Stored versions, their files and dependencies, blobs and audit events are only ever added.\<close>

definition history_kept :: "db \<Rightarrow> db \<Rightarrow> bool" where
  "history_kept s t \<longleftrightarrow> prefix (db_versions s) (db_versions t) \<and> prefix (db_files s) (db_files t)
     \<and> prefix (db_deps s) (db_deps t) \<and> prefix (db_blobs s) (db_blobs t) \<and> prefix (db_events s) (db_events t)"

interpretation history: db_order history_kept
  by unfold_locales (auto simp: history_kept_def intro: prefix_order.trans)

lemma history_statements:
  "history.holds (q_CreateNamespace nid meta parent)" "history.holds (q_ClearNamespaceParent nid)"
  "history.holds (q_SetNamespaceParent p nid)" "history.holds (q_RecordNamespaceParentEvent nid prev new actor)"
  "history.holds (q_PutBlob nid sha src sz)" "history.holds (q_CreateSchema nid sid meta)"
  "history.holds (q_InsertVersion vrow)" "history.holds (q_InsertVersionFile frow)" "history.holds (q_InsertVersionDep drow)"
  "history.holds (q_SetStagedVersion nid sid v)" "history.holds (q_ClearStagedVersion nid sid)"
  "history.holds (q_DiscardAllStaged nid)" "history.holds (q_PromoteAllStaged nid)"
  unfolding q_CreateNamespace_def q_ClearNamespaceParent_def q_SetNamespaceParent_def q_RecordNamespaceParentEvent_def
    q_PutBlob_def q_CreateSchema_def q_InsertVersion_def q_InsertVersionFile_def q_InsertVersionDep_def
    q_SetStagedVersion_def q_ClearStagedVersion_def q_DiscardAllStaged_def q_PromoteAllStaged_def
  by (rule history.holds_statement; auto simp: history_kept_def modifyA_def update_schemas_def split: if_splits)+

lemma history_ops:
  "history.holds (st_CreateNamespace ns)" "history.holds (st_SetNamespaceParent nid parent actor)"
  "history.holds (st_RecordNamespaceParentEvent ev)" "history.holds (st_PutBlob b)"
  "history.holds (st_CreateSchema nid sid meta)" "history.holds (st_PutVersion ver files deps)"
  "history.holds (st_SetStaged nid sid v)" "history.holds (st_Promote nid)" "history.holds (st_DiscardStaging nid)"
  unfolding st_CreateNamespace_def st_SetNamespaceParent_def st_RecordNamespaceParentEvent_def st_PutBlob_def
    st_CreateSchema_def st_PutVersion_def st_SetStaged_def st_Promote_def st_DiscardStaging_def q_GetStagedSchemas_def
    set_parent_body_def put_version_body_def q_GetNamespace_def
  by (intro history.store_rules history_statements)+

end
