(* ===== verification/Paging.thy ===== *)
theory Paging
  imports Prelude
begin

text \<open>
  Keyset pagination, shared by the two listings of the server. A source of pages returns, for a
  cursor and a limit, the first rows above the cursor in key order; a handler fetches one row more
  than the page to learn whether there is a next page, whose cursor is the last row it returns.
\<close>

definition next_page :: "('c \<Rightarrow> nat \<Rightarrow> 'a list) \<Rightarrow> ('a \<Rightarrow> 'c) \<Rightarrow> nat \<Rightarrow> 'c \<Rightarrow> 'a list \<times> 'c option" where
  "next_page page cursor n after =
     (let xs = page after (n + 1) in
      if length xs > n then (take n xs, Some (cursor (last (take n xs)))) else (xs, None))"

text \<open>A caller that follows the cursors until there is none; the first argument bounds the calls.\<close>

fun follow :: "nat \<Rightarrow> ('c \<Rightarrow> nat \<Rightarrow> 'a list) \<Rightarrow> ('a \<Rightarrow> 'c) \<Rightarrow> nat \<Rightarrow> 'c \<Rightarrow> 'a list option" where
  "follow 0 page cursor n after = None"
| "follow (Suc calls) page cursor n after =
     (case next_page page cursor n after of
        (xs, None) \<Rightarrow> Some xs
      | (xs, Some after') \<Rightarrow> map_option ((@) xs) (follow calls page cursor n after'))"

locale keyset_listing =
  fixes items :: "'a list" and pos :: "'c \<Rightarrow> 'k :: linorder" and cursor :: "'a \<Rightarrow> 'c"
    and page :: "'c \<Rightarrow> nat \<Rightarrow> 'a list"
  assumes page_eq: "page after n =
    take n (sort_key (\<lambda>x. pos (cursor x)) (filter (\<lambda>x. pos after < pos (cursor x)) items))"
begin

abbreviation key :: "'a \<Rightarrow> 'k" where
  "key x \<equiv> pos (cursor x)"

definition above :: "'c \<Rightarrow> 'a list" where
  "above after = sort_key key (filter (\<lambda>x. pos after < key x) items)"

lemma page_above: "page after n = take n (above after)"
  by (simp add: page_eq above_def)

lemma above_filter: "above after = filter (\<lambda>x. pos after < key x) (sort_key key items)"
  by (simp add: above_def filter_sort)

lemma above_last:
  assumes "distinct (map key items)" and "above after = us @ vs" and "us \<noteq> []"
  shows "above (cursor (last us)) = vs"
proof -
  let ?c = "key (last us)"
  have "sorted (map key (above after))" by (simp add: above_def)
  moreover have "distinct (map key (above after))"
    using assms(1) by (auto simp: above_def distinct_map inj_on_def)
  ultimately have strict: "sorted_wrt (<) (map key (us @ vs))"
    unfolding assms(2) by (simp add: strict_sorted_iff)
  have le: "key x \<le> ?c" if "x \<in> set us" for x
  proof -
    from assms(3) have us: "us = butlast us @ [last us]" by simp
    from strict have "sorted_wrt (<) (map key us)" by (simp add: sorted_wrt_append)
    then have "sorted_wrt (<) (map key (butlast us @ [last us]))" using us by metis
    then have "\<forall>y \<in> set (butlast us). key y < ?c" by (simp add: sorted_wrt_append)
    with that show ?thesis by (metis UnE append_butlast_last_id assms(3) less_imp_le list.set_intros(1)
        set_ConsD set_append order_refl empty_iff list.set(1))
  qed
  have gt: "?c < key y" if "y \<in> set vs" for y
    using strict that assms(3) by (auto simp: sorted_wrt_append)
  from assms(2,3) have "last us \<in> set (above after)" by simp
  then have "pos after < ?c" by (simp add: above_def)
  then have "above (cursor (last us)) = filter (\<lambda>x. ?c < key x) (above after)"
    unfolding above_filter by (auto simp: filter_filter intro!: filter_cong)
  also have "\<dots> = vs" unfolding assms(2) using le gt by (auto simp: filter_empty_conv not_less)
  finally show ?thesis .
qed

text \<open>Following the cursors yields every item above the first cursor exactly once, in key order.\<close>

lemma follow_complete:
  assumes "distinct (map key items)" and "0 < n"
  shows "length (above after) < calls \<Longrightarrow> follow calls page cursor n after = Some (above after)"
proof (induction calls arbitrary: after)
  case 0
  then show ?case by simp
next
  case (Suc calls)
  show ?case
  proof (cases "length (above after) > n")
    case False
    then show ?thesis by (simp add: next_page_def page_above Let_def)
  next
    case True
    let ?us = "take n (above after)" and ?vs = "drop n (above after)"
    have us: "?us \<noteq> []" using True assms(2) by auto
    have rest: "above (cursor (last ?us)) = ?vs" by (rule above_last [OF assms(1) _ us]) simp
    have "length ?vs < calls" using Suc.prems True assms(2) by simp
    with Suc.IH [of "cursor (last ?us)"] rest have "follow calls page cursor n (cursor (last ?us)) = Some ?vs" by simp
    moreover have "next_page page cursor n after = (?us, Some (cursor (last ?us)))"
      using True by (simp add: next_page_def page_above Let_def min_def)
    ultimately show ?thesis by simp
  qed
qed

end

end
