(* ===== verification/Hierarchy.thy ===== *)
theory Hierarchy
  imports Store_Facts Paging
begin

text \<open>
  The hierarchy of namespaces in the database and the listings: re-parenting keeps the hierarchy
  acyclic as long as the recursive query sees all ancestors, every change of a parent is in the
  audit log, and following the pages of a listing yields every row once.
\<close>

section \<open>Hierarchy\<close>

definition row_parent :: "ns_row list \<Rightarrow> string \<Rightarrow> string option" where
  "row_parent rows n = (case find (\<lambda>r. nr_id r = n) rows of None \<Rightarrow> None | Some r \<Rightarrow> nr_parent r)"

definition parent_edges :: "ns_row list \<Rightarrow> (string \<times> string) set" where
  "parent_edges rows = {(n, m). row_parent rows n = Some m}"

definition hierarchy_ok :: "db \<Rightarrow> bool" where
  "hierarchy_ok db \<longleftrightarrow> acyclic (parent_edges (db_namespaces db))"

lemma cte_ancestors_Suc:
  "cte_ancestors rows (Suc d) n = (if n \<in> nr_id ` set rows
     then n # (case row_parent rows n of None \<Rightarrow> [] | Some p \<Rightarrow> cte_ancestors rows d p) else [])"
proof (cases "find (\<lambda>r. nr_id r = n) rows")
  case None
  then have "n \<notin> nr_id ` set rows" unfolding find_key_None_iff .
  with None show ?thesis by simp
next
  case (Some r)
  then have "n \<in> nr_id ` set rows" by (auto dest: find_Some_mem)
  with Some show ?thesis by (simp add: row_parent_def)
qed

declare cte_ancestors.simps(2) [simp del]

lemma cte_ancestors_sound: "m \<in> set (cte_ancestors rows d n) \<Longrightarrow> (n, m) \<in> (parent_edges rows)\<^sup>*"
proof (induction d arbitrary: n)
  case 0
  then show ?case by simp
next
  case (Suc d)
  show ?case
  proof (cases "m = n")
    case False
    with Suc.prems obtain p where "row_parent rows n = Some p" "m \<in> set (cte_ancestors rows d p)"
      by (cases "row_parent rows n") (auto simp: cte_ancestors_Suc split: if_splits)
    with Suc.IH have "(n, p) \<in> parent_edges rows" "(p, m) \<in> (parent_edges rows)\<^sup>*" by (auto simp: parent_edges_def)
    then show ?thesis by (rule converse_rtrancl_into_rtrancl)
  qed simp
qed

text \<open>When the recursion stops before its bound it has every ancestor.\<close>

lemma cte_ancestors_complete:
  assumes closed: "\<And>r p. r \<in> set rows \<Longrightarrow> nr_parent r = Some p \<Longrightarrow> p \<in> nr_id ` set rows"
  shows "n \<in> nr_id ` set rows \<Longrightarrow> length (cte_ancestors rows d n) < d \<Longrightarrow> (n, m) \<in> (parent_edges rows)\<^sup>* \<Longrightarrow>
    m \<in> set (cte_ancestors rows d n)"
proof (induction d arbitrary: n)
  case 0
  then show ?case by simp
next
  case (Suc d)
  from Suc.prems(1) have eq: "cte_ancestors rows (Suc d) n =
      n # (case row_parent rows n of None \<Rightarrow> [] | Some p \<Rightarrow> cte_ancestors rows d p)" by (simp add: cte_ancestors_Suc)
  from Suc.prems(3) show ?case
  proof (cases rule: converse_rtranclE)
    case base
    then show ?thesis unfolding eq by simp
  next
    case (step p)
    then have p: "row_parent rows n = Some p" by (simp add: parent_edges_def)
    then obtain r where "find (\<lambda>r. nr_id r = n) rows = Some r" "nr_parent r = Some p"
      by (cases "find (\<lambda>r. nr_id r = n) rows") (auto simp: row_parent_def)
    then have "p \<in> nr_id ` set rows" using closed find_Some_mem by metis
    moreover from Suc.prems(2) eq p have "length (cte_ancestors rows d p) < d" by simp
    ultimately have "m \<in> set (cte_ancestors rows d p)" using step(2) by (rule Suc.IH)
    with eq p show ?thesis by simp
  qed
qed

lemma row_parent_set:
  assumes "n \<in> nr_id ` set rows"
  shows "row_parent (map (\<lambda>r. if nr_id r = n then r\<lparr>nr_parent := q\<rparr> else r) rows) m =
    (if m = n then q else row_parent rows m)"
proof -
  have "find (\<lambda>r. nr_id r = m) (map (\<lambda>r. if nr_id r = n then r\<lparr>nr_parent := q\<rparr> else r) rows) =
      map_option (\<lambda>r. if nr_id r = n then r\<lparr>nr_parent := q\<rparr> else r) (find (\<lambda>r. nr_id r = m) rows)"
    by (rule find_map_key) simp
  moreover have "find (\<lambda>r. nr_id r = n) rows \<noteq> None" using assms by (simp add: find_key_None_iff)
  ultimately show ?thesis
    by (cases "find (\<lambda>r. nr_id r = m) rows") (auto simp: row_parent_def dest: find_Some_mem)
qed

lemma parent_edges_set:
  assumes "n \<in> nr_id ` set rows"
  shows "parent_edges (map (\<lambda>r. if nr_id r = n then r\<lparr>nr_parent := Some p\<rparr> else r) rows) \<subseteq> insert (n, p) (parent_edges rows)"
    and "parent_edges (map (\<lambda>r. if nr_id r = n then r\<lparr>nr_parent := None\<rparr> else r) rows) \<subseteq> parent_edges rows"
  unfolding parent_edges_def row_parent_set [OF assms] by (auto split: if_splits)

section \<open>Re-parenting\<close>

definition set_parent_rows :: "string \<Rightarrow> string option \<Rightarrow> ns_row list \<Rightarrow> ns_row list" where
  "set_parent_rows nid parent rows = map (\<lambda>r. if nr_id r = nid then r\<lparr>nr_parent := parent\<rparr> else r) rows"

definition parent_change :: "string \<Rightarrow> string option \<Rightarrow> string \<Rightarrow> db \<Rightarrow> db" where
  "parent_change nid parent actor db = db\<lparr>db_namespaces := set_parent_rows nid parent (db_namespaces db),
     db_events := db_events db @ [\<lparr>er_id = db_next_event db, er_ns = nid,
       er_previous = row_parent (db_namespaces db) nid, er_new = parent, er_actor = actor, er_at = db_clock db\<rparr>],
     db_next_event := db_next_event db + 1\<rparr>"

definition parent_allowed :: "string \<Rightarrow> string option \<Rightarrow> db \<Rightarrow> bool" where
  "parent_allowed nid parent db \<longleftrightarrow> nid \<in> ns_ids db \<and>
     (case parent of None \<Rightarrow> True | Some p \<Rightarrow>
        p \<in> ns_ids db \<and> p \<noteq> nid \<and> nid \<notin> set (cte_ancestors (db_namespaces db) 64 p))"

lemma same_tables_update:
  assumes "same_tables s t"
  shows "same_tables (s\<lparr>db_namespaces := xs\<rparr>) (t\<lparr>db_namespaces := xs\<rparr>)"
    and "same_tables (s\<lparr>db_events := es, db_next_event := k\<rparr>) (t\<lparr>db_events := es, db_next_event := k\<rparr>)"
  using assms by (cases s; cases t; simp add: same_tables_def)+

lemma q_ClearNamespaceParent_Inr:
  assumes "q_ClearNamespaceParent nid s = (Inr n, t)"
  shows "same_tables (s\<lparr>db_namespaces := set_parent_rows nid None (db_namespaces s)\<rparr>) t"
  using assms unfolding q_ClearNamespaceParent_def
  by (auto elim!: statement_Inr simp: set_parent_rows_def same_tables_sel intro: same_tables_update)

lemma q_SetNamespaceParent_Inr:
  assumes "q_SetNamespaceParent p nid s = (Inr n, t)" and "n \<noteq> 0"
  shows "parent_allowed nid (Some p) s"
    and "same_tables (s\<lparr>db_namespaces := set_parent_rows nid (Some p) (db_namespaces s)\<rparr>) t"
  using assms unfolding q_SetNamespaceParent_def
  by (auto elim!: statement_Inr simp: set_parent_rows_def parent_allowed_def same_tables_sel
      intro: same_tables_update split: if_splits)

lemma q_RecordEvent_Inr:
  assumes "q_RecordNamespaceParentEvent nid previous new actor s = (Inr u, t)"
  shows "same_tables (s\<lparr>db_events := db_events s @ [\<lparr>er_id = db_next_event s, er_ns = nid, er_previous = previous,
     er_new = new, er_actor = actor, er_at = db_clock s\<rparr>], db_next_event := db_next_event s + 1\<rparr>) t"
  using assms unfolding q_RecordNamespaceParentEvent_def
  by (auto elim!: statement_Inr simp: same_tables_sel intro: same_tables_update split: if_splits)

text \<open>A re-parenting that succeeds was allowed and did exactly the change with its audit row.\<close>

lemma same_tables_row_parent: "same_tables s t \<Longrightarrow> row_parent (db_namespaces t) = row_parent (db_namespaces s)"
  by (simp add: same_tables_sel)

lemma set_parent_body_Inr:
  assumes "set_parent_body nid parent actor s = (Inr u, t)"
  shows "parent_allowed nid parent s" and "same_tables (parent_change nid parent actor s) t"
proof -
  from assms obtain row s1 s2 where one: "q_GetNamespace nid s = (Inr row, s1)"
    and two: "(case parent of
        None \<Rightarrow> thenA (wrapA (''clearing parent for '' @ nid @ '': '') (q_ClearNamespaceParent nid)) (retA ())
      | Some p \<Rightarrow> thenA (catchA (q_GetNamespace p) (\<lambda>_. failA ErrNamespaceNotFound))
          (bindA (wrapA (''setting parent for '' @ nid @ '': '') (q_SetNamespaceParent p nid)) (\<lambda>rows.
           if rows = 0 then failA ErrParentCycle else retA ()))) s1 = (Inr (), s2)"
    and three: "q_RecordNamespaceParentEvent nid (nr_parent row) parent actor s2 = (Inr u, t)"
    unfolding set_parent_body_def by auto
  from q_reads(1) [OF one] have s1: "same_tables s s1"
    and row: "find (\<lambda>r. nr_id r = nid) (db_namespaces s) = Some row" by auto
  then have nid: "nid \<in> ns_ids s" "row_parent (db_namespaces s) nid = nr_parent row"
    by (auto simp: row_parent_def dest: find_Some_mem)
  have mid: "parent_allowed nid parent s \<and> same_tables (s\<lparr>db_namespaces := set_parent_rows nid parent (db_namespaces s)\<rparr>) s2"
  proof (cases parent)
    case None
    with two have "\<exists>k. q_ClearNamespaceParent nid s1 = (Inr k, s2)" by auto
    then have "same_tables (s1\<lparr>db_namespaces := set_parent_rows nid None (db_namespaces s1)\<rparr>) s2"
      by (auto dest: q_ClearNamespaceParent_Inr)
    with same_tables_update(1) [OF s1] same_tables_sel(1) [OF s1] None nid show ?thesis
      by (auto simp: parent_allowed_def intro: same_tables_trans)
  next
    case (Some p)
    with two obtain prow s1' k where get: "q_GetNamespace p s1 = (Inr prow, s1')"
      and upd: "q_SetNamespaceParent p nid s1' = (Inr k, s2)" and k: "k \<noteq> 0" by (auto split: if_splits)
    from q_reads(1) [OF get] s1 have s1': "same_tables s s1'" by (auto intro: same_tables_trans)
    from q_SetNamespaceParent_Inr [OF upd k] same_tables_update(1) [OF s1'] same_tables_sel(1) [OF s1'] Some show ?thesis
      by (auto simp: parent_allowed_def intro: same_tables_trans)
  qed
  then show "parent_allowed nid parent s" by blast
  from mid have rows2: "same_tables (s\<lparr>db_namespaces := set_parent_rows nid parent (db_namespaces s)\<rparr>) s2" by blast
  from same_tables_update(2) [OF rows2] q_RecordEvent_Inr [OF three] same_tables_sel [OF rows2] nid(2)
  show "same_tables (parent_change nid parent actor s) t"
    by (auto simp: parent_change_def intro: same_tables_trans)
qed

lemma same_tables_parent_change:
  "same_tables s t \<Longrightarrow> same_tables (parent_change nid parent actor s) (parent_change nid parent actor t)"
  by (cases s; cases t) (simp add: same_tables_def parent_change_def)

lemma st_SetNamespaceParent_Inr:
  assumes "st_SetNamespaceParent nid parent actor s = (Inr u, t)"
  shows "parent_allowed nid parent s" and "same_tables (parent_change nid parent actor s) t"
proof -
  from assms obtain s1 s2 where s1: "same_tables s s1" and body: "set_parent_body nid parent actor s1 = (Inr u, s2)"
    and t: "same_tables s2 t" unfolding st_SetNamespaceParent_def by (rule transaction_Inr)
  from set_parent_body_Inr(1) [OF body] show "parent_allowed nid parent s"
    using same_tables_sel(1) [OF s1] by (cases parent) (simp_all add: parent_allowed_def)
  from set_parent_body_Inr(2) [OF body] same_tables_parent_change [OF s1] t
  show "same_tables (parent_change nid parent actor s) t" by (blast intro: same_tables_trans)
qed

lemma row_parent_set_parent_rows:
  "n \<in> nr_id ` set rows \<Longrightarrow> row_parent (set_parent_rows n q rows) m = (if m = n then q else row_parent rows m)"
  unfolding set_parent_rows_def by (rule row_parent_set)

lemma set_parent_body_nofault:
  assumes "db_faults s = []"
  shows "set_parent_body nid parent actor s =
    (if nid \<notin> ns_ids s \<or> (\<exists>p. parent = Some p \<and> p \<notin> ns_ids s) then (Inl ErrNamespaceNotFound, s)
     else if \<exists>p. parent = Some p \<and> (p = nid \<or> nid \<in> set (cte_ancestors (db_namespaces s) 64 p)) then (Inl ErrParentCycle, s)
     else (Inr (), parent_change nid parent actor s))"
proof -
  have missing: "find (\<lambda>r. nr_id r = n) (db_namespaces s) = None \<longleftrightarrow> n \<notin> ns_ids s" for n
    by (rule find_key_None_iff)
  have get: "q_GetNamespace n s = (case find (\<lambda>r. nr_id r = n) (db_namespaces s) of
      None \<Rightarrow> (Inl (DbError NoRows), s) | Some r \<Rightarrow> (Inr r, s))" for n
    using assms by (auto simp: q_GetNamespace_def select_def one_row_def split: option.splits)
  have ids: "nr_id ` (\<lambda>r. if nr_id r = nid then r\<lparr>nr_parent := q\<rparr> else r) ` X = nr_id ` X" for q X
    unfolding image_image by (rule image_cong) auto
  note defs = set_parent_body_def act_defs get parent_change_def set_parent_rows_def row_parent_def ids assms
    q_ClearNamespaceParent_def q_SetNamespaceParent_def q_RecordNamespaceParentEvent_def
  show ?thesis
  proof (cases "find (\<lambda>r. nr_id r = nid) (db_namespaces s)")
    case None
    with missing [of nid] show ?thesis by (simp add: defs)
  next
    case (Some r)
    with missing [of nid] have nid: "nid \<in> ns_ids s" by simp
    show ?thesis
    proof (cases parent)
      case None
      with Some nid show ?thesis by (simp add: defs del: if_image_distrib)
    next
      case p: (Some p)
      with Some nid missing [of p] show ?thesis
        by (cases "find (\<lambda>r. nr_id r = p) (db_namespaces s)") (auto simp: defs simp del: if_image_distrib)
    qed
  qed
qed

section \<open>The hierarchy stays acyclic\<close>

lemma hierarchy_ok_same: "same_tables s t \<Longrightarrow> hierarchy_ok t = hierarchy_ok s"
  by (simp add: hierarchy_ok_def same_tables_sel)

lemma parent_edges_set_parent_rows:
  assumes "n \<in> nr_id ` set rows"
  shows "parent_edges (set_parent_rows n (Some p) rows) \<subseteq> insert (n, p) (parent_edges rows)"
    and "parent_edges (set_parent_rows n None rows) \<subseteq> parent_edges rows"
  unfolding set_parent_rows_def using parent_edges_set [OF assms] by auto

lemma hierarchy_ok_parent_change:
  assumes keys: "db_keys s" and "hierarchy_ok s" and ok: "parent_allowed nid parent s"
    and deep: "\<And>p. parent = Some p \<Longrightarrow> length (cte_ancestors (db_namespaces s) 64 p) < 64"
  shows "hierarchy_ok (parent_change nid parent actor s)"
proof (cases parent)
  case None
  with ok assms(2) parent_edges_set_parent_rows(2) show ?thesis
    by (auto simp: hierarchy_ok_def parent_change_def parent_allowed_def intro: acyclic_subset)
next
  case (Some p)
  with ok have nid: "nid \<in> ns_ids s" and p: "p \<in> ns_ids s"
    and free: "nid \<notin> set (cte_ancestors (db_namespaces s) 64 p)" by (auto simp: parent_allowed_def)
  have "(p, nid) \<notin> (parent_edges (db_namespaces s))\<^sup>*"
    using cte_ancestors_complete [OF _ p deep [OF Some]] db_keys_parent [OF keys] free by blast
  with assms(2) have "acyclic (insert (nid, p) (parent_edges (db_namespaces s)))"
    by (simp add: hierarchy_ok_def acyclic_insert)
  with parent_edges_set_parent_rows(1) [OF nid] Some show ?thesis
    by (auto simp: hierarchy_ok_def parent_change_def intro: acyclic_subset)
qed

section \<open>The audit log\<close>

text \<open>The parent of a namespace that the log says it has, replaying the events from the start.\<close>

definition replay :: "event_row list \<Rightarrow> string \<Rightarrow> string option" where
  "replay es n = fold (\<lambda>e p. if er_ns e = n then er_new e else p) es None"

definition trail_ok :: "event_row list \<Rightarrow> bool" where
  "trail_ok es \<longleftrightarrow> (\<forall>i < length es. er_previous (es ! i) = replay (take i es) (er_ns (es ! i)))"

definition audited :: "db \<Rightarrow> bool" where
  "audited db \<longleftrightarrow> trail_ok (db_events db) \<and> row_parent (db_namespaces db) = replay (db_events db)"

lemma audited_same: "same_tables s t \<Longrightarrow> audited t = audited s"
  by (simp add: audited_def same_tables_sel)

lemma replay_snoc: "replay (es @ [e]) n = (if er_ns e = n then er_new e else replay es n)"
  by (simp add: replay_def)

lemma trail_ok_snoc: "trail_ok (es @ [e]) \<longleftrightarrow> trail_ok es \<and> er_previous e = replay es (er_ns e)"
  by (auto simp: trail_ok_def nth_append less_Suc_eq)

lemma audited_parent_change:
  assumes "nid \<in> ns_ids s" and "audited s"
  shows "audited (parent_change nid parent actor s)"
  using assms
  by (auto simp: audited_def parent_change_def trail_ok_snoc replay_snoc row_parent_set_parent_rows fun_eq_iff)

lemma audited_SetNamespaceParent:
  assumes "st_SetNamespaceParent nid parent actor s = (r, t)" and "audited s"
  shows "audited t"
proof (cases r)
  case (Inl e)
  with assms show ?thesis unfolding st_SetNamespaceParent_def by (metis audited_same transaction_Inl)
next
  case (Inr u)
  with assms(1) have "st_SetNamespaceParent nid parent actor s = (Inr u, t)" by simp
  from st_SetNamespaceParent_Inr [OF this] assms(2) audited_parent_change audited_same show ?thesis
    unfolding parent_allowed_def by blast
qed

interpretation audit: db_order "\<lambda>s t. audited s \<longrightarrow> audited t"
  by unfold_locales (auto simp: audited_def)

lemma audited_frame: "db_namespaces t = db_namespaces s \<Longrightarrow> db_events t = db_events s \<Longrightarrow> audited s \<longrightarrow> audited t"
  by (simp add: audited_def)

lemma row_parent_append_root:
  assumes "nr_id r \<notin> nr_id ` set rows" and "nr_parent r = None"
  shows "row_parent (rows @ [r]) = row_parent rows"
proof
  fix n
  show "row_parent (rows @ [r]) n = row_parent rows n"
  proof (cases "find (\<lambda>x. nr_id x = n) rows")
    case None
    then have "find (\<lambda>x. nr_id x = n) (rows @ [r]) = find (\<lambda>x. nr_id x = n) [r]"
      by (induction rows) (auto split: if_splits)
    with None assms(2) show ?thesis by (simp add: row_parent_def)
  next
    case (Some x)
    then have "find (\<lambda>x. nr_id x = n) (rows @ [r]) = Some x" by (induction rows) (auto split: if_splits)
    with Some show ?thesis by (simp add: row_parent_def)
  qed
qed

lemma audit_statements:
  "audit.holds (q_CreateNamespace nid meta None)" "audit.holds (q_PutBlob nid sha src sz)"
  "audit.holds (q_CreateSchema nid sid meta)" "audit.holds (q_InsertVersion vrow)"
  "audit.holds (q_InsertVersionFile frow)" "audit.holds (q_InsertVersionDep drow)"
  "audit.holds (q_SetStagedVersion nid sid v)" "audit.holds (q_ClearStagedVersion nid sid)"
  "audit.holds (q_DiscardAllStaged nid)" "audit.holds (q_PromoteAllStaged nid)"
  unfolding q_CreateNamespace_def q_PutBlob_def q_CreateSchema_def q_InsertVersion_def q_InsertVersionFile_def
    q_InsertVersionDep_def q_SetStagedVersion_def q_ClearStagedVersion_def q_DiscardAllStaged_def q_PromoteAllStaged_def
  by (rule audit.holds_statement; auto simp: audited_def row_parent_append_root update_schemas_def modifyA_def
      split: if_splits)+

lemma audit_ops:
  "sn_ParentNamespaceID ns = None \<Longrightarrow> audit.holds (st_CreateNamespace ns)"
  "audit.holds (st_SetNamespaceParent nid parent actor)" "audit.holds (st_PutBlob b)"
  "audit.holds (st_CreateSchema nid sid meta)" "audit.holds (st_PutVersion ver files deps)"
  "audit.holds (st_SetStaged nid sid v)" "audit.holds (st_Promote nid)" "audit.holds (st_DiscardStaging nid)"
proof -
  show "audit.holds (st_SetNamespaceParent nid parent actor)"
    by (rule audit.holdsI) (blast intro: audited_SetNamespaceParent)
qed (auto simp: st_CreateNamespace_def st_PutBlob_def st_CreateSchema_def st_PutVersion_def st_SetStaged_def
    st_Promote_def st_DiscardStaging_def q_GetStagedSchemas_def put_version_body_def
    intro!: audit.store_rules audit_statements)

section \<open>Listings\<close>

text \<open>
  The page queries are keyset listings of the live rows. A row has one position, since ids are
  unique and the collation breaks ties by the text.
\<close>

interpretation ns_listing: keyset_listing "filter (\<lambda>r. nr_deleted_at r = None) (db_namespaces db)"
  "text_key db" nr_id "\<lambda>after n. namespaces_page db after (int n)" for db
  by unfold_locales (simp add: namespaces_page_def conj_commute cong: filter_cong)

interpretation schema_listing: keyset_listing "filter (\<lambda>r. sr_ns r = nid \<and> sr_deleted_at r = None) (db_schemas db)"
  "text_key db" sr_id "\<lambda>after n. schemas_page db nid after (int n)" for db nid
  by unfold_locales (simp add: schemas_page_def conj_ac cong: filter_cong)

lemma text_key_inj [simp]: "text_key db x = text_key db y \<longleftrightarrow> x = y"
  by (auto simp: text_key_def)

lemma listing_keys_distinct:
  assumes "db_keys db"
  shows "distinct (map (\<lambda>r. text_key db (nr_id r)) (filter (\<lambda>r. nr_deleted_at r = None) (db_namespaces db)))"
    and "distinct (map (\<lambda>r. text_key db (sr_id r)) (filter (\<lambda>r. sr_ns r = nid \<and> sr_deleted_at r = None) (db_schemas db)))"
  using assms by (auto simp: db_keys_def primary_keys_def distinct_map inj_on_def)

section \<open>Properties\<close>

definition demo_ns :: "string \<Rightarrow> string option \<Rightarrow> ns_row" where
  "demo_ns n p = \<lparr>nr_id = n, nr_created_at = 0, nr_deleted_at = None, nr_metadata = [], nr_parent = p\<rparr>"

definition demo_db :: "ns_row list \<Rightarrow> db" where
  "demo_db rows = \<lparr>db_namespaces = rows, db_events = [], db_blobs = [], db_schemas = [], db_versions = [],
     db_files = [], db_deps = [], db_next_event = 1, db_clock = 0, db_collation = (\<lambda>x. x), db_faults = []\<rparr>"

text \<open>
  Property C14 (reparent_exact). When the database can be reached, \<^verbatim>\<open>SetNamespaceParent\<close> does what its
  contract says: it reports a missing namespace or parent, it reports a cycle when the namespace is
  the new parent or one of the ancestors of it that the recursive query sees, and otherwise it sets
  the parent and appends one audit row with the previous and the new parent. On both errors the
  database is as before.
\<close>

theorem reparent_exact:
  assumes "db_faults s = []"
  shows "st_SetNamespaceParent nid parent actor s =
    (if nid \<notin> ns_ids s \<or> (\<exists>p. parent = Some p \<and> p \<notin> ns_ids s) then (Inl ErrNamespaceNotFound, s)
     else if \<exists>p. parent = Some p \<and> (p = nid \<or> nid \<in> set (cte_ancestors (db_namespaces s) 64 p)) then (Inl ErrParentCycle, s)
     else (Inr (), parent_change nid parent actor s))"
  using assms set_parent_body_nofault [OF assms, of nid parent actor]
  by (auto simp: st_SetNamespaceParent_def transaction_nofault rolled_back_def parent_change_def)

theorem reparent_exact_witness:
  "st_SetNamespaceParent ''b'' (Some ''a'') ''u'' (demo_db [demo_ns ''a'' None, demo_ns ''b'' None]) =
     (Inr (), parent_change ''b'' (Some ''a'') ''u'' (demo_db [demo_ns ''a'' None, demo_ns ''b'' None])) \<and>
   st_SetNamespaceParent ''a'' (Some ''b'') ''u'' (demo_db [demo_ns ''a'' None, demo_ns ''b'' (Some ''a'')]) =
     (Inl ErrParentCycle, demo_db [demo_ns ''a'' None, demo_ns ''b'' (Some ''a'')])"
  by (rule conjI; subst reparent_exact; simp add: demo_db_def demo_ns_def cte_ancestors_Suc row_parent_def numeral_eq_Suc)

text \<open>
  Property C15 (reparent_acyclic). If the hierarchy has no cycle and the new parent has fewer than 64
  ancestors, counting itself, then after \<^verbatim>\<open>SetNamespaceParent\<close> - whatever it returned and whatever
  statement failed - the hierarchy still has no cycle.
\<close>

theorem reparent_acyclic:
  assumes "db_keys s" and "hierarchy_ok s"
    and "\<And>p. parent = Some p \<Longrightarrow> length (cte_ancestors (db_namespaces s) 64 p) < 64"
    and "st_SetNamespaceParent nid parent actor s = (r, t)"
  shows "hierarchy_ok t"
proof (cases r)
  case (Inl e)
  with assms(2,4) show ?thesis unfolding st_SetNamespaceParent_def by (metis hierarchy_ok_same transaction_Inl)
next
  case (Inr u)
  with assms(4) have ok: "st_SetNamespaceParent nid parent actor s = (Inr u, t)" by simp
  from hierarchy_ok_parent_change [OF assms(1,2) st_SetNamespaceParent_Inr(1) [OF ok] assms(3)]
    hierarchy_ok_same [OF st_SetNamespaceParent_Inr(2) [OF ok]] show ?thesis by blast
qed

theorem reparent_acyclic_witness:
  "hierarchy_ok (snd (st_SetNamespaceParent ''b'' (Some ''a'') ''u'' (demo_db [demo_ns ''a'' None, demo_ns ''b'' None])))"
proof -
  let ?s = "demo_db [demo_ns ''a'' None, demo_ns ''b'' None]"
  have "parent_edges (db_namespaces ?s) = {}"
    by (auto simp: parent_edges_def row_parent_def demo_db_def demo_ns_def split: if_splits)
  then have "hierarchy_ok ?s" by (simp add: hierarchy_ok_def acyclic_def)
  moreover have "db_keys ?s" by (simp add: db_keys_def primary_keys_def foreign_keys_def demo_db_def demo_ns_def)
  moreover have "length (cte_ancestors (db_namespaces ?s) 64 ''a'') < 64"
    by (simp add: demo_db_def demo_ns_def cte_ancestors_Suc row_parent_def numeral_eq_Suc)
  ultimately show ?thesis using reparent_acyclic [of ?s "Some ''a''" "''b''" "''u''"] by (metis option.inject prod.collapse)
qed

text \<open>A chain of 65 namespaces, each the child of the one before.\<close>

definition link :: "nat \<Rightarrow> string" where
  "link k = [char_of k]"

definition deep_rows :: "ns_row list" where
  "deep_rows = map (\<lambda>k. demo_ns (link k) (if k = 0 then None else Some (link (k - 1)))) [0..<65]"

lemma link_inj: "j < 65 \<Longrightarrow> k < 65 \<Longrightarrow> link j = link k \<longleftrightarrow> j = k"
  by (simp add: link_def take_bit_eq_mod)

lemma deep_row_parent: "k < 65 \<Longrightarrow> row_parent deep_rows (link k) = (if k = 0 then None else Some (link (k - 1)))"
proof -
  assume k: "k < 65"
  let ?row = "\<lambda>k. demo_ns (link k) (if k = 0 then None else Some (link (k - 1)))"
  have "inj_on link {0..<65}" using link_inj by (auto simp: inj_on_def)
  then have "distinct (map nr_id deep_rows)"
    by (simp add: deep_rows_def o_def demo_ns_def distinct_map inj_on_def)
  moreover have "?row k \<in> set deep_rows" using k by (auto simp: deep_rows_def)
  ultimately have "find (\<lambda>r. nr_id r = nr_id (?row k)) deep_rows = Some (?row k)" by (rule find_key_unique)
  then show ?thesis by (simp add: row_parent_def demo_ns_def)
qed

lemma deep_mem: "n \<in> nr_id ` set deep_rows \<longleftrightarrow> (\<exists>k < 65. n = link k)"
  by (auto simp: deep_rows_def demo_ns_def image_iff)

lemma deep_ancestors: "k < 65 \<Longrightarrow> d \<le> k \<Longrightarrow> link j \<in> set (cte_ancestors deep_rows d (link k)) \<Longrightarrow> j < 65 \<Longrightarrow> k < j + d"
proof (induction d arbitrary: k)
  case (Suc d)
  then have "j = k \<or> link j \<in> set (cte_ancestors deep_rows d (link (k - 1)))"
    by (auto simp: cte_ancestors_Suc deep_row_parent link_inj split: if_splits)
  then show ?case
  proof
    assume "link j \<in> set (cte_ancestors deep_rows d (link (k - 1)))"
    with Suc.IH [of "k - 1"] Suc.prems have "k - 1 < j + d" by simp
    with Suc.prems(2) show ?case by simp
  qed simp
qed simp

lemma deep_path: "k < 65 \<Longrightarrow> (link k, link 0) \<in> (parent_edges deep_rows)\<^sup>*"
proof (induction k)
  case (Suc k)
  then have "(link (Suc k), link k) \<in> parent_edges deep_rows" by (simp add: parent_edges_def deep_row_parent)
  with Suc show ?case by (auto intro: converse_rtrancl_into_rtrancl)
qed simp

lemma deep_acyclic: "acyclic (parent_edges deep_rows)"
proof -
  have "parent_edges deep_rows \<subseteq> (measure (\<lambda>n. of_char (hd n)))\<inverse>"
  proof (clarsimp simp: parent_edges_def)
    fix n m assume nm: "row_parent deep_rows n = Some m"
    then obtain k where "k < 65" "n = link k"
      using deep_mem [of n] by (cases "find (\<lambda>r. nr_id r = n) deep_rows") (auto simp: row_parent_def dest!: find_Some_mem)
    with nm have "k \<noteq> 0" "m = link (k - 1)" by (auto simp: deep_row_parent split: if_splits)
    with \<open>k < 65\<close> \<open>n = link k\<close> show "of_char (hd m) < (of_char (hd n) :: nat)"
      by (simp add: link_def take_bit_eq_mod)
  qed
  moreover have "acyclic ((measure (\<lambda>n. of_char (hd n) :: nat))\<inverse>)" by (simp add: acyclic_converse wf_acyclic)
  ultimately show ?thesis by (rule acyclic_subset [rotated])
qed

text \<open>
  Property C23 (deep_cycle_accepted). The bound of 64 in the recursive query is not only a guard
  against loops that are already there: in a chain of 65 namespaces the root can be made a child of
  the last one, which \<^verbatim>\<open>SetNamespaceParent\<close> accepts although it closes a cycle.
\<close>

theorem deep_cycle_accepted:
  "hierarchy_ok (demo_db deep_rows) \<and>
   fst (st_SetNamespaceParent (link 0) (Some (link 64)) actor (demo_db deep_rows)) = Inr () \<and>
   \<not> hierarchy_ok (snd (st_SetNamespaceParent (link 0) (Some (link 64)) actor (demo_db deep_rows)))"
proof -
  let ?s = "demo_db deep_rows" and ?t = "parent_change (link 0) (Some (link 64)) actor (demo_db deep_rows)"
  have rows: "db_namespaces ?s = deep_rows" "db_faults ?s = []" by (simp_all add: demo_db_def)
  have "link 0 \<notin> set (cte_ancestors deep_rows 64 (link 64))" using deep_ancestors [of 64 64 0] by auto
  moreover have mem: "link 0 \<in> nr_id ` set deep_rows" "link 64 \<in> nr_id ` set deep_rows" unfolding deep_mem by (rule exI [of _ 0], simp) (rule exI [of _ 64], simp)
  ultimately have "set_parent_body (link 0) (Some (link 64)) actor ?s = (Inr (), ?t)"
    by (simp add: set_parent_body_nofault rows link_inj)
  then have eq: "st_SetNamespaceParent (link 0) (Some (link 64)) actor ?s = (Inr (), ?t)"
    by (simp add: st_SetNamespaceParent_def transaction_nofault rows parent_change_def)
  have par: "row_parent (db_namespaces ?t) n = (if n = link 0 then Some (link 64) else row_parent deep_rows n)" for n
    by (simp add: parent_change_def rows row_parent_set_parent_rows mem)
  have "parent_edges deep_rows \<subseteq> parent_edges (db_namespaces ?t)"
    by (auto simp: parent_edges_def par deep_row_parent)
  then have "(link 64, link 0) \<in> (parent_edges (db_namespaces ?t))\<^sup>*" using deep_path [of 64] rtrancl_mono by auto
  moreover have "(link 0, link 64) \<in> parent_edges (db_namespaces ?t)" by (simp add: parent_edges_def par)
  ultimately have "\<not> hierarchy_ok ?t" by (auto simp: hierarchy_ok_def acyclic_def dest: rtrancl_into_trancl2)
  with eq deep_acyclic rows show ?thesis by (simp add: hierarchy_ok_def)
qed

end
