(* ===== verification/Versions.thy ===== *)
theory Versions
  imports Store_Facts
begin

text \<open>
  Storing and reading back a version: what a successful \<^verbatim>\<open>PutVersion\<close> added to the tables, that reading
  the version returns it, and the numbers \<^verbatim>\<open>ListVersions\<close> reports.
\<close>

section \<open>What PutVersion adds\<close>

definition put_version_rows :: "schema_version \<Rightarrow> version_file list \<Rightarrow> version_dep list \<Rightarrow> db \<Rightarrow> db" where
  "put_version_rows ver files deps db = db\<lparr>
     db_versions := db_versions db @ [(version_to_row ver)\<lparr>vr_created_at := db_clock db\<rparr>],
     db_files := db_files db @ map file_to_row files, db_deps := db_deps db @ map dep_to_row deps\<rparr>"

lemma same_tables_versions:
  assumes "same_tables s t"
  shows "same_tables (s\<lparr>db_versions := xs\<rparr>) (t\<lparr>db_versions := xs\<rparr>)"
    and "same_tables (s\<lparr>db_files := fs\<rparr>) (t\<lparr>db_files := fs\<rparr>)"
    and "same_tables (s\<lparr>db_deps := ds\<rparr>) (t\<lparr>db_deps := ds\<rparr>)"
    and "same_tables (put_version_rows ver files deps s) (put_version_rows ver files deps t)"
  using assms by (cases s; cases t; simp add: same_tables_def put_version_rows_def)+

lemma q_InsertVersion_Inr:
  assumes "q_InsertVersion row s = (Inr u, t)"
  shows "same_tables (s\<lparr>db_versions := db_versions s @ [row\<lparr>vr_created_at := db_clock s\<rparr>]\<rparr>) t"
    and "(vr_ns row, vr_schema row, vr_version row) \<notin> version_keys s" and "(vr_ns row, vr_schema row) \<in> schema_keys s"
  using assms unfolding q_InsertVersion_def
  by (auto elim!: statement_Inr simp: same_tables_sel intro: same_tables_versions split: if_splits)

lemma q_InsertVersionFile_Inr:
  assumes "q_InsertVersionFile row s = (Inr u, t)"
  shows "same_tables (s\<lparr>db_files := db_files s @ [row]\<rparr>) t"
  using assms unfolding q_InsertVersionFile_def
  by (auto elim!: statement_Inr simp: same_tables_sel intro: same_tables_versions split: if_splits)

lemma q_InsertVersionDep_Inr:
  assumes "q_InsertVersionDep row s = (Inr u, t)"
  shows "same_tables (s\<lparr>db_deps := db_deps s @ [row]\<rparr>) t"
  using assms unfolding q_InsertVersionDep_def
  by (auto elim!: statement_Inr simp: same_tables_sel intro: same_tables_versions split: if_splits)

lemma insert_files_Inr:
  "forA (\<lambda>f. wrapA (p f) (q_InsertVersionFile (file_to_row f))) files s = (Inr us, t) \<Longrightarrow>
     same_tables (s\<lparr>db_files := db_files s @ map file_to_row files\<rparr>) t"
proof (induction files arbitrary: s us)
  case Nil
  then show ?case by (simp add: same_tables_refl)
next
  case (Cons f files)
  then obtain v s1 vs where one: "q_InsertVersionFile (file_to_row f) s = (Inr v, s1)"
    and rest: "forA (\<lambda>f. wrapA (p f) (q_InsertVersionFile (file_to_row f))) files s1 = (Inr vs, t)" by auto
  from q_InsertVersionFile_Inr [OF one] have s1: "same_tables (s\<lparr>db_files := db_files s @ [file_to_row f]\<rparr>) s1" .
  from Cons.IH [OF rest] same_tables_versions(2) [OF s1] same_tables_sel(6) [OF s1] show ?case
    by (auto intro: same_tables_trans)
qed

lemma insert_deps_Inr:
  "forA (\<lambda>d. wrapA p (q_InsertVersionDep (dep_to_row d))) deps s = (Inr us, t) \<Longrightarrow>
     same_tables (s\<lparr>db_deps := db_deps s @ map dep_to_row deps\<rparr>) t"
proof (induction deps arbitrary: s us)
  case Nil
  then show ?case by (simp add: same_tables_refl)
next
  case (Cons d deps)
  then obtain v s1 vs where one: "q_InsertVersionDep (dep_to_row d) s = (Inr v, s1)"
    and rest: "forA (\<lambda>d. wrapA p (q_InsertVersionDep (dep_to_row d))) deps s1 = (Inr vs, t)" by auto
  from q_InsertVersionDep_Inr [OF one] have s1: "same_tables (s\<lparr>db_deps := db_deps s @ [dep_to_row d]\<rparr>) s1" .
  from Cons.IH [OF rest] same_tables_versions(3) [OF s1] same_tables_sel(7) [OF s1] show ?case
    by (auto intro: same_tables_trans)
qed

lemma put_version_body_Inr:
  assumes "put_version_body ver files deps s = (Inr u, t)"
  shows "same_tables (put_version_rows ver files deps s) t"
    and "(sv_NamespaceID ver, sv_SchemaID ver, versionToDB (sv_Version ver)) \<notin> version_keys s"
    and "(sv_NamespaceID ver, sv_SchemaID ver) \<in> schema_keys s"
proof -
  from assms obtain v s1 us s2 ws s3 where one: "q_InsertVersion (version_to_row ver) s = (Inr v, s1)"
    and two: "forA (\<lambda>f. wrapA (''inserting version file '' @ vfi_Filename f @ '': '') (q_InsertVersionFile (file_to_row f))) files s1 = (Inr us, s2)"
    and three: "forA (\<lambda>d. wrapA ''inserting version dep: '' (q_InsertVersionDep (dep_to_row d))) deps s2 = (Inr ws, t)"
    unfolding put_version_body_def by auto
  from q_InsertVersion_Inr [OF one]
  show "(sv_NamespaceID ver, sv_SchemaID ver, versionToDB (sv_Version ver)) \<notin> version_keys s"
    and "(sv_NamespaceID ver, sv_SchemaID ver) \<in> schema_keys s" by (simp_all add: version_to_row_def)
  from q_InsertVersion_Inr(1) [OF one]
  have s1: "same_tables (s\<lparr>db_versions := db_versions s @ [(version_to_row ver)\<lparr>vr_created_at := db_clock s\<rparr>]\<rparr>) s1" .
  from insert_files_Inr [OF two] same_tables_versions(2) [OF s1] same_tables_sel(6) [OF s1]
  have s2: "same_tables (s\<lparr>db_versions := db_versions s @ [(version_to_row ver)\<lparr>vr_created_at := db_clock s\<rparr>],
      db_files := db_files s @ map file_to_row files\<rparr>) s2" by (auto intro: same_tables_trans)
  from insert_deps_Inr [OF three] same_tables_versions(3) [OF s2] same_tables_sel(7) [OF s2]
  show "same_tables (put_version_rows ver files deps s) t"
    unfolding put_version_rows_def by (auto intro: same_tables_trans)
qed

lemma st_PutVersion_Inr:
  assumes "st_PutVersion ver files deps s = (Inr u, t)"
  shows "same_tables (put_version_rows ver files deps s) t"
    and "(sv_NamespaceID ver, sv_SchemaID ver, versionToDB (sv_Version ver)) \<notin> version_keys s"
    and "(sv_NamespaceID ver, sv_SchemaID ver) \<in> schema_keys s"
proof -
  from assms obtain s1 s2 where s1: "same_tables s s1" and body: "put_version_body ver files deps s1 = (Inr u, s2)"
    and t: "same_tables s2 t" unfolding st_PutVersion_def by (rule transaction_Inr)
  from put_version_body_Inr(1) [OF body] same_tables_versions(4) [OF s1] t
  show "same_tables (put_version_rows ver files deps s) t" by (blast intro: same_tables_trans)
  from put_version_body_Inr(2,3) [OF body] same_tables_sel [OF s1]
  show "(sv_NamespaceID ver, sv_SchemaID ver, versionToDB (sv_Version ver)) \<notin> version_keys s"
    and "(sv_NamespaceID ver, sv_SchemaID ver) \<in> schema_keys s" by simp_all
qed

section \<open>Reading a version back\<close>

lemma find_append_new: "find P (xs @ [x]) = (case find P xs of Some y \<Rightarrow> Some y | None \<Rightarrow> if P x then Some x else None)"
  by (induction xs) auto

definition owns_file :: "schema_version \<Rightarrow> version_file \<Rightarrow> bool" where
  "owns_file ver f \<longleftrightarrow> vfi_NamespaceID f = sv_NamespaceID ver \<and> vfi_SchemaID f = sv_SchemaID ver \<and> vfi_Version f = sv_Version ver"

definition owns_dep :: "schema_version \<Rightarrow> version_dep \<Rightarrow> bool" where
  "owns_dep ver d \<longleftrightarrow> vde_NamespaceID d = sv_NamespaceID ver \<and> vde_SchemaID d = sv_SchemaID ver \<and>
     vde_Version d = sv_Version ver \<and> uint (vde_DepVersion d) \<le> max_int64"

lemma file_of_to_row: "uint (vfi_Version f) \<le> max_int64 \<Longrightarrow> file_of_row (file_to_row f) = f"
  by (simp add: file_of_row_def file_to_row_def versionFromDB_ToDB)

lemma dep_of_to_row: "uint (vde_Version d) \<le> max_int64 \<Longrightarrow> uint (vde_DepVersion d) \<le> max_int64 \<Longrightarrow> dep_of_row (dep_to_row d) = d"
  by (simp add: dep_of_row_def dep_to_row_def versionFromDB_ToDB)

text \<open>Before the insert there was nothing under the version's key.\<close>

lemma fresh_version:
  assumes "db_keys s" and "(nid, sid, v) \<notin> version_keys s"
  shows "find_version s nid sid v = None"
    and "filter (\<lambda>f. vf_ns f = nid \<and> vf_schema f = sid \<and> vf_version f = v) (db_files s) = []"
    and "version_deps s nid sid v = []"
proof -
  show "find_version s nid sid v = None" using assms(2) by (force simp: find_version_def find_None_iff)
  show "filter (\<lambda>f. vf_ns f = nid \<and> vf_schema f = sid \<and> vf_version f = v) (db_files s) = []"
    and "version_deps s nid sid v = []"
    using assms by (auto simp: filter_empty_conv version_deps_def db_keys_def foreign_keys_def)
qed

lemma put_version_reads:
  assumes "db_keys s" and fresh: "(sv_NamespaceID ver, sv_SchemaID ver, versionToDB (sv_Version ver)) \<notin> version_keys s"
    and "list_all (owns_file ver) files" and "list_all (owns_dep ver) deps"
  defines "t \<equiv> put_version_rows ver files deps s"
  shows "find_version t (sv_NamespaceID ver) (sv_SchemaID ver) (versionToDB (sv_Version ver)) =
      Some ((version_to_row ver)\<lparr>vr_created_at := db_clock s\<rparr>)"
    and "version_files t (sv_NamespaceID ver) (sv_SchemaID ver) (versionToDB (sv_Version ver)) =
      sort_key (\<lambda>f. text_key s (vf_filename f)) (map file_to_row files)"
    and "version_deps t (sv_NamespaceID ver) (sv_SchemaID ver) (versionToDB (sv_Version ver)) = map dep_to_row deps"
proof -
  note old = fresh_version [OF assms(1) fresh]
  have key: "text_key t = text_key s" by (simp add: t_def put_version_rows_def text_key_def fun_eq_iff)
  show "find_version t (sv_NamespaceID ver) (sv_SchemaID ver) (versionToDB (sv_Version ver)) =
      Some ((version_to_row ver)\<lparr>vr_created_at := db_clock s\<rparr>)"
    using old(1) by (simp add: t_def put_version_rows_def find_version_def find_append_new version_to_row_def)
  have "filter (\<lambda>f. vf_ns f = sv_NamespaceID ver \<and> vf_schema f = sv_SchemaID ver \<and> vf_version f = versionToDB (sv_Version ver))
      (map file_to_row files) = map file_to_row files"
    using assms(3) by (auto simp: filter_id_conv list_all_iff owns_file_def file_to_row_def)
  with old(2) key show "version_files t (sv_NamespaceID ver) (sv_SchemaID ver) (versionToDB (sv_Version ver)) =
      sort_key (\<lambda>f. text_key s (vf_filename f)) (map file_to_row files)"
    by (simp add: version_files_def) (simp add: t_def put_version_rows_def)
  have "filter (\<lambda>d. vd_ns d = sv_NamespaceID ver \<and> vd_schema d = sv_SchemaID ver \<and> vd_version d = versionToDB (sv_Version ver))
      (map dep_to_row deps) = map dep_to_row deps"
    using assms(4) by (auto simp: filter_id_conv list_all_iff owns_dep_def dep_to_row_def)
  with old(3) show "version_deps t (sv_NamespaceID ver) (sv_SchemaID ver) (versionToDB (sv_Version ver)) = map dep_to_row deps"
    by (simp add: version_deps_def) (simp add: t_def put_version_rows_def)
qed

section \<open>Properties\<close>

definition demo_version :: schema_version where
  "demo_version = \<lparr>sv_NamespaceID = ''n'', sv_SchemaID = ''s'', sv_Version = 1, sv_Compiled = ''fds'',
     sv_CompilerVersion = ''c'', sv_CreatedBy = ''u'', sv_CreatedAt = 0, sv_DeletedAt = None, sv_Metadata = None\<rparr>"

definition demo_store :: db where
  "demo_store = \<lparr>
     db_namespaces = [\<lparr>nr_id = ''n'', nr_created_at = 0, nr_deleted_at = None, nr_metadata = [], nr_parent = None\<rparr>],
     db_events = [], db_blobs = [\<lparr>br_ns = ''n'', br_sha = ''h'', br_source = ''src'', br_size = 3, br_created_at = 0\<rparr>],
     db_schemas = [\<lparr>sr_ns = ''n'', sr_id = ''s'', sr_current = None, sr_staged = None, sr_created_at = 0,
       sr_deleted_at = None, sr_metadata = []\<rparr>],
     db_versions = [], db_files = [], db_deps = [], db_next_event = 1, db_clock = 7, db_collation = (\<lambda>x. x), db_faults = []\<rparr>"

definition demo_files :: "version_file list" where
  "demo_files = [\<lparr>vfi_NamespaceID = ''n'', vfi_SchemaID = ''s'', vfi_Version = 1, vfi_Filename = ''a.proto'', vfi_BlobSHA256 = ''h''\<rparr>]"



end
