(* ===== verification/Registry.thy ===== *)
theory Registry
  imports Compat Conflict Compiler Namespace Store
begin

text \<open>
  \<^verbatim>\<open>registry.go\<close> and \<^verbatim>\<open>authz/authz.go\<close>: the orchestrator that ties the compiler, the store, the
  namespaces in memory, the compatibility check and the authorizer together. The state is the
  database and the namespaces in memory; every method is an action on it that may fail half-way.
  An authorizer is a third-party policy, called with the principal of the request: it is a record of
  its decisions for that principal, \<open>None\<close> to permit and an error to deny.
\<close>

section \<open>Authorizers, configuration and state\<close>

record authorizer =
  CanCreateNamespace :: "string \<Rightarrow> string option \<Rightarrow> error option"
  CanSetNamespaceParent :: "string \<Rightarrow> string option \<Rightarrow> error option"
  CanPublish :: "string \<Rightarrow> string \<Rightarrow> error option"
  CanPromote :: "string \<Rightarrow> error option"
  CanRebase :: "string \<Rightarrow> string \<Rightarrow> error option"

definition AllowAll :: authorizer where
  "AllowAll = \<lparr>CanCreateNamespace = \<lambda>_ _. None, CanSetNamespaceParent = \<lambda>_ _. None, CanPublish = \<lambda>_ _. None,
     CanPromote = \<lambda>_. None, CanRebase = \<lambda>_ _. None\<rparr>"

text \<open>\<open>re_lib\<close> stands for the libraries the registry is linked with.\<close>

record registry_env =
  re_lib :: lib
  re_compiler :: compiler
  re_authz :: authorizer
  re_authzExplicit :: bool

datatype registry_option = WithCompiler compiler | WithAuthorizer authorizer

fun apply_registry_option :: "registry_option \<Rightarrow> registry_env \<Rightarrow> registry_env" where
  "apply_registry_option (WithCompiler c) r = r\<lparr>re_compiler := c\<rparr>"
| "apply_registry_option (WithAuthorizer a) r = r\<lparr>re_authz := a, re_authzExplicit := True\<rparr>"

record registry =
  reg_db :: db
  reg_mem :: memory

definition registry_New :: "lib \<Rightarrow> db \<Rightarrow> registry_option list \<Rightarrow> registry_env \<times> registry" where
  "registry_New L s opts =
     (fold apply_registry_option opts
        \<lparr>re_lib = L, re_compiler = compiler_New [], re_authz = AllowAll, re_authzExplicit = False\<rparr>,
      \<lparr>reg_db = s, reg_mem = []\<rparr>)"

definition BuiltinsNamespace :: string where
  "BuiltinsNamespace = ''__builtins__''"

abbreviation in_store :: "(db, 'a) act \<Rightarrow> (registry, 'a) act" where
  "in_store \<equiv> zoomA reg_db (\<lambda>d r. r\<lparr>reg_db := d\<rparr>)"

abbreviation in_memory :: "(memory \<Rightarrow> memory) \<Rightarrow> (registry, unit) act" where
  "in_memory f \<equiv> modifyA (\<lambda>r. r\<lparr>reg_mem := f (reg_mem r)\<rparr>)"

text \<open>An authorization gate: \<^verbatim>\<open>if err := r.authz.CanX(...); err != nil { return err }\<close>.\<close>

definition gate :: "error option \<Rightarrow> ('s, unit) act" where
  "gate decision = (case decision of Some e \<Rightarrow> failA e | None \<Rightarrow> retA ())"

section \<open>Gathering sources\<close>

text \<open>The two inner loops shared by the gather functions; \<open>msg\<close> is the prefix of the error.\<close>

definition schema_sources :: "string \<Rightarrow> (current_schema \<Rightarrow> version_file \<Rightarrow> string) \<Rightarrow> current_schema \<Rightarrow> (db, dep_source list) act" where
  "schema_sources nid msg cs = forA (\<lambda>f.
     bindA (wrapA (msg cs f) (st_GetBlob nid (vfi_BlobSHA256 f))) (\<lambda>blob.
     retA \<lparr>ds_Namespace = nid, ds_SchemaID = cs_SchemaID cs, ds_Version = cs_Version cs,
           ds_Filename = vfi_Filename f, ds_Source = sb_OriginalSource blob\<rparr>)) (cs_Files cs)"

definition gather_sources :: "string \<Rightarrow> (current_schema \<Rightarrow> version_file \<Rightarrow> string) \<Rightarrow> current_schema list \<Rightarrow> (db, dep_source list) act" where
  "gather_sources nid msg schemas = bindA (forA (schema_sources nid msg) schemas) (\<lambda>dss. retA (concat dss))"

definition gatherDeps :: "string \<Rightarrow> string \<Rightarrow> (db, dep_source list) act" where
  "gatherDeps nid sid =
     bindA (st_LoadNamespaceProposed nid) (\<lambda>proposed.
     gather_sources nid (\<lambda>cs f. ''fetching blob for '' @ cs_SchemaID cs @ ''/'' @ vfi_Filename f @ '': '')
       (filter (\<lambda>cs. cs_SchemaID cs \<noteq> sid) proposed))"

definition gather_tier :: "string \<Rightarrow> (db, chain_tier) act" where
  "gather_tier ancestorID =
     bindA (wrapA (''loading current state of ancestor '' @ ancestorID @ '': '') (st_LoadNamespaceCurrent ancestorID)) (\<lambda>currents.
     bindA (gather_sources ancestorID
       (\<lambda>cs f. ''fetching blob '' @ vfi_Filename f @ '' from ancestor '' @ ancestorID @ '': '') currents) (\<lambda>files.
     retA \<lparr>ct_NamespaceID = ancestorID, ct_Files = files\<rparr>))"

definition gatherChainTiers :: "string \<Rightarrow> (registry, chain_tier list) act" where
  "gatherChainTiers nid =
     bindA (getA (\<lambda>r. Chain (reg_mem r) nid)) (\<lambda>chain.
     if length chain \<le> 1 then retA [] else in_store (forA gather_tier (tl chain)))"

definition gatherBuiltins :: "(db, dep_source list) act" where
  "gatherBuiltins =
     bindA (st_LoadNamespaceCurrent BuiltinsNamespace) (\<lambda>current.
     if length current = 0 then retA []
     else gather_sources BuiltinsNamespace
       (\<lambda>cs f. ''fetching builtin blob for '' @ cs_SchemaID cs @ ''/'' @ vfi_Filename f @ '': '') current)"

section \<open>Checks of a publish\<close>

definition ancestor_conflicts :: "snapshot \<Rightarrow> namespace \<Rightarrow> fqn_conflict list" where
  "ancestor_conflicts child anc = concat (map (\<lambda>schemaID.
     case Current schemaID anc of None \<Rightarrow> [] | Some snap \<Rightarrow> DetectFQNConflicts (Some child) (Some snap))
     (SchemaIDs anc))"

fun first_conflict :: "memory \<Rightarrow> snapshot \<Rightarrow> string list \<Rightarrow> unit result" where
  "first_conflict mem child [] = Inr ()"
| "first_conflict mem child (a # as) =
     (let allConflicts = (case Get mem a of None \<Rightarrow> [] | Some anc \<Rightarrow> ancestor_conflicts child anc) in
      if length allConflicts > 0 then Inl (ConflictError a allConflicts) else first_conflict mem child as)"

definition checkAncestorFQNConflicts :: "memory \<Rightarrow> snapshot \<Rightarrow> string \<Rightarrow> unit result" where
  "checkAncestorFQNConflicts mem child nid =
     (let chain = Chain mem nid in if length chain \<le> 1 then Inr () else first_conflict mem child (tl chain))"

text \<open>Every error of \<^verbatim>\<open>isUnchanged\<close> is answered with \<^verbatim>\<open>false, nil\<close>.\<close>

definition isUnchanged :: "lib \<Rightarrow> string \<Rightarrow> string \<Rightarrow> string \<Rightarrow> (db, bool) act" where
  "isUnchanged L nid sid fingerprint = catchA
     (bindA (st_GetSchema nid sid) (\<lambda>schema.
      case (case ss_StagedVersion schema of None \<Rightarrow> ss_CurrentVersion schema | Some v \<Rightarrow> Some v) of
        None \<Rightarrow> retA False
      | Some checkVersion \<Rightarrow>
          bindA (st_GetVersionFiles nid sid checkVersion) (\<lambda>files.
          retA (ComputeFingerprint L (map (\<lambda>f. \<lparr>fr_Filename = vfi_Filename f, fr_BlobSHA256 = vfi_BlobSHA256 f,
            fr_OriginalSource = []\<rparr>) files) = fingerprint))))
     (\<lambda>_. retA False)"

definition ensureNamespaceAndSchema :: "string \<Rightarrow> string \<Rightarrow> (db, unit) act" where
  "ensureNamespaceAndSchema nid sid =
     thenA (catchA (thenA (st_GetNamespace nid) (retA ())) (\<lambda>_.
        catchA (st_CreateNamespace \<lparr>sn_ID = nid, sn_CreatedAt = 0, sn_DeletedAt = None, sn_Metadata = None, sn_ParentNamespaceID = None\<rparr>)
          (\<lambda>err. catchA (thenA (st_GetNamespace nid) (retA ())) (\<lambda>_. failA (Wrapf ''creating namespace: '' err)))))
     (catchA (thenA (st_GetSchema nid sid) (retA ())) (\<lambda>_.
        catchA (st_CreateSchema nid sid None)
          (\<lambda>err. catchA (thenA (st_GetSchema nid sid) (retA ())) (\<lambda>_. failA (Wrapf ''creating schema: '' err)))))"

section \<open>Publish\<close>

record publish_request =
  pq_NamespaceID :: string
  pq_SchemaID :: string
  pq_Sources :: "(string \<times> bytes) list"
  pq_CreatedBy :: string
  pq_Metadata :: "metadata option"
  pq_Force :: bool

record publish_result =
  pr_Version :: u64
  pr_Fingerprint :: string
  pr_Snapshot :: "snapshot option"
  pr_NoChange :: bool

definition shadow_check :: "lib \<Rightarrow> publish_request \<Rightarrow> unit result" where
  "shadow_check L req =
     (if pq_Force req then Inr ()
      else case find (IsWellKnownType L) (map fst (pq_Sources req)) of
        Some filename \<Rightarrow> Inl (Errorf (''file '' @ fmt_q filename @ '' shadows a well-known type; use force=true to override''))
      | None \<Rightarrow> Inr ())"

definition next_version :: "u64 list \<Rightarrow> u64" where
  "next_version versions = (if length versions > 0 then last versions + 1 else 1)"

definition put_blobs :: "string \<Rightarrow> file_result list \<Rightarrow> (db, unit) act" where
  "put_blobs nid files = thenA (forA (\<lambda>f. wrapA (''storing blob for '' @ fr_Filename f @ '': '')
     (st_PutBlob \<lparr>sb_NamespaceID = nid, sb_SHA256 = fr_BlobSHA256 f, sb_OriginalSource = fr_OriginalSource f,
        sb_SizeBytes = int (length (fr_OriginalSource f)), sb_CreatedAt = 0\<rparr>)) files) (retA ())"

definition version_files_of :: "publish_request \<Rightarrow> u64 \<Rightarrow> file_result list \<Rightarrow> version_file list" where
  "version_files_of req v files = map (\<lambda>f. \<lparr>vfi_NamespaceID = pq_NamespaceID req, vfi_SchemaID = pq_SchemaID req,
     vfi_Version = v, vfi_Filename = fr_Filename f, vfi_BlobSHA256 = fr_BlobSHA256 f\<rparr>) files"

definition version_deps_of :: "publish_request \<Rightarrow> u64 \<Rightarrow> dep list \<Rightarrow> version_dep list" where
  "version_deps_of req v deps = map (\<lambda>d. \<lparr>vde_NamespaceID = pq_NamespaceID req, vde_SchemaID = pq_SchemaID req,
     vde_Version = v, vde_DepNamespaceID = dep_NamespaceID d, vde_DepSchemaID = dep_SchemaID d,
     vde_DepFilename = dep_Filename d, vde_DepVersion = dep_Version d\<rparr>) deps"

definition version_of :: "lib \<Rightarrow> publish_request \<Rightarrow> u64 \<Rightarrow> bytes \<Rightarrow> schema_version" where
  "version_of L req v compiled = \<lparr>sv_NamespaceID = pq_NamespaceID req, sv_SchemaID = pq_SchemaID req, sv_Version = v,
     sv_Compiled = compiled, sv_CompilerVersion = Version L, sv_CreatedBy = pq_CreatedBy req, sv_CreatedAt = 0,
     sv_DeletedAt = None, sv_Metadata = pq_Metadata req\<rparr>"

text \<open>The first half: everything before the first write of the new version.\<close>

definition publish_compile :: "registry_env \<Rightarrow> publish_request \<Rightarrow> (registry, u64 \<times> compile_result) act" where
  "publish_compile env req =
     (let nid = pq_NamespaceID req; sid = pq_SchemaID req in
     thenA (if length (pq_Sources req) = 0 then failA (Errorf ''no source files provided'') else retA ())
     (thenA (pureA (shadow_check (re_lib env) req))
     (thenA (in_store (ensureNamespaceAndSchema nid sid))
     (thenA (in_memory (GetOrCreate nid))
     (bindA (wrapA ''gathering dependencies: '' (in_store (gatherDeps nid sid))) (\<lambda>deps.
     bindA (wrapA ''gathering parent chain: '' (gatherChainTiers nid)) (\<lambda>chainTiers.
     bindA (if nid \<noteq> BuiltinsNamespace then wrapA ''gathering builtins: '' (in_store gatherBuiltins) else retA []) (\<lambda>builtins.
     bindA (wrapA ''listing versions: '' (in_store (st_ListVersions nid sid))) (\<lambda>versions.
     bindA (wrapA ''compilation failed: '' (pureA (Compile (re_lib env) (re_compiler env) (next_version versions)
       (pq_Sources req) deps chainTiers builtins))) (\<lambda>result.
     bindA (getA (\<lambda>r. checkAncestorFQNConflicts (reg_mem r) (cr_Snapshot result) nid)) (\<lambda>check.
     thenA (pureA check) (retA (next_version versions, result)))))))))))))"

definition publish_store :: "registry_env \<Rightarrow> publish_request \<Rightarrow> u64 \<Rightarrow> compile_result \<Rightarrow> (registry, publish_result) act" where
  "publish_store env req v result =
     (let nid = pq_NamespaceID req; sid = pq_SchemaID req in
     thenA (in_store (put_blobs nid (cr_Files result)))
     (thenA (wrapA ''storing version: '' (in_store (st_PutVersion (version_of (re_lib env) req v (cr_Compiled result))
        (version_files_of req v (cr_Files result)) (version_deps_of req v (cr_Deps result)))))
     (thenA (wrapA ''staging version: '' (in_store (st_SetStaged nid sid v)))
     (thenA (in_memory (on_namespace nid (SetStaged sid (cr_Snapshot result))))
     (retA \<lparr>pr_Version = v, pr_Fingerprint = ComputeFingerprint (re_lib env) (cr_Files result),
        pr_Snapshot = Some (cr_Snapshot result), pr_NoChange = False\<rparr>)))))"

definition publishInternal :: "registry_env \<Rightarrow> publish_request \<Rightarrow> bool \<Rightarrow> (registry, publish_result) act" where
  "publishInternal env req forceNewVersion =
     bindA (publish_compile env req) (\<lambda>(nextVersion, result).
     let fingerprint = ComputeFingerprint (re_lib env) (cr_Files result) in
     bindA (if forceNewVersion then retA False
            else in_store (isUnchanged (re_lib env) (pq_NamespaceID req) (pq_SchemaID req) fingerprint)) (\<lambda>noChange.
     if noChange then retA \<lparr>pr_Version = 0, pr_Fingerprint = fingerprint, pr_Snapshot = None, pr_NoChange = True\<rparr>
     else publish_store env req nextVersion result))"

definition Publish :: "registry_env \<Rightarrow> publish_request \<Rightarrow> (registry, publish_result) act" where
  "Publish env req = thenA (gate (CanPublish (re_authz env) (pq_NamespaceID req) (pq_SchemaID req)))
     (publishInternal env req False)"

section \<open>Promote, discard and roll back\<close>

definition promote_check :: "lib \<Rightarrow> string \<Rightarrow> namespace \<Rightarrow> string \<Rightarrow> unit result" where
  "promote_check L nid ns schemaID =
     (case Staged schemaID ns of
        None \<Rightarrow> Inr ()
      | Some staged \<Rightarrow>
          if (case Current schemaID ns of None \<Rightarrow> False | Some current \<Rightarrow> snap_version staged \<le> snap_version current) then Inr ()
          else let result = Check L (Current schemaID ns) staged in
            if result_OK result then Inr ()
            else Inl (Errorf (''compatibility check failed for '' @ nid @ ''/'' @ schemaID @ '': '' @ result_Error result)))"

definition Promote :: "registry_env \<Rightarrow> string \<Rightarrow> (registry, promoted_schema list) act" where
  "Promote env nid =
     thenA (gate (CanPromote (re_authz env) nid))
     (bindA (getA (\<lambda>r. Get (reg_mem r) nid)) (\<lambda>ns.
      case ns of
        None \<Rightarrow> failA (Errorf (''namespace '' @ nid @ '' not found''))
      | Some ns \<Rightarrow>
          thenA (pureA (mapE (promote_check (re_lib env) nid ns) (SchemaIDs ns)))
          (bindA (wrapA ''promoting: '' (in_store (st_Promote nid))) (\<lambda>promoted.
          thenA (in_memory (on_namespace nid (\<lambda>ns. snd (ns_Promote ns))))
          (retA promoted)))))"

definition DiscardStaging :: "string \<Rightarrow> (registry, unit) act" where
  "DiscardStaging nid =
     thenA (wrapA ''discarding staging: '' (in_store (st_DiscardStaging nid)))
     (in_memory (on_namespace nid ns_DiscardStaging))"

definition reg_Current :: "memory \<Rightarrow> string \<Rightarrow> string \<Rightarrow> snapshot option" where
  "reg_Current mem nid sid = (case Get mem nid of None \<Rightarrow> None | Some ns \<Rightarrow> Current sid ns)"

definition reg_Staged :: "memory \<Rightarrow> string \<Rightarrow> string \<Rightarrow> snapshot option" where
  "reg_Staged mem nid sid = (case Get mem nid of None \<Rightarrow> None | Some ns \<Rightarrow> Staged sid ns)"

text \<open>The target of a rollback, rebuilt from its stored descriptors and checked against the current version.\<close>

definition rollback_target :: "registry_env \<Rightarrow> string \<Rightarrow> string \<Rightarrow> u64 \<Rightarrow> bool \<Rightarrow> (registry, snapshot) act" where
  "rollback_target env nid sid version force =
     bindA (wrapA (''getting version '' @ fmt_u64 version @ '': '') (in_store (st_GetVersion nid sid version))) (\<lambda>ver.
     bindA (wrapA ''unmarshaling compiled descriptors: '' (pureA (libE (lib_Unmarshal (re_lib env) (sv_Compiled ver))))) (\<lambda>fds.
     bindA (wrapA ''building snapshot: '' (pureA (New (re_lib env) version fds))) (\<lambda>snap.
     bindA (getA (\<lambda>r. reg_Current (reg_mem r) nid sid)) (\<lambda>current.
     thenA (case (if force then None else current) of
          None \<Rightarrow> retA ()
        | Some cur \<Rightarrow> (let result = Check (re_lib env) (Some cur) snap in
            if result_OK result then retA ()
            else failA (Errorf (''rollback to version '' @ fmt_u64 version @ '' would break consumers of '' @ nid @ ''/'' @ sid
              @ '': '' @ result_Error result @ ''; pass force=true to override''))))
     (retA snap)))))"

definition Rollback :: "registry_env \<Rightarrow> string \<Rightarrow> string \<Rightarrow> u64 \<Rightarrow> bool \<Rightarrow> (registry, unit) act" where
  "Rollback env nid sid version force =
     bindA (rollback_target env nid sid version force) (\<lambda>snap.
     thenA (wrapA (''setting staged to version '' @ fmt_u64 version @ '': '') (in_store (st_SetStaged nid sid version)))
     (thenA (in_memory (GetOrCreate nid))
     (in_memory (on_namespace nid (SetStaged sid snap)))))"

section \<open>The hierarchy\<close>

definition GetNamespaceChain :: "string \<Rightarrow> (registry, string list) act" where
  "GetNamespaceChain nid =
     bindA (getA reg_mem) (\<lambda>mem.
     case Get mem nid of
       None \<Rightarrow> failA (Errorf (''namespace '' @ nid @ '' not found''))
     | Some _ \<Rightarrow> retA (Chain mem nid))"

record create_namespace_request =
  cn_NamespaceID :: string
  cn_ParentID :: "string option"
  cn_Metadata :: "metadata option"
  cn_ActorID :: string

definition CreateNamespace :: "registry_env \<Rightarrow> create_namespace_request \<Rightarrow> (registry, unit) act" where
  "CreateNamespace env req =
     (let nid = cn_NamespaceID req in
     thenA (gate (CanCreateNamespace (re_authz env) nid (cn_ParentID req)))
     (thenA (wrapA (''creating namespace '' @ nid @ '': '') (in_store (st_CreateNamespace
        \<lparr>sn_ID = nid, sn_CreatedAt = 0, sn_DeletedAt = None, sn_Metadata = cn_Metadata req, sn_ParentNamespaceID = None\<rparr>)))
     (thenA (in_memory (GetOrCreate nid))
     (case cn_ParentID req of
        None \<Rightarrow> retA ()
      | Some p \<Rightarrow>
          thenA (wrapA ''setting parent on new namespace: '' (in_store (st_SetNamespaceParent nid (Some p) (cn_ActorID req))))
          (thenA (in_memory (GetOrCreate p))
          (in_memory (SetParent nid (Some p))))))))"

definition SetNamespaceParent :: "registry_env \<Rightarrow> string \<Rightarrow> string option \<Rightarrow> string \<Rightarrow> (registry, unit) act" where
  "SetNamespaceParent env nid parent actor =
     thenA (gate (CanSetNamespaceParent (re_authz env) nid parent))
     (thenA (in_store (st_SetNamespaceParent nid parent actor))
     (thenA (in_memory (GetOrCreate nid))
     (case parent of
        None \<Rightarrow> in_memory (SetParent nid None)
      | Some p \<Rightarrow> thenA (in_memory (GetOrCreate p)) (in_memory (SetParent nid (Some p))))))"

section \<open>Rebase\<close>

record pin_status =
  pin_ParentNamespaceID :: string
  pin_DepSchemaID :: string
  pin_DepFilename :: string
  pin_PinnedVersion :: u64
  pin_CurrentVersion :: u64

record rebase_status =
  rs_PinStatuses :: "pin_status list"
  rs_RebaseAvailable :: bool

definition pin_status_of :: "version_dep \<Rightarrow> (db, pin_status) act" where
  "pin_status_of d =
     bindA (catchA (bindA (st_GetSchema (vde_DepNamespaceID d) (vde_DepSchemaID d)) (\<lambda>schema.
        retA (case ss_CurrentVersion schema of None \<Rightarrow> 0 | Some v \<Rightarrow> v))) (\<lambda>_. retA 0)) (\<lambda>currentVersion.
     retA \<lparr>pin_ParentNamespaceID = vde_DepNamespaceID d, pin_DepSchemaID = vde_DepSchemaID d,
           pin_DepFilename = vde_DepFilename d, pin_PinnedVersion = vde_DepVersion d,
           pin_CurrentVersion = currentVersion\<rparr>)"

definition GetRebaseStatus :: "string \<Rightarrow> string \<Rightarrow> (registry, rebase_status) act" where
  "GetRebaseStatus nid sid =
     bindA (getA (\<lambda>r. Get (reg_mem r) nid)) (\<lambda>ns.
     case ns of
       None \<Rightarrow> failA (Errorf (''namespace '' @ nid @ '' not found''))
     | Some ns \<Rightarrow> (case Current sid ns of
         None \<Rightarrow> failA (Errorf (''schema '' @ nid @ ''/'' @ sid @ '' has no current version''))
       | Some cur \<Rightarrow>
           bindA (wrapA (''loading deps for '' @ nid @ ''/'' @ sid @ ''@'' @ fmt_u64 (snap_version cur) @ '': '')
             (in_store (st_GetVersionDeps nid sid (snap_version cur)))) (\<lambda>deps.
           bindA (in_store (forA pin_status_of (filter (\<lambda>d. vde_DepNamespaceID d \<noteq> nid) deps))) (\<lambda>pins.
           retA \<lparr>rs_PinStatuses = pins, rs_RebaseAvailable = list_ex (\<lambda>p. pin_CurrentVersion p > pin_PinnedVersion p) pins\<rparr>))))"

text \<open>The map \<^verbatim>\<open>sources[filename] = source\<close> filled in a loop.\<close>

definition fetch_sources :: "(version_file \<Rightarrow> string) \<Rightarrow> string \<Rightarrow> version_file list \<Rightarrow> (db, (string \<times> bytes) list) act" where
  "fetch_sources msg nid files =
     bindA (forA (\<lambda>f. bindA (wrapA (msg f) (st_GetBlob nid (vfi_BlobSHA256 f))) (\<lambda>blob.
        retA (vfi_Filename f, sb_OriginalSource blob))) files) (\<lambda>pairs.
     retA (fold (\<lambda>(k, v). AList.update k v) pairs []))"

definition Rebase :: "registry_env \<Rightarrow> string \<Rightarrow> string \<Rightarrow> string \<Rightarrow> (registry, publish_result) act" where
  "Rebase env nid sid actor =
     thenA (gate (CanRebase (re_authz env) nid ''''))
     (bindA (getA (\<lambda>r. Get (reg_mem r) nid)) (\<lambda>ns.
     case ns of
       None \<Rightarrow> failA (Errorf (''namespace '' @ nid @ '' not found''))
     | Some ns \<Rightarrow> (case Current sid ns of
         None \<Rightarrow> failA (Errorf (''schema '' @ nid @ ''/'' @ sid @ '' has no current version to rebase''))
       | Some cur \<Rightarrow>
           bindA (wrapA ''loading version files: '' (in_store (st_GetVersionFiles nid sid (snap_version cur)))) (\<lambda>files.
           bindA (in_store (fetch_sources (\<lambda>f. ''loading blob '' @ vfi_BlobSHA256 f @ '': '') nid files)) (\<lambda>sources.
           publishInternal env \<lparr>pq_NamespaceID = nid, pq_SchemaID = sid, pq_Sources = sources, pq_CreatedBy = actor,
              pq_Metadata = Some [(''rebased_from_version'', fmt_u64 (snap_version cur))], pq_Force = False\<rparr> True)))))"

section \<open>Recovery at start-up\<close>

definition buildSnapshot :: "registry_env \<Rightarrow> current_schema \<Rightarrow> string \<Rightarrow> (registry, snapshot) act" where
  "buildSnapshot env cs compilerVer =
     (let L = re_lib env; nid = cs_NamespaceID cs in
     if cs_CompilerVersion cs = compilerVer then
       bindA (wrapA ''unmarshaling compiled: '' (pureA (libE (lib_Unmarshal L (cs_Compiled cs))))) (\<lambda>fds.
       pureA (New L (cs_Version cs) fds))
     else
       bindA (in_store (fetch_sources (\<lambda>f. ''fetching blob '' @ vfi_BlobSHA256 f @ '': '') nid (cs_Files cs))) (\<lambda>sources.
       bindA (wrapA ''gathering deps for recompile: '' (in_store (gatherDeps nid (cs_SchemaID cs)))) (\<lambda>deps.
       thenA (in_memory (GetOrCreate nid))
       (bindA (wrapA ''gathering parent chain for recompile: '' (gatherChainTiers nid)) (\<lambda>chainTiers.
       bindA (if nid \<noteq> BuiltinsNamespace then wrapA ''gathering builtins for recompile: '' (in_store gatherBuiltins)
              else retA []) (\<lambda>builtins.
       bindA (wrapA ''recompiling: '' (pureA (Compile L (re_compiler env) (cs_Version cs) sources deps chainTiers builtins))) (\<lambda>result.
       retA (cr_Snapshot result))))))))"

definition wire_parent :: "store_namespace \<Rightarrow> (registry, unit) act" where
  "wire_parent n =
     (case sn_ParentNamespaceID n of
        None \<Rightarrow> retA ()
      | Some p \<Rightarrow>
          bindA (getA (\<lambda>r. Get (reg_mem r) p)) (\<lambda>parent.
          case parent of
            None \<Rightarrow> failA (Errorf (''namespace '' @ sn_ID n @ '' references unknown parent '' @ p))
          | Some _ \<Rightarrow> in_memory (SetParent (sn_ID n) (Some p))))"

definition restore_schema :: "registry_env \<Rightarrow> string \<Rightarrow> current_schema \<Rightarrow> (registry, unit) act" where
  "restore_schema env compilerVer cs =
     bindA (wrapA (''restoring '' @ cs_NamespaceID cs @ ''/'' @ cs_SchemaID cs @ ''@'' @ fmt_u64 (cs_Version cs) @ '': '')
       (buildSnapshot env cs compilerVer)) (\<lambda>snap.
     thenA (in_memory (GetOrCreate (cs_NamespaceID cs)))
     (in_memory (on_namespace (cs_NamespaceID cs) (SetCurrent (cs_SchemaID cs) snap))))"

definition Restore :: "registry_env \<Rightarrow> (registry, unit) act" where
  "Restore env =
     bindA (wrapA ''listing namespaces: '' (in_store st_ListNamespaces)) (\<lambda>nsRows.
     thenA (forA (\<lambda>n. in_memory (GetOrCreate (sn_ID n))) nsRows)
     (thenA (forA wire_parent nsRows)
     (bindA (wrapA ''loading current schemas: '' (in_store st_LoadAllCurrent)) (\<lambda>schemas.
     thenA (forA (restore_schema env (Version (re_lib env))) schemas)
     (retA ())))))"

end
