(* ===== verification/Registry_Facts.thy ===== *)
theory Registry_Facts
  imports Registry Hierarchy Versions
begin

text \<open>
  The invariant that ties the registry's memory to its database, and that every method keeps it
  whatever statement of the database fails: keys, positive version numbers, current and staged
  pointers to stored versions, and the same current version, staged version and parent on both
  sides. The two sides are the two staging areas of \<^verbatim>\<open>Staging\<close>, the database holding the number of the
  snapshot in memory.
\<close>

section \<open>The database\<close>

definition versions_ok :: "db \<Rightarrow> bool" where
  "versions_ok db \<longleftrightarrow> (\<forall>r \<in> set (db_versions db). 1 \<le> vr_version r \<and> vr_version r \<le> max_int64)"

definition refs_ok :: "db \<Rightarrow> bool" where
  "refs_ok db \<longleftrightarrow> (\<forall>s \<in> set (db_schemas db). \<forall>v. sr_current s = Some v \<or> sr_staged s = Some v \<longrightarrow>
     (sr_ns s, sr_id s, v) \<in> version_keys db)"

text \<open>What the registry's memory mirrors of the database.\<close>

definition same_view :: "db \<Rightarrow> db \<Rightarrow> bool" where
  "same_view s t \<longleftrightarrow> (\<forall>nid sid. db_current nid t sid = db_current nid s sid \<and> db_staged nid t sid = db_staged nid s sid)
     \<and> row_parent (db_namespaces t) = row_parent (db_namespaces s)"

definition keeps_view :: "db \<Rightarrow> db \<Rightarrow> bool" where
  "keeps_view s t \<longleftrightarrow> (versions_ok s \<and> refs_ok s \<longrightarrow> versions_ok t \<and> refs_ok t) \<and> same_view s t"

lemma same_tables_db_area:
  "same_tables s t \<Longrightarrow> db_current nid t sid = db_current nid s sid" "same_tables s t \<Longrightarrow> db_staged nid t sid = db_staged nid s sid"
  by (simp_all add: db_current_def db_staged_def find_schema_def same_tables_sel)

lemma same_tables_inv:
  assumes "same_tables s t"
  shows "db_keys t = db_keys s" "versions_ok t = versions_ok s" "refs_ok t = refs_ok s"
  using assms by (simp_all add: db_keys_def primary_keys_def foreign_keys_def versions_ok_def refs_ok_def same_tables_sel)

lemma keeps_view_same_tables: "same_tables s t \<Longrightarrow> keeps_view s t"
  by (simp add: keeps_view_def same_view_def same_tables_inv same_tables_db_area same_tables_sel)

interpretation views: db_order keeps_view
proof
  fix s t u :: db and fs
  show "keeps_view s s" by (rule keeps_view_same_tables) (rule same_tables_refl)
  show "keeps_view s t \<Longrightarrow> keeps_view t u \<Longrightarrow> keeps_view s u" by (auto simp: keeps_view_def same_view_def)
  show "keeps_view s (s\<lparr>db_faults := fs\<rparr>)" by (rule keeps_view_same_tables) (simp add: same_tables_def)
qed

lemma views_reads: "reads.holds m \<Longrightarrow> views.holds m"
  by (auto simp: reads.holds_def views.holds_def intro: keeps_view_same_tables)

lemmas views_read_ops = reads_ops [THEN views_reads]

lemma find_schema_append:
  assumes "(sr_ns r, sr_id r) \<notin> schema_keys db"
  shows "find_schema (db\<lparr>db_schemas := db_schemas db @ [r]\<rparr>) nid sid =
    (if nid = sr_ns r \<and> sid = sr_id r then Some r else find_schema db nid sid)"
proof (cases "nid = sr_ns r \<and> sid = sr_id r")
  case True
  with assms have "find_schema db nid sid = None" unfolding find_schema_None_iff by simp
  with True show ?thesis by (simp add: find_schema_def find_append_new)
next
  case False
  then show ?thesis by (auto simp: find_schema_def find_append_new split: option.splits)
qed

text \<open>An operation that leaves the schema rows and the parents, and only adds versions.\<close>

lemma keeps_viewI:
  assumes "db_schemas t = db_schemas s" and "row_parent (db_namespaces t) = row_parent (db_namespaces s)"
    and "set (db_versions s) \<subseteq> set (db_versions t)" and "versions_ok s \<Longrightarrow> versions_ok t"
  shows "keeps_view s t"
proof -
  from assms(3) have "version_keys s \<subseteq> version_keys t" by blast
  with assms show ?thesis
    by (auto simp: keeps_view_def same_view_def db_current_def db_staged_def find_schema_def refs_ok_def)
qed

lemma views_CreateNamespace: "views.holds (q_CreateNamespace nid meta None)"
  unfolding q_CreateNamespace_def
  by (rule views.holds_statement)
    (auto split: if_splits intro!: keeps_viewI simp: row_parent_append_root views.ok_refl versions_ok_def)

lemma views_PutBlob: "views.holds (q_PutBlob nid sha src sz)"
  unfolding q_PutBlob_def
  by (rule views.holds_statement) (auto split: if_splits intro!: keeps_viewI simp: views.ok_refl versions_ok_def)

lemma views_InsertVersion:
  "1 \<le> vr_version row \<Longrightarrow> vr_version row \<le> max_int64 \<Longrightarrow> views.holds (q_InsertVersion row)"
  unfolding q_InsertVersion_def
  by (rule views.holds_statement) (auto split: if_splits intro!: keeps_viewI simp: views.ok_refl versions_ok_def)

lemma views_InsertVersionFile: "views.holds (q_InsertVersionFile frow)"
  unfolding q_InsertVersionFile_def
  by (rule views.holds_statement) (auto split: if_splits intro!: keeps_viewI simp: views.ok_refl versions_ok_def)

lemma views_InsertVersionDep: "views.holds (q_InsertVersionDep drow)"
  unfolding q_InsertVersionDep_def
  by (rule views.holds_statement) (auto split: if_splits intro!: keeps_viewI simp: views.ok_refl versions_ok_def)

lemma views_CreateSchema: "views.holds (q_CreateSchema nid sid meta)"
proof -
  have "keeps_view s (s\<lparr>db_schemas := db_schemas s @ [r]\<rparr>)"
    if "(sr_ns r, sr_id r) \<notin> schema_keys s" "sr_current r = None" "sr_staged r = None" for s r
  proof -
    from that(1) have "find_schema s (sr_ns r) (sr_id r) = None" unfolding find_schema_None_iff .
    with that have "same_view s (s\<lparr>db_schemas := db_schemas s @ [r]\<rparr>)"
      unfolding same_view_def db_current_def db_staged_def find_schema_append [OF that(1)] by auto
    with that(2,3) show ?thesis by (auto simp: keeps_view_def refs_ok_def versions_ok_def)
  qed
  then show ?thesis unfolding q_CreateSchema_def
    by (intro views.holds_statement) (auto simp: views.ok_refl split: if_splits)
qed

lemmas views_statements = views_CreateNamespace views_PutBlob views_InsertVersion views_InsertVersionFile
  views_InsertVersionDep views_CreateSchema

lemma views_PutVersion: "sv_Version ver \<noteq> 0 \<Longrightarrow> views.holds (st_PutVersion ver files deps)"
proof -
  assume "sv_Version ver \<noteq> 0"
  then have "1 \<le> uint (sv_Version ver)" by (metis int_one_le_iff_zero_less uint_0_iff uint_nonnegative order_le_less)
  then have "1 \<le> vr_version (version_to_row ver)" "vr_version (version_to_row ver) \<le> max_int64"
    by (simp_all add: version_to_row_def versionToDB_def)
  then show ?thesis unfolding st_PutVersion_def put_version_body_def
    by (intro views.store_rules views_statements)
qed

lemma views_ensure: "views.holds (ensureNamespaceAndSchema nid sid)"
  unfolding ensureNamespaceAndSchema_def st_CreateNamespace_def st_CreateSchema_def store_namespace.simps
  by (intro views.store_rules views_statements views_read_ops)

section \<open>The reads of the registry\<close>

lemma reads_schema_sources: "reads.holds (schema_sources nid msg cs)"
  unfolding schema_sources_def by (intro reads.store_rules reads_ops)

lemma reads_gather_sources: "reads.holds (gather_sources nid msg schemas)"
  unfolding gather_sources_def by (intro reads.store_rules reads_schema_sources)

lemma reads_gather: "reads.holds (gatherDeps nid sid)" "reads.holds (gather_tier nid)" "reads.holds gatherBuiltins"
  unfolding gatherDeps_def gather_tier_def gatherBuiltins_def
  by (intro reads.store_rules reads_gather_sources reads_ops)+

lemma reads_checks: "reads.holds (isUnchanged L nid sid fp)" "reads.holds (fetch_sources msg nid files)" "reads.holds (pin_status_of d)"
  unfolding isUnchanged_def fetch_sources_def pin_status_of_def by (intro reads.store_rules reads_ops)+

lemmas reads_registry = reads_ops reads_gather reads_checks

section \<open>Memory and database agree\<close>

definition mem_ns :: "memory \<Rightarrow> string \<Rightarrow> namespace" where
  "mem_ns mem nid = (case Get mem nid of None \<Rightarrow> newNamespace | Some ns \<Rightarrow> ns)"

definition db_number :: "snapshot \<Rightarrow> int" where
  "db_number snap = versionToDB (snap_version snap)"

interpretation mirror: staging_mirror
  "\<lambda>ns j. Current j ns" "\<lambda>ns j. Staged j ns" "\<lambda>_ _. True" SetStaged "\<lambda>ns. snd (ns_Promote ns)" ns_DiscardStaging
  "db_current nid" "db_staged nid" "\<lambda>db sid. (nid, sid) \<in> schema_keys db" "stage_rows nid" "promote_rows nid" "discard_rows nid"
  db_number for nid
  by unfold_locales

definition coherent :: "registry \<Rightarrow> bool" where
  "coherent r \<longleftrightarrow> (\<forall>nid sid.
       db_current nid (reg_db r) sid = map_option db_number (reg_Current (reg_mem r) nid sid)
     \<and> db_staged nid (reg_db r) sid = map_option db_number (reg_Staged (reg_mem r) nid sid)
     \<and> row_parent (db_namespaces (reg_db r)) nid = Parent (reg_mem r) nid)"

definition reg_inv :: "registry \<Rightarrow> bool" where
  "reg_inv r \<longleftrightarrow> db_keys (reg_db r) \<and> versions_ok (reg_db r) \<and> refs_ok (reg_db r) \<and> coherent r"

lemma mem_ns_area: "Current sid (mem_ns mem nid) = reg_Current mem nid sid" "Staged sid (mem_ns mem nid) = reg_Staged mem nid sid"
  by (simp_all add: mem_ns_def reg_Current_def reg_Staged_def Current_def Staged_def getSlot_def newNamespace_def split: option.splits)

lemma coherent_agree:
  "coherent r \<longleftrightarrow> (\<forall>nid. mirror.agree nid (mem_ns (reg_mem r) nid) (reg_db r)) \<and>
     row_parent (db_namespaces (reg_db r)) = Parent (reg_mem r)"
  by (auto simp: coherent_def mirror.agree_def mem_ns_area fun_eq_iff)

interpretation regs: state_order "\<lambda>r r'. reg_inv r \<longrightarrow> reg_inv r'"
  by unfold_locales auto

lemma reg_inv_view:
  assumes "reg_inv r" and "db_keys (reg_db r) \<longrightarrow> db_keys t" and "keeps_view (reg_db r) t"
  shows "reg_inv (r\<lparr>reg_db := t\<rparr>)"
  using assms by (auto simp: reg_inv_def coherent_def keeps_view_def same_view_def)

lemma regs_store: "keys.holds m \<Longrightarrow> views.holds m \<Longrightarrow> regs.holds (in_store m)"
  by (rule regs.holds_zoom) (blast intro: reg_inv_view dest: keys.holdsD views.holdsD)

lemma keys_reads: "reads.holds m \<Longrightarrow> keys.holds m"
  unfolding reads.holds_def keys.holds_def using same_tables_inv(1) by blast

lemma regs_reads: "reads.holds m \<Longrightarrow> regs.holds (in_store m)"
  by (intro regs_store keys_reads views_reads)

lemma reg_areas_GetOrCreate [simp]:
  "reg_Current (GetOrCreate n mem) nid sid = reg_Current mem nid sid"
  "reg_Staged (GetOrCreate n mem) nid sid = reg_Staged mem nid sid"
  by (auto simp: reg_Current_def reg_Staged_def Current_def Staged_def getSlot_def newNamespace_def split: option.splits)

lemma regs_GetOrCreate: "regs.holds (in_memory (GetOrCreate nid))"
  by (rule regs.holds_modify) (simp add: reg_inv_def coherent_def)

lemma regs_gatherChainTiers: "regs.holds (gatherChainTiers nid)"
  unfolding gatherChainTiers_def by (intro regs.holds_rules regs_reads reads.holds_for reads_registry)

section \<open>Publish\<close>

lemma keys_ensure: "keys.holds (ensureNamespaceAndSchema nid sid)"
  unfolding ensureNamespaceAndSchema_def
  by (intro keys.store_rules keys_ops keys_reads reads_ops)

lemma keys_put_blobs: "keys.holds (put_blobs nid files)"
  unfolding put_blobs_def by (intro keys.store_rules keys_ops)

lemma views_put_blobs: "views.holds (put_blobs nid files)"
  unfolding put_blobs_def st_PutBlob_def by (intro views.store_rules views_statements)

lemma holds_gate: "state_order ok \<Longrightarrow> state_order.holds ok (gate decision)"
  by (cases decision) (simp_all add: gate_def state_order.holds_simple)

lemma regs_publish_compile: "regs.holds (publish_compile env req)"
  unfolding publish_compile_def Let_def
  by (intro regs.holds_rules regs_store regs_reads reads_registry regs_GetOrCreate keys_ensure views_ensure regs_gatherChainTiers)

text \<open>What a successful first half established, in the state it leaves.\<close>

lemma reads_in_store:
  assumes "reads.holds m" and "in_store m r = (x, r')"
  shows "reg_mem r' = reg_mem r" and "same_tables (reg_db r) (reg_db r')"
  using assms by (auto simp: zoomA_def split: prod.splits dest: reads.holdsD)

lemma gatherChainTiers_frame:
  assumes "gatherChainTiers nid r = (x, r')"
  shows "reg_mem r' = reg_mem r" and "same_tables (reg_db r) (reg_db r')"
proof -
  have "reads.holds (forA gather_tier (tl (Chain (reg_mem r) nid)))" by (intro reads.holds_for reads_registry)
  from reads_in_store [OF this] assms show "reg_mem r' = reg_mem r" "same_tables (reg_db r) (reg_db r')"
    by (auto simp: gatherChainTiers_def bindA_def getA_def retA_def same_tables_refl split: if_splits)
qed

lemma st_ListVersions_Inr:
  "st_ListVersions nid sid s = (Inr vs, t) \<Longrightarrow> same_tables s t \<and> vs = map versionFromDB (live_versions t nid sid)"
  using q_reads(7) same_tables_sel(5) by (fastforce simp: st_ListVersions_def live_versions_def)

lemma if_fail_Inr [simp]: "(if b then failA e else m) s = (Inr a, t) \<longleftrightarrow> \<not> b \<and> m s = (Inr a, t)"
  by simp

lemma publish_compile_Inr:
  assumes "publish_compile env req r = (Inr (v, result), r')"
  shows "v = next_version (map versionFromDB (live_versions (reg_db r') (pq_NamespaceID req) (pq_SchemaID req)))"
    and "\<exists>deps tiers builtins. Compile (re_lib env) (re_compiler env) v (pq_Sources req) deps tiers builtins = Inr result"
    and "checkAncestorFQNConflicts (reg_mem r') (cr_Snapshot result) (pq_NamespaceID req) = Inr ()"
    and "reg_mem r' = GetOrCreate (pq_NamespaceID req) (reg_mem r)"
proof -
  let ?nid = "pq_NamespaceID req" and ?sid = "pq_SchemaID req"
  from assms obtain r1 deps r2 tiers r3 builtins r4 versions where
      one: "in_store (ensureNamespaceAndSchema ?nid ?sid) r = (Inr (), r1)"
    and deps: "in_store (gatherDeps ?nid ?sid) (r1\<lparr>reg_mem := GetOrCreate ?nid (reg_mem r1)\<rparr>) = (Inr deps, r2)"
    and tiers: "gatherChainTiers ?nid r2 = (Inr tiers, r3)"
    and blt: "(if ?nid \<noteq> BuiltinsNamespace then wrapA ''gathering builtins: '' (in_store gatherBuiltins) else retA []) r3 = (Inr builtins, r4)"
    and vers: "in_store (st_ListVersions ?nid ?sid) r4 = (Inr versions, r')"
    and comp: "Compile (re_lib env) (re_compiler env) (next_version versions) (pq_Sources req) deps tiers builtins = Inr result"
    and check: "checkAncestorFQNConflicts (reg_mem r') (cr_Snapshot result) ?nid = Inr ()" and v: "v = next_version versions"
    unfolding publish_compile_def Let_def by (auto simp del: zoomA_Inr)
  from vers have "versions = map versionFromDB (live_versions (reg_db r') ?nid ?sid)" by (auto dest!: st_ListVersions_Inr)
  with v show "v = next_version (map versionFromDB (live_versions (reg_db r') ?nid ?sid))" by simp
  from comp v show "\<exists>deps tiers builtins. Compile (re_lib env) (re_compiler env) v (pq_Sources req) deps tiers builtins = Inr result" by blast
  show "checkAncestorFQNConflicts (reg_mem r') (cr_Snapshot result) ?nid = Inr ()" by fact
  from one have "reg_mem r1 = reg_mem r" by auto
  moreover from reads_in_store(1) [OF reads_gather(1) deps] have "reg_mem r2 = GetOrCreate ?nid (reg_mem r1)" by simp
  moreover from tiers have "reg_mem r3 = reg_mem r2" by (rule gatherChainTiers_frame)
  moreover from blt have "reg_mem r4 = reg_mem r3" by (auto split: if_splits)
  moreover from vers have "reg_mem r' = reg_mem r4" by auto
  ultimately show "reg_mem r' = GetOrCreate ?nid (reg_mem r)" by simp
qed

section \<open>One namespace changes on both sides\<close>

lemma bindA_cases:
  assumes "bindA m f s = (r, t)"
  obtains (fail) e where "m s = (Inl e, t)" "r = Inl e" | (ok) a u where "m s = (Inr a, u)" "f a u = (r, t)"
  using assms by (auto simp: bindA_def split: prod.splits sum.splits)

lemma thenA_cases:
  assumes "thenA m n s = (r, t)"
  obtains (fail) e where "m s = (Inl e, t)" "r = Inl e" | (ok) a u where "m s = (Inr a, u)" "n u = (r, t)"
  using assms unfolding thenA_def by (rule bindA_cases)

lemma wrapA_Inl: "wrapA p m s = (Inl e, t) \<Longrightarrow> \<exists>e'. m s = (Inl e', t)"
  by (auto simp: wrapA_def wrapE_def split: prod.splits sum.splits)

lemma mem_ns_on_namespace:
  assumes "Get mem nid \<noteq> None \<or> F newNamespace = newNamespace"
  shows "mem_ns (on_namespace nid F mem) n = (if n = nid then F (mem_ns mem nid) else mem_ns mem n)"
  using assms by (auto simp: mem_ns_def split: option.splits)

lemma agree_same_tables: "same_tables s t \<Longrightarrow> mirror.agree nid ns t = mirror.agree nid ns s"
  by (simp add: mirror.agree_def same_tables_db_area)

lemma agree_other:
  assumes "n \<noteq> nid" and "\<And>s. Q s \<Longrightarrow> sr_ns s = nid" and "\<And>s. sr_ns (g s) = sr_ns s" and "\<And>s. sr_id (g s) = sr_id s"
  shows "mirror.agree n ns (update_schemas Q g db) = mirror.agree n ns db"
  using find_schema_other [OF assms] by (simp add: mirror.agree_def db_current_def db_staged_def)

lemma reg_inv_area:
  assumes inv: "reg_inv r" and Q: "\<And>s. Q s \<Longrightarrow> sr_ns s = nid" and g: "\<And>s. sr_ns (g s) = sr_ns s" "\<And>s. sr_id (g s) = sr_id s"
    and refs: "refs_ok (update_schemas Q g (reg_db r))"
    and agree: "mirror.agree nid (mem_ns (reg_mem r) nid) (reg_db r) \<Longrightarrow>
      mirror.agree nid (F (mem_ns (reg_mem r) nid)) (update_schemas Q g (reg_db r))"
    and F: "Get (reg_mem r) nid \<noteq> None \<or> F newNamespace = newNamespace" "\<And>ns. ns_parent (F ns) = ns_parent ns"
    and t: "same_tables (update_schemas Q g (reg_db r)) t"
  shows "reg_inv (r\<lparr>reg_db := t, reg_mem := on_namespace nid F (reg_mem r)\<rparr>)"
proof -
  let ?d = "update_schemas Q g (reg_db r)"
  have "db_keys ?d" using inv g by (simp add: reg_inv_def update_schemas_keys)
  moreover have "versions_ok ?d" using inv by (simp add: reg_inv_def versions_ok_def update_schemas_def)
  moreover have "mirror.agree n (mem_ns (on_namespace nid F (reg_mem r)) n) ?d" for n
    using inv agree agree_other [OF _ Q g] by (auto simp: reg_inv_def coherent_agree mem_ns_on_namespace [of _ _ F, OF F(1)])
  moreover have "row_parent (db_namespaces ?d) = Parent (on_namespace nid F (reg_mem r))"
    using inv F(2) by (simp add: reg_inv_def coherent_agree Parent_on_namespace update_schemas_def fun_eq_iff)
  ultimately show ?thesis using refs same_tables_inv [OF t] agree_same_tables [OF t] same_tables_sel(1) [OF t]
    by (simp add: reg_inv_def coherent_agree)
qed

lemma refs_ok_update:
  assumes "refs_ok db" and "\<And>s. sr_ns (g s) = sr_ns s" "\<And>s. sr_id (g s) = sr_id s"
    and "\<And>s v. s \<in> set (db_schemas db) \<Longrightarrow> Q s \<Longrightarrow> sr_current (g s) = Some v \<or> sr_staged (g s) = Some v \<Longrightarrow>
      (sr_ns s, sr_id s, v) \<in> version_keys db"
  shows "refs_ok (update_schemas Q g db)"
  using assms by (auto simp: refs_ok_def update_schemas_def)

lemma reg_inv_stage:
  assumes "reg_inv r" and "(nid, sid) \<in> schema_keys (reg_db r)" and "(nid, sid, db_number snap) \<in> version_keys (reg_db r)"
    and "Get (reg_mem r) nid \<noteq> None" and "same_tables (stage_rows nid sid (db_number snap) (reg_db r)) t"
  shows "reg_inv (r\<lparr>reg_db := t, reg_mem := on_namespace nid (SetStaged sid snap) (reg_mem r)\<rparr>)"
proof (rule reg_inv_area [where g = "\<lambda>s. s\<lparr>sr_staged := Some (db_number snap)\<rparr>"])
  show "refs_ok (stage_rows nid sid (db_number snap) (reg_db r))"
    using assms(1,3) by (intro refs_ok_update) (auto simp: reg_inv_def refs_ok_def)
  assume "mirror.agree nid (mem_ns (reg_mem r) nid) (reg_db r)"
  with assms(2) show "mirror.agree nid (SetStaged sid snap (mem_ns (reg_mem r) nid)) (stage_rows nid sid (db_number snap) (reg_db r))"
    by (intro mirror.agree_set_staged) auto
qed (use assms in auto)

lemma reg_inv_promote:
  assumes "reg_inv r" and "Get (reg_mem r) nid \<noteq> None" and "same_tables (promote_rows nid (reg_db r)) t"
  shows "reg_inv (r\<lparr>reg_db := t, reg_mem := on_namespace nid (\<lambda>ns. snd (ns_Promote ns)) (reg_mem r)\<rparr>)"
proof (rule reg_inv_area [where g = "\<lambda>s. s\<lparr>sr_current := sr_staged s, sr_staged := None\<rparr>"])
  show "refs_ok (promote_rows nid (reg_db r))"
    using assms(1) by (intro refs_ok_update) (auto simp: reg_inv_def refs_ok_def)
  show "mirror.agree nid (mem_ns (reg_mem r) nid) (reg_db r) \<Longrightarrow>
      mirror.agree nid (snd (ns_Promote (mem_ns (reg_mem r) nid))) (promote_rows nid (reg_db r))" by (rule mirror.agree_promote)
qed (use assms in auto)

lemma reg_inv_discard:
  assumes "reg_inv r" and "same_tables (discard_rows nid (reg_db r)) t"
  shows "reg_inv (r\<lparr>reg_db := t, reg_mem := on_namespace nid ns_DiscardStaging (reg_mem r)\<rparr>)"
proof (rule reg_inv_area [where g = "\<lambda>s. s\<lparr>sr_staged := None\<rparr>"])
  show "refs_ok (discard_rows nid (reg_db r))"
    using assms(1) by (intro refs_ok_update) (auto simp: reg_inv_def refs_ok_def)
  show "mirror.agree nid (mem_ns (reg_mem r) nid) (reg_db r) \<Longrightarrow>
      mirror.agree nid (ns_DiscardStaging (mem_ns (reg_mem r) nid)) (discard_rows nid (reg_db r))" by (rule mirror.agree_discard)
  show "Get (reg_mem r) nid \<noteq> None \<or> ns_DiscardStaging newNamespace = newNamespace"
    by (simp add: ns_DiscardStaging_def newNamespace_def)
qed (use assms in auto)

section \<open>The staging statements\<close>

lemma same_tables_update_schemas: "same_tables s t \<Longrightarrow> same_tables (update_schemas Q g s) (update_schemas Q g t)"
  by (cases s; cases t) (simp add: same_tables_def update_schemas_def)

lemma statement_modify:
  assumes "statement (modifyA f) s = (x, t)" and "\<And>s t. same_tables s t \<Longrightarrow> same_tables (f s) (f t)"
  shows "case x of Inl _ \<Rightarrow> same_tables s t | Inr _ \<Rightarrow> same_tables (f s) t"
proof (cases "db_faults s")
  case Nil
  with assms show ?thesis by (auto simp: modifyA_def intro: same_tables_refl)
next
  case (Cons b bs)
  have "same_tables s (s\<lparr>db_faults := bs\<rparr>)" by (simp add: same_tables_def)
  with assms Cons show ?thesis by (auto simp: statement_def modifyA_def Let_def split: if_splits)
qed

lemma st_SetStaged_result:
  assumes "st_SetStaged nid sid v s = (x, t)" and "v \<noteq> 0"
  shows "case x of Inl _ \<Rightarrow> same_tables s t | Inr _ \<Rightarrow> same_tables (stage_rows nid sid (versionToDB v) s) t"
  using assms statement_modify same_tables_update_schemas unfolding st_SetStaged_def q_SetStagedVersion_def by simp

lemma st_DiscardStaging_result:
  assumes "st_DiscardStaging nid s = (x, t)"
  shows "case x of Inl _ \<Rightarrow> same_tables s t | Inr _ \<Rightarrow> same_tables (discard_rows nid s) t"
  using assms statement_modify same_tables_update_schemas unfolding st_DiscardStaging_def q_DiscardAllStaged_def by simp

lemma st_Promote_result:
  assumes "st_Promote nid s = (x, t)"
  shows "case x of Inl _ \<Rightarrow> same_tables s t | Inr _ \<Rightarrow> same_tables (promote_rows nid s) t"
proof -
  let ?body = "thenA (wrapA ''locking staged schemas: '' (q_GetStagedSchemas nid)) (wrapA ''promoting staged: '' (q_PromoteAllStaged nid))"
  obtain y where tr: "transaction ''beginning transaction: '' (Some ''committing promotion: '') ?body s = (y, t)"
    and xy: "(\<exists>e. x = Inl e) \<longleftrightarrow> (\<exists>e. y = Inl e)"
    using assms unfolding st_Promote_def by (rule bindA_cases) (auto simp: retA_def)
  show ?thesis
  proof (cases y)
    case (Inl e)
    with tr have "same_tables s t" using transaction_Inl by blast
    with Inl xy show ?thesis by (auto split: sum.splits)
  next
    case (Inr rows)
    with tr obtain s1 s2 where s1: "same_tables s s1" and body: "?body s1 = (Inr rows, s2)" and t: "same_tables s2 t"
      by (auto elim: transaction_Inr)
    then obtain us s3 where "q_GetStagedSchemas nid s1 = (Inr us, s3)" and p: "q_PromoteAllStaged nid s3 = (Inr rows, s2)" by auto
    then have "same_tables s1 s3" by (auto simp: q_GetStagedSchemas_def dest: select_Inr)
    with s1 have s3: "same_tables s s3" by (rule same_tables_trans)
    from p obtain s4 where "same_tables s3 s4" "s2 = promote_rows nid s4"
      unfolding q_PromoteAllStaged_def by (auto elim!: statement_Inr)
    with s3 t have "same_tables (promote_rows nid s) t"
      by (auto intro: same_tables_trans same_tables_update_schemas)
    with Inr xy show ?thesis by (auto split: sum.splits)
  qed
qed

section \<open>Every method keeps the invariant\<close>

lemma uint_succ_versionFromDB: "0 \<le> i \<Longrightarrow> i \<le> max_int64 \<Longrightarrow> uint (versionFromDB i + 1) = i + 1"
  by (simp add: uint_versionFromDB uint_add_lem [THEN iffD1])

lemma next_version_positive:
  assumes "versions_ok db"
  shows "next_version (map versionFromDB (live_versions db nid sid)) \<noteq> 0"
proof (cases "live_versions db nid sid = []")
  case True
  then show ?thesis by (simp add: next_version_def)
next
  case False
  then have "last (live_versions db nid sid) \<in> set (live_versions db nid sid)" by simp
  then have "1 \<le> last (live_versions db nid sid)" "last (live_versions db nid sid) \<le> max_int64"
    using assms by (auto simp: live_versions_def versions_ok_def)
  then have "uint (versionFromDB (last (live_versions db nid sid)) + 1) \<noteq> 0"
    by (simp add: uint_succ_versionFromDB)
  then have "versionFromDB (last (live_versions db nid sid)) + 1 \<noteq> 0" by auto
  with False show ?thesis by (simp add: next_version_def last_map)
qed

text \<open>Staging on both sides: in the database first, then in memory.\<close>

lemma GetOrCreate_id: "Get mem nid \<noteq> None \<Longrightarrow> GetOrCreate nid mem = mem"
  by (auto simp: GetOrCreate_def)

lemma regs_staging:
  assumes inv: "reg_inv r" and key: "(nid, sid) \<in> schema_keys (reg_db r)" "(nid, sid, db_number snap) \<in> version_keys (reg_db r)"
    and v: "v \<noteq> 0" "db_number snap = versionToDB v"
    and rest: "\<And>t. snd (n (r\<lparr>reg_db := t\<rparr>)) =
      r\<lparr>reg_db := t, reg_mem := on_namespace nid (SetStaged sid snap) (GetOrCreate nid (reg_mem r))\<rparr>"
    and run: "thenA (wrapA p (in_store (st_SetStaged nid sid v))) n r = (x, r')"
  shows "reg_inv r'"
  using run
proof (cases rule: thenA_cases)
  case (fail e)
  then obtain e' where "in_store (st_SetStaged nid sid v) r = (Inl e', r')" by (auto dest: wrapA_Inl)
  then obtain t where t: "st_SetStaged nid sid v (reg_db r) = (Inl e', t)" "r' = r\<lparr>reg_db := t\<rparr>"
    by (auto simp: zoomA_def split: prod.splits)
  from st_SetStaged_result [OF t(1) v(1)] have "same_tables (reg_db r) t" by simp
  with inv t(2) show ?thesis by (auto intro: reg_inv_view keeps_view_same_tables simp: same_tables_inv)
next
  case (ok u r1)
  then obtain t where t: "st_SetStaged nid sid v (reg_db r) = (Inr u, t)" "r1 = r\<lparr>reg_db := t\<rparr>" by auto
  from st_SetStaged_result [OF t(1) v(1)] v(2)
  have rows: "same_tables (stage_rows nid sid (db_number snap) (reg_db r)) t" by simp
  let ?r = "r\<lparr>reg_mem := GetOrCreate nid (reg_mem r)\<rparr>"
  have "in_memory (GetOrCreate nid) r = (Inr (), ?r)" by (simp add: modifyA_def)
  with inv regs_GetOrCreate have "reg_inv ?r" by (blast dest: regs.holdsD)
  moreover from rest [of t] ok(2) t(2) have "r' = ?r\<lparr>reg_db := t, reg_mem := on_namespace nid (SetStaged sid snap) (reg_mem ?r)\<rparr>"
    by simp
  ultimately show ?thesis using reg_inv_stage [of ?r nid sid snap t] key rows by simp
qed

lemma regs_publish_store:
  assumes "reg_inv r" and v: "v \<noteq> 0" "snap_version (cr_Snapshot result) = v" and mem: "Get (reg_mem r) (pq_NamespaceID req) \<noteq> None"
    and run: "publish_store env req v result r = (x, r')"
  shows "reg_inv r'"
proof -
  let ?nid = "pq_NamespaceID req" and ?sid = "pq_SchemaID req"
  let ?ver = "version_of (re_lib env) req v (cr_Compiled result)"
    and ?files = "version_files_of req v (cr_Files result)" and ?deps = "version_deps_of req v (cr_Deps result)"
  have ver: "sv_Version ?ver \<noteq> 0" "sv_NamespaceID ?ver = ?nid" "sv_SchemaID ?ver = ?sid" "sv_Version ?ver = v"
    using v by (simp_all add: version_of_def)
  have blobs: "regs.holds (in_store (put_blobs ?nid (cr_Files result)))" by (intro regs_store keys_put_blobs views_put_blobs)
  have put: "regs.holds (wrapA ''storing version: '' (in_store (st_PutVersion ?ver ?files ?deps)))"
    by (intro regs.holds_wrap regs_store keys_ops views_PutVersion ver)
  from run [unfolded publish_store_def Let_def] show ?thesis
  proof (cases rule: thenA_cases)
    case (fail e)
    with assms(1) blobs show ?thesis by (blast dest: regs.holdsD)
  next
    case one: (ok u1 r1)
    with assms(1) blobs have inv1: "reg_inv r1" and mem1: "reg_mem r1 = reg_mem r" by (blast dest: regs.holdsD, auto)
    from one(2) show ?thesis
    proof (cases rule: thenA_cases)
      case (fail e)
      with inv1 put show ?thesis by (blast dest: regs.holdsD)
    next
      case two: (ok u2 r2)
      with inv1 put have inv2: "reg_inv r2" by (blast dest: regs.holdsD)
      from two(1) obtain t where t: "st_PutVersion ?ver ?files ?deps (reg_db r1) = (Inr u2, t)" "r2 = r1\<lparr>reg_db := t\<rparr>" by auto
      note added = same_tables_sel [OF st_PutVersion_Inr(1) [OF t(1)]]
      have key: "(?nid, ?sid) \<in> schema_keys (reg_db r2)" "(?nid, ?sid, versionToDB v) \<in> version_keys (reg_db r2)"
        using st_PutVersion_Inr(3) [OF t(1)] ver t(2) added(4,5) by (simp_all add: put_version_rows_def version_to_row_def)
      have "reg_mem r2 = reg_mem r" using t(2) mem1 by simp
      with mem have "GetOrCreate ?nid (reg_mem r2) = reg_mem r2" by (simp add: GetOrCreate_id)
      with key(2) v(2) show ?thesis
        by (intro regs_staging [where snap = "cr_Snapshot result", OF inv2 key(1) _ v(1) _ _ two(2)])
          (simp_all add: db_number_def thenA_def bindA_def modifyA_def retA_def)
    qed
  qed
qed

lemma Compile_snap_version:
  assumes "Compile L c v sources deps tiers builtins = Inr result"
  shows "snap_version (cr_Snapshot result) = v"
proof -
  from assms obtain fds where "NewFromFiles L v fds = Inr (cr_Snapshot result)" by (rule Compile_InrD)
  then show ?thesis by (auto simp: NewFromFiles_def dest: arg_cong [where f = snap_version])
qed

lemma regs_publishInternal: "regs.holds (publishInternal env req forceNew)"
proof (rule regs.holdsI, rule impI)
  fix r x r' assume run: "publishInternal env req forceNew r = (x, r')" and inv: "reg_inv r"
  note first = regs.holdsD [OF regs_publish_compile]
  from run [unfolded publishInternal_def] show "reg_inv r'"
  proof (cases rule: bindA_cases)
    case (fail e)
    with first inv show ?thesis by blast
  next
    case (ok a r1)
    obtain v result where a: "a = (v, result)" by (cases a)
    with ok(1) have one: "publish_compile env req r = (Inr (v, result), r1)" by simp
    with first inv have inv1: "reg_inv r1" by blast
    note facts = publish_compile_Inr [OF one]
    let ?check = "if forceNew then retA False
      else in_store (isUnchanged (re_lib env) (pq_NamespaceID req) (pq_SchemaID req) (ComputeFingerprint (re_lib env) (cr_Files result)))"
    from ok(2) a obtain y r2 where check: "?check r1 = (y, r2)"
      and rest: "(\<exists>e. y = Inl e \<and> r' = r2) \<or> r' = r2 \<or> publish_store env req v result r2 = (x, r')"
      unfolding Let_def case_prod_conv by (auto simp: retA_def elim!: bindA_cases split: if_splits)
    have "regs.holds ?check" by (intro regs.holds_rules regs_reads reads_registry)
    with check inv1 have inv2: "reg_inv r2" by (blast dest: regs.holdsD)
    have "reg_mem r2 = reg_mem r1" using check by (auto simp: zoomA_def retA_def split: if_splits prod.splits)
    with facts(4) have "Get (reg_mem r2) (pq_NamespaceID req) \<noteq> None" by auto
    moreover have "v \<noteq> 0" using next_version_positive inv1 facts(1) by (simp add: reg_inv_def)
    moreover have "snap_version (cr_Snapshot result) = v" using facts(2) Compile_snap_version by blast
    ultimately show ?thesis using rest inv2 regs_publish_store [OF inv2] by blast
  qed
qed

lemma regs_gate: "regs.holds (gate decision)"
  unfolding gate_def by (intro regs.holds_rules)

lemma regs_Publish: "regs.holds (Publish env req)"
  unfolding Publish_def by (intro regs.holds_then regs_gate regs_publishInternal)

lemma regs_Rebase: "regs.holds (Rebase env nid sid actor)"
  unfolding Rebase_def by (intro regs.holds_rules regs_gate regs_reads reads_registry regs_publishInternal)

lemma regs_reads_only: "regs.holds (GetNamespaceChain nid)" "regs.holds (GetRebaseStatus nid sid)"
  unfolding GetNamespaceChain_def GetRebaseStatus_def
  by (intro regs.holds_rules regs_reads reads.holds_for reads_registry)+

lemma in_store_cases:
  assumes "in_store m r = (x, r')"
  obtains t where "m (reg_db r) = (x, t)" "r' = r\<lparr>reg_db := t\<rparr>"
  using assms by (auto simp: zoomA_def split: prod.splits)

lemma regs_failed_store: "reg_inv r \<Longrightarrow> same_tables (reg_db r) t \<Longrightarrow> reg_inv (r\<lparr>reg_db := t\<rparr>)"
  by (auto intro: reg_inv_view keeps_view_same_tables simp: same_tables_inv)

text \<open>A step of the store and the same step in memory.\<close>

lemma regs_both:
  assumes "reg_inv r"
    and "\<And>x t. m (reg_db r) = (x, t) \<Longrightarrow> case x of Inl _ \<Rightarrow> same_tables (reg_db r) t
      | Inr _ \<Rightarrow> reg_inv (r\<lparr>reg_db := t, reg_mem := F (reg_mem r)\<rparr>)"
    and "\<And>a t. snd (n a (r\<lparr>reg_db := t\<rparr>)) = r\<lparr>reg_db := t, reg_mem := F (reg_mem r)\<rparr>"
    and "bindA (wrapA p (in_store m)) n r = (x, r')"
  shows "reg_inv r'"
  using assms(4)
proof (cases rule: bindA_cases)
  case (fail e)
  then obtain e' t where "m (reg_db r) = (Inl e', t)" "r' = r\<lparr>reg_db := t\<rparr>"
    by (auto dest!: wrapA_Inl elim!: in_store_cases)
  with assms(1) assms(2) [of "Inl e'" t] show ?thesis by (auto intro: regs_failed_store)
next
  case (ok a r1)
  then obtain t where "m (reg_db r) = (Inr a, t)" "r1 = r\<lparr>reg_db := t\<rparr>" by auto
  with assms(2) [of "Inr a" t] assms(3) [of a t] ok(2) show ?thesis by simp
qed

lemma regs_DiscardStaging: "regs.holds (DiscardStaging nid)"
proof (rule regs.holdsI, rule impI)
  fix r x r' assume "DiscardStaging nid r = (x, r')" "reg_inv r"
  then show "reg_inv r'" unfolding DiscardStaging_def thenA_def
    by (rule_tac regs_both [where F = "on_namespace nid ns_DiscardStaging" and m = "st_DiscardStaging nid"])
      (auto simp: modifyA_def dest!: st_DiscardStaging_result intro: reg_inv_discard split: sum.splits)
qed

text \<open>\<^verbatim>\<open>Promote\<close> either changes nothing, or checked every schema and promoted the namespace on both sides.\<close>

lemma gate_cases: "gate d r = (y, r1) \<Longrightarrow> r1 = r \<and> (y = Inr () \<or> (\<exists>e. d = Some e \<and> y = Inl e))"
  by (cases d) (auto simp: gate_def retA_def failA_def)

lemma promote_both_result:
  assumes "bindA (wrapA p (in_store (st_Promote nid))) (\<lambda>promoted.
      thenA (in_memory (on_namespace nid (\<lambda>ns. snd (ns_Promote ns)))) (retA promoted)) r = (x, r')"
  shows "case x of Inl _ \<Rightarrow> reg_mem r' = reg_mem r \<and> same_tables (reg_db r) (reg_db r')
    | Inr _ \<Rightarrow> reg_mem r' = on_namespace nid (\<lambda>ns. snd (ns_Promote ns)) (reg_mem r) \<and> same_tables (promote_rows nid (reg_db r)) (reg_db r')"
  using assms
proof (cases rule: bindA_cases)
  case (fail e)
  then obtain e' t where "st_Promote nid (reg_db r) = (Inl e', t)" "r' = r\<lparr>reg_db := t\<rparr>"
    by (auto dest!: wrapA_Inl elim!: in_store_cases)
  with st_Promote_result fail(2) show ?thesis by fastforce
next
  case (ok ps r1)
  then obtain t where "st_Promote nid (reg_db r) = (Inr ps, t)" "r1 = r\<lparr>reg_db := t\<rparr>" by auto
  with st_Promote_result ok(2) show ?thesis by (fastforce simp: thenA_def bindA_def modifyA_def retA_def)
qed

lemma Promote_result:
  assumes "Promote env nid r = (x, r')"
  shows "case x of Inl _ \<Rightarrow> reg_mem r' = reg_mem r \<and> same_tables (reg_db r) (reg_db r')
    | Inr _ \<Rightarrow> (\<exists>ns us. Get (reg_mem r) nid = Some ns \<and> mapE (promote_check (re_lib env) nid ns) (SchemaIDs ns) = Inr us)
        \<and> reg_mem r' = on_namespace nid (\<lambda>ns. snd (ns_Promote ns)) (reg_mem r) \<and> same_tables (promote_rows nid (reg_db r)) (reg_db r')"
  using assms unfolding Promote_def
proof (cases rule: thenA_cases)
  case (fail e)
  then show ?thesis by (auto dest!: gate_cases intro: same_tables_refl)
next
  case (ok u r1)
  then have r1: "r1 = r" by (auto dest!: gate_cases)
  show ?thesis
  proof (cases "Get (reg_mem r) nid")
    case None
    with ok(2) r1 show ?thesis by (auto simp: bindA_def getA_def failA_def intro: same_tables_refl)
  next
    case (Some ns)
    with ok(2) r1 have "thenA (pureA (mapE (promote_check (re_lib env) nid ns) (SchemaIDs ns)))
      (bindA (wrapA ''promoting: '' (in_store (st_Promote nid))) (\<lambda>promoted.
        thenA (in_memory (on_namespace nid (\<lambda>ns. snd (ns_Promote ns)))) (retA promoted))) r = (x, r')"
      by (simp add: bindA_def getA_def)
    then show ?thesis
    proof (cases rule: thenA_cases)
      case (fail e)
      then show ?thesis by (auto simp: pureA_def intro: same_tables_refl)
    next
      case (ok us r2)
      then have "r2 = r" "mapE (promote_check (re_lib env) nid ns) (SchemaIDs ns) = Inr us" by auto
      with promote_both_result [OF ok(2)] Some show ?thesis by (auto split: sum.splits)
    qed
  qed
qed

lemma regs_Promote: "regs.holds (Promote env nid)"
proof (rule regs.holdsI, rule impI)
  fix r x r' assume "Promote env nid r = (x, r')" and inv: "reg_inv r"
  note res = Promote_result [OF this(1)]
  show "reg_inv r'"
  proof (cases x)
    case (Inl e)
    with res have "\<exists>t. r' = r\<lparr>reg_db := t\<rparr> \<and> same_tables (reg_db r) t" by (cases r; cases r') auto
    then show ?thesis by (auto intro: regs_failed_store [OF inv])
  next
    case (Inr ps)
    with res have mem: "Get (reg_mem r) nid \<noteq> None"
      and "\<exists>t. r' = r\<lparr>reg_db := t, reg_mem := on_namespace nid (\<lambda>ns. snd (ns_Promote ns)) (reg_mem r)\<rparr>
        \<and> same_tables (promote_rows nid (reg_db r)) t" by (cases r; cases r'; auto)+
    then show ?thesis by (auto intro: reg_inv_promote [OF inv mem])
  qed
qed

lemma New_snap_version: "New L v fds = Inr snap \<Longrightarrow> snap_version snap = v"
  by (auto simp: New_def dest: arg_cong [where f = snap_version])

lemma find_version_key: "find_version db nid sid v = Some row \<Longrightarrow> (nid, sid, v) \<in> version_keys db \<and> row \<in> set (db_versions db)
    \<and> vr_ns row = nid \<and> vr_schema row = sid \<and> vr_version row = v"
  unfolding find_version_def by (force dest: find_Some_mem)

lemma st_GetVersion_Inr:
  assumes "st_GetVersion nid sid v s = (Inr ver, t)"
  shows "same_tables s t" and "\<exists>row. find_version t nid sid (versionToDB v) = Some row \<and> sv_Compiled ver = vr_compiled row"
proof -
  from assms obtain row where row: "q_GetVersion nid sid (versionToDB v) s = (Inr row, t)" "sv_Compiled ver = vr_compiled row"
    by (auto simp: st_GetVersion_def)
  from q_reads(4) [OF row(1)] show "same_tables s t" by blast
  with q_reads(4) [OF row(1)] row(2)
  show "\<exists>row. find_version t nid sid (versionToDB v) = Some row \<and> sv_Compiled ver = vr_compiled row"
    by (auto simp: find_version_def same_tables_sel)
qed

lemma rollback_target_Inr:
  assumes "rollback_target env nid sid version force r = (Inr snap, r')"
  obtains ver fds where "in_store (st_GetVersion nid sid version) r = (Inr ver, r')"
    "lib_Unmarshal (re_lib env) (sv_Compiled ver) = Inr fds" "New (re_lib env) version fds = Inr snap"
    "\<And>cur. reg_Current (reg_mem r') nid sid = Some cur \<Longrightarrow> \<not> force \<Longrightarrow> result_OK (Check (re_lib env) (Some cur) snap)"
proof -
  from assms obtain ver fds r1 where get: "in_store (st_GetVersion nid sid version) r = (Inr ver, r1)"
    and fds: "lib_Unmarshal (re_lib env) (sv_Compiled ver) = Inr fds" "New (re_lib env) version fds = Inr snap"
    and check: "(case (if force then None else reg_Current (reg_mem r1) nid sid) of None \<Rightarrow> retA ()
        | Some cur \<Rightarrow> (let result = Check (re_lib env) (Some cur) snap in
            if result_OK result then retA ()
            else failA (Errorf (''rollback to version '' @ fmt_u64 version @ '' would break consumers of '' @ nid @ ''/'' @ sid
              @ '': '' @ result_Error result @ ''; pass force=true to override'')))) r1 = (Inr (), r')"
    unfolding rollback_target_def by (auto simp del: zoomA_Inr)
  then have "r' = r1" "\<And>cur. reg_Current (reg_mem r1) nid sid = Some cur \<Longrightarrow> \<not> force \<Longrightarrow> result_OK (Check (re_lib env) (Some cur) snap)"
    by (auto simp: Let_def split: option.splits if_splits)
  with get fds that show ?thesis by blast
qed

lemma regs_rollback_target: "regs.holds (rollback_target env nid sid version force)"
  unfolding rollback_target_def Let_def by (intro regs.holds_rules regs_reads reads_registry)

lemma regs_Rollback: "regs.holds (Rollback env nid sid version force)"
proof (rule regs.holdsI, rule impI)
  fix r x r' assume run: "Rollback env nid sid version force r = (x, r')" and inv: "reg_inv r"
  note first = regs.holdsD [OF regs_rollback_target]
  from run [unfolded Rollback_def] show "reg_inv r'"
  proof (cases rule: bindA_cases)
    case (fail e)
    with first inv show ?thesis by blast
  next
    case (ok snap r1)
    with first inv have inv1: "reg_inv r1" by blast
    from ok(1) obtain ver fds where get: "in_store (st_GetVersion nid sid version) r = (Inr ver, r1)"
      and snap: "New (re_lib env) version fds = Inr snap" by (rule rollback_target_Inr)
    from get obtain row where row: "find_version (reg_db r1) nid sid (versionToDB version) = Some row"
      using st_GetVersion_Inr(2) by fastforce
    from find_version_key [OF row] inv1 have key: "(nid, sid, versionToDB version) \<in> version_keys (reg_db r1)"
      "(nid, sid) \<in> schema_keys (reg_db r1)" and "1 \<le> versionToDB version"
      by (auto simp: reg_inv_def db_keys_def foreign_keys_def versions_ok_def)
    then have "version \<noteq> 0" by (auto simp: versionToDB_def)
    with key New_snap_version [OF snap] show ?thesis
      by (intro regs_staging [where snap = snap, OF inv1 _ _ _ _ _ ok(2)])
        (simp_all add: db_number_def thenA_def bindA_def modifyA_def)
  qed
qed

lemma wrap_state: "snd (thenA (wrapA p m) n r) = snd (thenA m n r)"
  by (auto simp: thenA_def bindA_def wrapA_def wrapE_def split: prod.splits sum.splits)

lemma reg_areas_SetParent [simp]:
  "reg_Current (SetParent n p mem) nid sid = reg_Current mem nid sid"
  "reg_Staged (SetParent n p mem) nid sid = reg_Staged mem nid sid"
  by (auto simp: reg_Current_def reg_Staged_def SetParent_def Current_def Staged_def getSlot_def split: option.splits)

lemma parent_change_view:
  "db_current n (parent_change nid parent actor db) sid = db_current n db sid"
  "db_staged n (parent_change nid parent actor db) sid = db_staged n db sid"
  "versions_ok (parent_change nid parent actor db) = versions_ok db" "refs_ok (parent_change nid parent actor db) = refs_ok db"
  by (simp_all add: parent_change_def db_current_def db_staged_def find_schema_def versions_ok_def refs_ok_def)

lemma reg_inv_parent:
  assumes inv: "reg_inv r" and run: "st_SetNamespaceParent nid parent actor (reg_db r) = (Inr u, t)"
  shows "reg_inv (r\<lparr>reg_db := t, reg_mem := SetParent nid parent (GetOrCreate nid (reg_mem r))\<rparr>)"
proof -
  note change = st_SetNamespaceParent_Inr [OF run]
  from change(1) have nid: "nid \<in> ns_ids (reg_db r)" by (simp add: parent_allowed_def)
  have "db_keys t" using keys.holdsD [OF keys_ops(2) run] inv by (simp add: reg_inv_def)
  moreover have "versions_ok t" "refs_ok t"
    using inv by (simp_all add: reg_inv_def same_tables_inv [OF change(2)] parent_change_view)
  moreover have "row_parent (db_namespaces t) n = (if n = nid then parent else row_parent (db_namespaces (reg_db r)) n)" for n
    using same_tables_sel(1) [OF change(2)] row_parent_set_parent_rows [OF nid] by (simp add: parent_change_def)
  ultimately show ?thesis
    using inv by (simp add: reg_inv_def coherent_def same_tables_db_area [OF change(2)] parent_change_view Parent_SetParent)
qed

lemma reg_inv_same_memory:
  assumes "reg_inv (r\<lparr>reg_mem := mem\<rparr>)"
    and "\<And>nid sid. reg_Current mem' nid sid = reg_Current mem nid sid" "\<And>nid sid. reg_Staged mem' nid sid = reg_Staged mem nid sid"
    and "\<And>nid. Parent mem' nid = Parent mem nid"
  shows "reg_inv (r\<lparr>reg_mem := mem'\<rparr>)"
  using assms by (simp add: reg_inv_def coherent_def)

lemma regs_reparent:
  assumes inv: "reg_inv r"
    and n: "\<And>t. \<exists>mem. snd (n (r\<lparr>reg_db := t\<rparr>)) = r\<lparr>reg_db := t, reg_mem := SetParent nid parent mem\<rparr> \<and> Get mem nid \<noteq> None
      \<and> (\<forall>m s. reg_Current mem m s = reg_Current (reg_mem r) m s \<and> reg_Staged mem m s = reg_Staged (reg_mem r) m s \<and> Parent mem m = Parent (reg_mem r) m)"
    and run: "thenA (in_store (st_SetNamespaceParent nid parent actor)) n r = (x, r')"
  shows "reg_inv r'"
  using run
proof (cases rule: thenA_cases)
  case (fail e)
  then obtain t where t: "st_SetNamespaceParent nid parent actor (reg_db r) = (Inl e, t)" "r' = r\<lparr>reg_db := t\<rparr>"
    by (auto elim: in_store_cases)
  then have "same_tables (reg_db r) t" unfolding st_SetNamespaceParent_def by (blast dest: transaction_Inl)
  with inv t(2) show ?thesis by (simp add: regs_failed_store)
next
  case (ok u r1)
  then obtain t where t: "st_SetNamespaceParent nid parent actor (reg_db r) = (Inr u, t)" "r1 = r\<lparr>reg_db := t\<rparr>" by auto
  from n [of t] obtain mem where mem: "snd (n r1) = r\<lparr>reg_db := t, reg_mem := SetParent nid parent mem\<rparr>" "Get mem nid \<noteq> None"
    "\<And>m s. reg_Current mem m s = reg_Current (reg_mem r) m s" "\<And>m s. reg_Staged mem m s = reg_Staged (reg_mem r) m s"
    "\<And>m. Parent mem m = Parent (reg_mem r) m" unfolding t(2) by blast
  from ok(2) mem(1) have r': "r' = r\<lparr>reg_db := t, reg_mem := SetParent nid parent mem\<rparr>" by simp
  show ?thesis unfolding r'
    by (rule reg_inv_same_memory [OF reg_inv_parent [OF inv t(1)]]) (use mem in \<open>auto simp: Parent_SetParent\<close>)
qed

lemma regs_SetNamespaceParent: "regs.holds (SetNamespaceParent env nid parent actor)"
proof -
  have "regs.holds (thenA (in_store (st_SetNamespaceParent nid parent actor))
     (thenA (in_memory (GetOrCreate nid)) (case parent of None \<Rightarrow> in_memory (SetParent nid None)
      | Some p \<Rightarrow> thenA (in_memory (GetOrCreate p)) (in_memory (SetParent nid (Some p))))))"
  proof (rule regs.holdsI, rule impI, rule regs_reparent, assumption)
    fix r :: registry and t
    let ?mem = "case parent of None \<Rightarrow> GetOrCreate nid (reg_mem r) | Some p \<Rightarrow> GetOrCreate p (GetOrCreate nid (reg_mem r))"
    show "\<exists>mem. snd (thenA (in_memory (GetOrCreate nid)) (case parent of None \<Rightarrow> in_memory (SetParent nid None)
        | Some p \<Rightarrow> thenA (in_memory (GetOrCreate p)) (in_memory (SetParent nid (Some p)))) (r\<lparr>reg_db := t\<rparr>)) =
        r\<lparr>reg_db := t, reg_mem := SetParent nid parent mem\<rparr> \<and> Get mem nid \<noteq> None
      \<and> (\<forall>m s. reg_Current mem m s = reg_Current (reg_mem r) m s \<and> reg_Staged mem m s = reg_Staged (reg_mem r) m s \<and> Parent mem m = Parent (reg_mem r) m)"
      by (rule exI [of _ ?mem]) (cases parent; simp add: thenA_def bindA_def modifyA_def)
  qed
  then show ?thesis unfolding SetNamespaceParent_def by (rule regs.holds_then [OF regs_gate])
qed

lemma regs_CreateNamespace: "regs.holds (CreateNamespace env req)"
proof -
  let ?nid = "cn_NamespaceID req"
  have attach: "regs.holds (thenA (in_memory (GetOrCreate ?nid))
     (thenA (wrapA q (in_store (st_SetNamespaceParent ?nid (Some p) actor)))
       (thenA (in_memory (GetOrCreate p)) (in_memory (SetParent ?nid (Some p))))))" for p q actor
  proof (rule regs.holdsI, rule impI)
    fix r :: registry and x r' assume inv: "reg_inv r" and run: "thenA (in_memory (GetOrCreate ?nid))
     (thenA (wrapA q (in_store (st_SetNamespaceParent ?nid (Some p) actor)))
       (thenA (in_memory (GetOrCreate p)) (in_memory (SetParent ?nid (Some p))))) r = (x, r')"
    let ?r = "r\<lparr>reg_mem := GetOrCreate ?nid (reg_mem r)\<rparr>" and ?n = "thenA (in_memory (GetOrCreate p)) (in_memory (SetParent ?nid (Some p)))"
    have "in_memory (GetOrCreate ?nid) r = (Inr (), ?r)" by (simp add: modifyA_def)
    with inv regs_GetOrCreate have inv1: "reg_inv ?r" by (blast dest: regs.holdsD)
    obtain y where "thenA (in_store (st_SetNamespaceParent ?nid (Some p) actor)) ?n ?r = (y, r')"
      using run wrap_state [of q "in_store (st_SetNamespaceParent ?nid (Some p) actor)" ?n ?r]
      by (cases "thenA (in_store (st_SetNamespaceParent ?nid (Some p) actor)) ?n ?r") (simp add: thenA_def bindA_def modifyA_def)
    then show "reg_inv r'"
    proof (rule regs_reparent [OF inv1, rotated])
      fix t
      show "\<exists>mem. snd (?n (?r\<lparr>reg_db := t\<rparr>)) = ?r\<lparr>reg_db := t, reg_mem := SetParent ?nid (Some p) mem\<rparr> \<and> Get mem ?nid \<noteq> None
        \<and> (\<forall>m s. reg_Current mem m s = reg_Current (reg_mem ?r) m s \<and> reg_Staged mem m s = reg_Staged (reg_mem ?r) m s
          \<and> Parent mem m = Parent (reg_mem ?r) m)"
        by (rule exI [of _ "GetOrCreate p (GetOrCreate ?nid (reg_mem r))"]) (simp add: thenA_def bindA_def modifyA_def)
    qed
  qed
  have store: "regs.holds (wrapA q (in_store (st_CreateNamespace ns)))" if "sn_ParentNamespaceID ns = None" for q ns
    unfolding st_CreateNamespace_def using that
    by (intro regs.holds_wrap regs_store) (simp_all add: keys_CreateNamespace views_CreateNamespace)
  show ?thesis
  proof (cases "cn_ParentID req")
    case None
    then show ?thesis unfolding CreateNamespace_def Let_def
      by (auto intro!: regs.holds_then regs_gate regs_GetOrCreate store regs.holds_simple)
  next
    case (Some p)
    then show ?thesis unfolding CreateNamespace_def Let_def
      by (auto intro!: regs.holds_then [OF regs_gate] regs.holds_then [OF store] attach)
  qed
qed

section \<open>Reachable states\<close>

text \<open>
  The histories of a registry: any sequence of calls, each with any authorizer and request, while the
  clock moves and statements fail as they will.
\<close>

inductive reg_step :: "registry \<Rightarrow> registry \<Rightarrow> bool" where
  publish: "reg_step r (snd (Publish env req r))"
| promote: "reg_step r (snd (Promote env nid r))"
| discard: "reg_step r (snd (DiscardStaging nid r))"
| rollback: "reg_step r (snd (Rollback env nid sid v force r))"
| create: "reg_step r (snd (CreateNamespace env creq r))"
| reparent: "reg_step r (snd (SetNamespaceParent env nid parent actor r))"
| rebase: "reg_step r (snd (Rebase env nid sid actor r))"
| world: "reg_step r (r\<lparr>reg_db := (reg_db r)\<lparr>db_faults := fs, db_clock := now\<rparr>\<rparr>)"

definition empty_db :: "(string \<Rightarrow> string) \<Rightarrow> db" where
  "empty_db collation = \<lparr>db_namespaces = [], db_events = [], db_blobs = [], db_schemas = [], db_versions = [], db_files = [],
     db_deps = [], db_next_event = 1, db_clock = 0, db_collation = collation, db_faults = []\<rparr>"

inductive reachable :: "registry \<Rightarrow> bool" where
  start: "reachable \<lparr>reg_db = empty_db collation, reg_mem = []\<rparr>"
| step: "reachable r \<Longrightarrow> reg_step r r' \<Longrightarrow> reachable r'"

lemma reg_inv_world: "reg_inv r \<Longrightarrow> reg_inv (r\<lparr>reg_db := (reg_db r)\<lparr>db_faults := fs, db_clock := now\<rparr>\<rparr>)"
  by (simp add: reg_inv_def coherent_def db_keys_def primary_keys_def foreign_keys_def versions_ok_def refs_ok_def
      db_current_def db_staged_def find_schema_def)

lemmas regs_ops = regs_Publish regs_Promote regs_DiscardStaging regs_Rollback regs_CreateNamespace
  regs_SetNamespaceParent regs_Rebase

lemma reg_inv_step: "reg_step r r' \<Longrightarrow> reg_inv r \<Longrightarrow> reg_inv r'"
  by (induction rule: reg_step.induct) (use regs_ops reg_inv_world in \<open>auto simp: regs.holds_def\<close>)

lemma reg_inv_start: "reg_inv \<lparr>reg_db = empty_db collation, reg_mem = []\<rparr>"
  by (simp add: reg_inv_def coherent_def db_keys_def primary_keys_def foreign_keys_def versions_ok_def refs_ok_def
      db_current_def db_staged_def find_schema_def empty_db_def reg_Current_def reg_Staged_def Parent_def Get_def row_parent_def)

lemma reachable_inv: "reachable r \<Longrightarrow> reg_inv r"
  by (induction rule: reachable.induct) (auto intro: reg_inv_start reg_inv_step)

end
