(* ===== verification/Registry_Props.thy ===== *)
theory Registry_Props
  imports Registry_Facts
begin

text \<open>
  What the registry's methods guarantee to their callers: which versions consumers see and when,
  that a denied or failed call changes nothing they can see, the number and the content of a
  published version, and what the audit log says.
\<close>

section \<open>Who changes the current versions\<close>

definition same_current :: "db \<Rightarrow> db \<Rightarrow> bool" where
  "same_current s t \<longleftrightarrow> (\<forall>nid sid. db_current nid t sid = db_current nid s sid)"

interpretation dbcur: db_order same_current
  by unfold_locales (auto simp: same_current_def db_current_def find_schema_def)

lemma dbcur_views: "views.holds m \<Longrightarrow> dbcur.holds m"
  by (auto simp: views.holds_def dbcur.holds_def keeps_view_def same_view_def same_current_def)

lemma dbcur_reads: "reads.holds m \<Longrightarrow> dbcur.holds m"
  by (intro dbcur_views views_reads)

lemma dbcur_frame: "db_schemas t = db_schemas s \<Longrightarrow> same_current s t"
  by (simp add: same_current_def db_current_def find_schema_def)

lemma dbcur_schemas:
  assumes "\<And>s. sr_ns (f s) = sr_ns s" "\<And>s. sr_id (f s) = sr_id s" "\<And>s. sr_current (f s) = sr_current s"
  shows "dbcur.holds (statement (modifyA (update_schemas Q f)))"
  by (rule dbcur.holds_statement_modify) (auto simp: same_current_def db_current_def find_schema_update assms split: option.splits)

lemma dbcur_ops:
  "dbcur.holds (st_CreateNamespace ns)" "dbcur.holds (st_SetNamespaceParent nid parent actor)" "dbcur.holds (st_PutBlob b)"
  "dbcur.holds (st_PutVersion ver files deps)" "dbcur.holds (st_SetStaged nid sid v)" "dbcur.holds (st_DiscardStaging nid)"
proof -
  have stmts: "dbcur.holds (q_CreateNamespace nid meta parent)" "dbcur.holds (q_ClearNamespaceParent nid)"
    "dbcur.holds (q_SetNamespaceParent p nid)" "dbcur.holds (q_RecordNamespaceParentEvent nid prev new actor)"
    "dbcur.holds (q_PutBlob nid sha src sz)" "dbcur.holds (q_InsertVersion vrow)" "dbcur.holds (q_InsertVersionFile frow)"
    "dbcur.holds (q_InsertVersionDep drow)" for nid meta parent p prev new actor sha src sz vrow frow drow
    unfolding q_CreateNamespace_def q_ClearNamespaceParent_def q_SetNamespaceParent_def q_RecordNamespaceParentEvent_def
      q_PutBlob_def q_InsertVersion_def q_InsertVersionFile_def q_InsertVersionDep_def
    by (rule dbcur.holds_statement; auto intro!: dbcur_frame split: if_splits)+
  show "dbcur.holds (st_CreateNamespace ns)" "dbcur.holds (st_SetNamespaceParent nid parent actor)" "dbcur.holds (st_PutBlob b)"
    "dbcur.holds (st_PutVersion ver files deps)"
    unfolding st_CreateNamespace_def st_SetNamespaceParent_def set_parent_body_def q_GetNamespace_def st_PutBlob_def
      st_PutVersion_def put_version_body_def by (intro dbcur.store_rules stmts)+
  show "dbcur.holds (st_SetStaged nid sid v)" "dbcur.holds (st_DiscardStaging nid)"
    unfolding st_SetStaged_def q_ClearStagedVersion_def q_SetStagedVersion_def st_DiscardStaging_def q_DiscardAllStaged_def
    by (auto intro!: dbcur.holds_if dbcur_schemas)
qed

definition current_kept :: "registry \<Rightarrow> registry \<Rightarrow> bool" where
  "current_kept r r' \<longleftrightarrow> same_current (reg_db r) (reg_db r') \<and>
     (\<forall>nid sid. reg_Current (reg_mem r') nid sid = reg_Current (reg_mem r) nid sid)"

interpretation curs: state_order current_kept
  by unfold_locales (auto simp: current_kept_def same_current_def)

lemma curs_store: "dbcur.holds m \<Longrightarrow> curs.holds (in_store m)"
  by (rule curs.holds_zoom) (auto simp: current_kept_def dest: dbcur.holdsD)

lemma curs_reads: "reads.holds m \<Longrightarrow> curs.holds (in_store m)"
  by (intro curs_store dbcur_reads)

lemma curs_memory:
  assumes "\<And>mem nid sid. reg_Current (F mem) nid sid = reg_Current mem nid sid"
  shows "curs.holds (in_memory F)"
  by (rule curs.holds_modify) (simp add: current_kept_def assms dbcur.ok_refl)

lemma reg_Current_on_namespace:
  assumes "\<And>ns sid. Current sid (F ns) = Current sid ns"
  shows "reg_Current (on_namespace n F mem) nid sid = reg_Current mem nid sid"
  by (auto simp: reg_Current_def assms split: option.splits)

lemma curs_staging: "curs.holds (in_memory (on_namespace nid (SetStaged sid snap)))" "curs.holds (in_memory (on_namespace nid ns_DiscardStaging))"
  "curs.holds (in_memory (GetOrCreate nid))" "curs.holds (in_memory (SetParent nid p))"
  by (rule curs_memory; simp add: reg_Current_on_namespace memory_area.current_set_staged memory_area.current_discard)+

lemma curs_gate: "curs.holds (gate d)"
  unfolding gate_def by (intro curs.holds_rules)

lemma curs_gatherChainTiers: "curs.holds (gatherChainTiers nid)"
  unfolding gatherChainTiers_def by (intro curs.holds_rules curs_reads reads.holds_for reads_registry)

lemma curs_publishInternal: "curs.holds (publishInternal env req forceNew)"
proof -
  have "curs.holds (publish_compile env req)"
    unfolding publish_compile_def Let_def
    by (intro curs.holds_rules curs_reads reads_registry curs_staging curs_gatherChainTiers curs_store dbcur_views views_ensure)
  moreover have "curs.holds (publish_store env req v result)" for v result
    unfolding publish_store_def Let_def put_blobs_def
    by (intro curs.holds_rules curs_staging curs_store dbcur.store_rules dbcur_ops)
  ultimately show ?thesis unfolding publishInternal_def Let_def case_prod_unfold
    by (intro curs.holds_rules curs_reads reads_registry)
qed

section \<open>The version a publish adds\<close>

interpretation vers: db_order "\<lambda>s t. db_versions t = db_versions s"
  by unfold_locales auto

lemma vers_reads: "reads.holds m \<Longrightarrow> vers.holds m"
  by (auto simp: reads.holds_def vers.holds_def dest: same_tables_sel(5))

lemma vers_ops: "vers.holds (st_CreateNamespace ns)" "vers.holds (st_CreateSchema nid sid meta)" "vers.holds (st_PutBlob b)"
  unfolding st_CreateNamespace_def st_CreateSchema_def st_PutBlob_def q_CreateNamespace_def q_CreateSchema_def q_PutBlob_def
  by (rule vers.holds_statement; auto split: if_splits)+

lemma vers_ensure: "vers.holds (ensureNamespaceAndSchema nid sid)"
  unfolding ensureNamespaceAndSchema_def
  by (intro vers.store_rules vers_ops vers_reads reads_ops)

lemma vers_put_blobs: "vers.holds (put_blobs nid files)"
  unfolding put_blobs_def by (intro vers.store_rules vers_ops)

interpretation regvers: state_order "\<lambda>r r'. db_versions (reg_db r') = db_versions (reg_db r)"
  by unfold_locales auto

lemma regvers_store: "vers.holds m \<Longrightarrow> regvers.holds (in_store m)"
  by (rule regvers.holds_zoom) (auto dest: vers.holdsD)

lemma regvers_reads: "reads.holds m \<Longrightarrow> regvers.holds (in_store m)"
  by (intro regvers_store vers_reads)

lemma regvers_memory: "regvers.holds (in_memory F)"
  by (rule regvers.holds_modify) simp

lemma regvers_publish_compile: "regvers.holds (publish_compile env req)"
  unfolding publish_compile_def gatherChainTiers_def Let_def
  by (intro regvers.holds_rules regvers_reads reads.holds_for reads_registry regvers_memory regvers_store vers_ensure)

lemma publish_store_Inr:
  assumes "publish_store env req v result r = (Inr res, r')" and "v \<noteq> 0"
  obtains d where "db_versions d = db_versions (reg_db r)"
    "same_tables (stage_rows (pq_NamespaceID req) (pq_SchemaID req) (versionToDB v) (put_version_rows
       (version_of (re_lib env) req v (cr_Compiled result)) (version_files_of req v (cr_Files result)) (version_deps_of req v (cr_Deps result)) d))
       (reg_db r')"
    "(pq_NamespaceID req, pq_SchemaID req, versionToDB v) \<notin> version_keys d" "(pq_NamespaceID req, pq_SchemaID req) \<in> schema_keys d"
    "reg_mem r' = on_namespace (pq_NamespaceID req) (SetStaged (pq_SchemaID req) (cr_Snapshot result)) (reg_mem r)"
    "res = \<lparr>pr_Version = v, pr_Fingerprint = ComputeFingerprint (re_lib env) (cr_Files result),
       pr_Snapshot = Some (cr_Snapshot result), pr_NoChange = False\<rparr>"
proof -
  let ?nid = "pq_NamespaceID req" and ?sid = "pq_SchemaID req"
  let ?ver = "version_of (re_lib env) req v (cr_Compiled result)"
    and ?files = "version_files_of req v (cr_Files result)" and ?deps = "version_deps_of req v (cr_Deps result)"
  from assms(1) obtain d t u w z t' where blobs: "put_blobs ?nid (cr_Files result) (reg_db r) = (Inr z, d)"
    and put: "st_PutVersion ?ver ?files ?deps d = (Inr u, t)" and stage: "st_SetStaged ?nid ?sid v t = (Inr w, t')"
    and r': "reg_db r' = t'" "reg_mem r' = on_namespace ?nid (SetStaged ?sid (cr_Snapshot result)) (reg_mem r)"
    and res: "res = \<lparr>pr_Version = v, pr_Fingerprint = ComputeFingerprint (re_lib env) (cr_Files result),
       pr_Snapshot = Some (cr_Snapshot result), pr_NoChange = False\<rparr>"
    unfolding publish_store_def Let_def by auto
  have "db_versions d = db_versions (reg_db r)" using vers.holdsD [OF vers_put_blobs blobs] .
  moreover have "same_tables (stage_rows ?nid ?sid (versionToDB v) t) t'" using st_SetStaged_result [OF stage assms(2)] by simp
  with same_tables_update_schemas [OF st_PutVersion_Inr(1) [OF put]] r'(1)
  have "same_tables (stage_rows ?nid ?sid (versionToDB v) (put_version_rows ?ver ?files ?deps d)) (reg_db r')"
    by (auto intro: same_tables_trans)
  moreover have "(?nid, ?sid, versionToDB v) \<notin> version_keys d" "(?nid, ?sid) \<in> schema_keys d"
    using st_PutVersion_Inr(2,3) [OF put] by (simp_all add: version_of_def)
  ultimately show ?thesis using that r'(2) res by blast
qed

lemma sorted_snoc_max: "(\<And>x. x \<in> set xs \<Longrightarrow> x \<le> v) \<Longrightarrow> sort (xs @ [v]) = sort xs @ [v]" for v :: int
  by (rule properties_for_sort) (auto simp: sorted_append)

lemma publishInternal_Inr:
  assumes "publishInternal env req forceNew r = (Inr res, r')" and "\<not> pr_NoChange res"
  obtains v result r1 r2 where "publish_compile env req r = (Inr (v, result), r1)" "reg_mem r2 = reg_mem r1"
    "same_tables (reg_db r1) (reg_db r2)" "publish_store env req v result r2 = (Inr res, r')"
proof -
  from assms(1) obtain v result r1 noChange r2 where one: "publish_compile env req r = (Inr (v, result), r1)"
    and check: "(if forceNew then retA False else in_store (isUnchanged (re_lib env) (pq_NamespaceID req) (pq_SchemaID req)
        (ComputeFingerprint (re_lib env) (cr_Files result)))) r1 = (Inr noChange, r2)"
    and rest: "(if noChange then retA \<lparr>pr_Version = 0, pr_Fingerprint = ComputeFingerprint (re_lib env) (cr_Files result),
        pr_Snapshot = None, pr_NoChange = True\<rparr> else publish_store env req v result) r2 = (Inr res, r')"
    unfolding publishInternal_def Let_def by (auto simp del: zoomA_Inr)
  have "reg_mem r2 = reg_mem r1 \<and> same_tables (reg_db r1) (reg_db r2)"
    using check reads_in_store [OF reads_checks(1)] by (auto simp: same_tables_refl split: if_splits simp del: zoomA_Inr)
  moreover have "publish_store env req v result r2 = (Inr res, r')"
    using rest assms(2) by (auto split: if_splits)
  ultimately show ?thesis using that one by blast
qed

text \<open>The number of a new version follows the last one; it fits the column, since the insert would have failed otherwise.\<close>

lemma next_version_fits:
  assumes "versions_ok db" and v: "v = next_version (map versionFromDB (live_versions db nid sid))"
    and fresh: "(nid, sid, versionToDB v) \<notin> version_keys db"
  shows "uint v = (if live_versions db nid sid = [] then 0 else last (live_versions db nid sid)) + 1"
    and "uint v \<le> max_int64"
proof -
  let ?vs = "live_versions db nid sid"
  have "uint v = (if ?vs = [] then 0 else last ?vs) + 1 \<and> uint v \<le> max_int64"
  proof (cases "?vs = []")
    case True
    then show ?thesis by (simp add: v next_version_def)
  next
    case False
    let ?l = "last ?vs"
    from False have "?l \<in> set ?vs" by simp
    then obtain row where row: "row \<in> set (db_versions db)" "vr_ns row = nid" "vr_schema row = sid" "vr_version row = ?l"
      by (auto simp: live_versions_def)
    then have key: "(nid, sid, ?l) \<in> version_keys db" by force
    from row(1,4) assms(1) have l: "1 \<le> ?l" "?l \<le> max_int64" by (auto simp: versions_ok_def)
    then have u: "uint v = ?l + 1" using False by (simp add: v next_version_def last_map uint_succ_versionFromDB)
    have "uint v \<le> max_int64"
    proof (rule ccontr)
      assume "\<not> uint v \<le> max_int64"
      with u l have "?l = max_int64" "versionToDB v = max_int64" by (auto simp: versionToDB_def)
      with key fresh show False by simp
    qed
    with u False show ?thesis by simp
  qed
  then show "uint v = (if ?vs = [] then 0 else last ?vs) + 1" and "uint v \<le> max_int64" by auto
qed

lemma live_versions_snoc:
  assumes "db_versions t = db_versions s @ [row]" and "vr_ns row = nid" "vr_schema row = sid" "vr_deleted_at row = None"
    and "\<And>w. w \<in> set (live_versions s nid sid) \<Longrightarrow> w \<le> vr_version row"
  shows "live_versions t nid sid = live_versions s nid sid @ [vr_version row]"
proof -
  let ?xs = "map vr_version (filter (\<lambda>r. vr_ns r = nid \<and> vr_schema r = sid \<and> vr_deleted_at r = None) (db_versions s))"
  have "sort (?xs @ [vr_version row]) = sort ?xs @ [vr_version row]"
    by (rule sorted_snoc_max) (use assms(5) in \<open>auto simp: live_versions_def\<close>)
  with assms(1-4) show ?thesis by (simp add: live_versions_def)
qed

lemma chain_from_parents:
  assumes "\<And>n. Parent m n = Parent m' n"
  shows "chain_from m cur chain = chain_from m' cur chain"
  using assms
proof (induction m cur chain rule: chain_from.induct)
  case (1 mem cur chain)
  then show ?case by (subst (1 2) chain_from.simps) (auto split: option.splits)
qed

text \<open>A publish that made a version, in terms of the state it started from.\<close>

lemma publish_new_version:
  assumes inv: "reg_inv r" and run: "publishInternal env req forceNew r = (Inr res, r')" and "\<not> pr_NoChange res"
  obtains w and result :: compile_result and d where
    "w = next_version (map versionFromDB (live_versions (reg_db r) (pq_NamespaceID req) (pq_SchemaID req)))"
    "w \<noteq> 0" "snap_version (cr_Snapshot result) = w"
    "db_versions d = db_versions (reg_db r)"
    "(pq_NamespaceID req, pq_SchemaID req, versionToDB w) \<notin> version_keys (reg_db r)"
    "(pq_NamespaceID req, pq_SchemaID req) \<in> schema_keys d"
    "same_tables (stage_rows (pq_NamespaceID req) (pq_SchemaID req) (versionToDB w) (put_version_rows
       (version_of (re_lib env) req w (cr_Compiled result)) (version_files_of req w (cr_Files result)) (version_deps_of req w (cr_Deps result)) d))
       (reg_db r')"
    "reg_mem r' = on_namespace (pq_NamespaceID req) (SetStaged (pq_SchemaID req) (cr_Snapshot result)) (GetOrCreate (pq_NamespaceID req) (reg_mem r))"
    "checkAncestorFQNConflicts (GetOrCreate (pq_NamespaceID req) (reg_mem r)) (cr_Snapshot result) (pq_NamespaceID req) = Inr ()"
    "res = \<lparr>pr_Version = w, pr_Fingerprint = ComputeFingerprint (re_lib env) (cr_Files result),
       pr_Snapshot = Some (cr_Snapshot result), pr_NoChange = False\<rparr>"
proof -
  from publishInternal_Inr [OF run assms(3)] obtain w result r1 r2 where
      first: "publish_compile env req r = (Inr (w, result), r1)" and r2: "reg_mem r2 = reg_mem r1" "same_tables (reg_db r1) (reg_db r2)"
    and store: "publish_store env req w result r2 = (Inr res, r')" .
  have inv1: "versions_ok (reg_db r1)" using regs.holdsD [OF regs_publish_compile first] inv by (simp add: reg_inv_def)
  have same: "db_versions (reg_db r1) = db_versions (reg_db r)" using regvers.holdsD [OF regvers_publish_compile first] .
  then have live: "live_versions (reg_db r1) n s = live_versions (reg_db r) n s" for n s by (simp add: live_versions_def)
  note facts = publish_compile_Inr [OF first]
  have w0: "w \<noteq> 0" using next_version_positive [OF inv1] facts(1) by simp
  have sv: "snap_version (cr_Snapshot result) = w" using facts(2) Compile_snap_version by blast
  have r2v: "db_versions (reg_db r2) = db_versions (reg_db r)" using same same_tables_sel(5) [OF r2(2)] by simp
  from publish_store_Inr [OF store w0] obtain d where d: "db_versions d = db_versions (reg_db r2)"
    "same_tables (stage_rows (pq_NamespaceID req) (pq_SchemaID req) (versionToDB w) (put_version_rows
       (version_of (re_lib env) req w (cr_Compiled result)) (version_files_of req w (cr_Files result)) (version_deps_of req w (cr_Deps result)) d))
       (reg_db r')"
    "(pq_NamespaceID req, pq_SchemaID req, versionToDB w) \<notin> version_keys d" "(pq_NamespaceID req, pq_SchemaID req) \<in> schema_keys d"
    "reg_mem r' = on_namespace (pq_NamespaceID req) (SetStaged (pq_SchemaID req) (cr_Snapshot result)) (reg_mem r2)"
    "res = \<lparr>pr_Version = w, pr_Fingerprint = ComputeFingerprint (re_lib env) (cr_Files result),
       pr_Snapshot = Some (cr_Snapshot result), pr_NoChange = False\<rparr>" .
  show ?thesis
  proof (rule that [of w result d])
    show "w = next_version (map versionFromDB (live_versions (reg_db r) (pq_NamespaceID req) (pq_SchemaID req)))"
      using facts(1) live by simp
    show "checkAncestorFQNConflicts (GetOrCreate (pq_NamespaceID req) (reg_mem r)) (cr_Snapshot result) (pq_NamespaceID req) = Inr ()"
      using facts(3,4) by simp
  qed (use d w0 sv r2v r2(1) facts(4) in simp_all)
qed

lemma checkAncestorFQNConflicts_GetOrCreate:
  "checkAncestorFQNConflicts (GetOrCreate n mem) child nid = checkAncestorFQNConflicts mem child nid"
proof -
  have "first_conflict (GetOrCreate n mem) child as = first_conflict mem child as" for as
    by (induction as) (auto simp: ancestor_conflicts_def SchemaIDs_def newNamespace_def split: option.splits)
  moreover have "Chain (GetOrCreate n mem) nid = Chain mem nid"
    unfolding Chain_def by (rule chain_from_parents) simp
  ultimately show ?thesis by (simp add: checkAncestorFQNConflicts_def Let_def)
qed

lemma sorted_le_last: "sorted xs \<Longrightarrow> x \<in> set xs \<Longrightarrow> x \<le> last xs"
  by (induction xs) auto

lemma live_versions_le_last: "x \<in> set (live_versions db nid sid) \<Longrightarrow> x \<le> last (live_versions db nid sid)"
  by (rule sorted_le_last) (simp_all add: live_versions_def)

lemma find_version_staged_put:
  assumes "same_tables (stage_rows n s k (put_version_rows ver files deps d)) t"
    and "(sv_NamespaceID ver, sv_SchemaID ver, versionToDB (sv_Version ver)) \<notin> version_keys d"
  shows "find_version t (sv_NamespaceID ver) (sv_SchemaID ver) (versionToDB (sv_Version ver)) = Some ((version_to_row ver)\<lparr>vr_created_at := db_clock d\<rparr>)"
proof -
  from assms(2) have "find_version d (sv_NamespaceID ver) (sv_SchemaID ver) (versionToDB (sv_Version ver)) = None"
    by (force simp: find_version_def find_None_iff)
  then show ?thesis using same_tables_sel(5) [OF assms(1)]
    by (simp add: find_version_def put_version_rows_def update_schemas_def find_append_new version_to_row_def)
qed

section \<open>The audit log of a reachable registry\<close>

interpretation trail: state_order "\<lambda>r r'. audited (reg_db r) \<longrightarrow> audited (reg_db r')"
  by unfold_locales auto

lemma trail_store: "audit.holds m \<Longrightarrow> trail.holds (in_store m)"
  by (rule trail.holds_zoom) (auto dest: audit.holdsD)

lemma audit_reads: "reads.holds m \<Longrightarrow> audit.holds m"
  unfolding reads.holds_def audit.holds_def using audited_same by blast

lemma trail_reads: "reads.holds m \<Longrightarrow> trail.holds (in_store m)"
  by (intro trail_store audit_reads)

lemma trail_memory: "trail.holds (in_memory F)"
  by (rule trail.holds_modify) simp

lemma trail_gate: "trail.holds (gate d)"
  unfolding gate_def by (intro trail.holds_rules)

lemma audit_ensure: "audit.holds (ensureNamespaceAndSchema nid sid)"
  unfolding ensureNamespaceAndSchema_def
  by (intro audit.store_rules audit_ops audit_reads reads_ops) simp

lemma trail_publishInternal: "trail.holds (publishInternal env req forceNew)"
proof -
  have "trail.holds (publish_compile env req)"
    unfolding publish_compile_def gatherChainTiers_def Let_def
    by (intro trail.holds_rules trail_reads reads.holds_for reads_registry trail_memory trail_store audit_ensure)
  moreover have "trail.holds (publish_store env req v result)" for v result
    unfolding publish_store_def Let_def put_blobs_def
    by (intro trail.holds_rules trail_memory trail_store audit.store_rules audit_ops)
  ultimately show ?thesis unfolding publishInternal_def Let_def case_prod_unfold
    by (intro trail.holds_rules trail_reads reads_registry)
qed

lemma trail_ops:
  "trail.holds (Publish env req)" "trail.holds (Rebase env nid sid actor)" "trail.holds (Rollback env nid sid v force)"
  "trail.holds (DiscardStaging nid)" "trail.holds (CreateNamespace env creq)" "trail.holds (SetNamespaceParent env nid parent actor)"
  "trail.holds (Promote env nid)"
  unfolding Publish_def Rebase_def Rollback_def rollback_target_def DiscardStaging_def CreateNamespace_def SetNamespaceParent_def
    Promote_def Let_def
  by (intro trail.holds_rules trail_gate trail_publishInternal trail_reads reads_registry trail_memory trail_store audit_ops; simp)+

lemma audited_world: "audited (db\<lparr>db_faults := fs, db_clock := now\<rparr>) = audited db"
  by (simp add: audited_def)

lemma reachable_trail: "reachable r \<Longrightarrow> audited (reg_db r)"
proof (induction rule: reachable.induct)
  case (start collation)
  then show ?case by (simp add: audited_def trail_ok_def row_parent_def replay_def empty_db_def fun_eq_iff)
next
  case (step r r')
  from step.hyps(2) step.IH show ?case
    by (cases rule: reg_step.cases) (use trail_ops in \<open>auto simp: trail.holds_def audited_world\<close>)
qed

section \<open>Properties\<close>

text \<open>
  Property C6 (only_promote_changes_current). Apart from \<^verbatim>\<open>Promote\<close> no method changes what consumers see:
  publishing, rebasing, rolling back, discarding the staging area, creating a namespace and
  re-parenting leave the current version of every schema of every namespace as it was, in memory and
  in the database, whether they succeed or fail.
\<close>

theorem only_promote_changes_current:
  "current_kept r (snd (Publish env req r)) \<and> current_kept r (snd (Rebase env nid sid actor r)) \<and>
   current_kept r (snd (Rollback env nid sid v force r)) \<and> current_kept r (snd (DiscardStaging nid r)) \<and>
   current_kept r (snd (CreateNamespace env creq r)) \<and> current_kept r (snd (SetNamespaceParent env nid parent actor r))"
proof -
  have "curs.holds (Publish env req)" "curs.holds (Rebase env nid sid actor)" "curs.holds (Rollback env nid sid v force)"
    "curs.holds (DiscardStaging nid)" "curs.holds (CreateNamespace env creq)" "curs.holds (SetNamespaceParent env nid parent actor)"
    unfolding Publish_def Rebase_def Rollback_def rollback_target_def DiscardStaging_def CreateNamespace_def SetNamespaceParent_def Let_def
    by (intro curs.holds_rules curs_gate curs_publishInternal curs_reads reads_registry curs_staging curs_store dbcur_ops)+
  then show ?thesis by (simp add: curs.holds_def)
qed

definition deny_all :: authorizer where
  "deny_all = \<lparr>CanCreateNamespace = \<lambda>_ _. Some ErrPermissionDenied, CanSetNamespaceParent = \<lambda>_ _. Some ErrPermissionDenied,
     CanPublish = \<lambda>_ _. Some ErrPermissionDenied, CanPromote = \<lambda>_. Some ErrPermissionDenied,
     CanRebase = \<lambda>_ _. Some ErrPermissionDenied\<rparr>"

definition demo_env :: "authorizer \<Rightarrow> registry_env" where
  "demo_env a = \<lparr>re_lib = list_lib, re_compiler = compiler_New [], re_authz = a, re_authzExplicit = True\<rparr>"

definition fresh_registry :: registry where
  "fresh_registry = \<lparr>reg_db = empty_db (\<lambda>x. x), reg_mem = []\<rparr>"

definition demo_request :: publish_request where
  "demo_request = \<lparr>pq_NamespaceID = ''n'', pq_SchemaID = ''s'', pq_Sources = [(''a.proto'', ''src'')], pq_CreatedBy = ''u'',
     pq_Metadata = None, pq_Force = False\<rparr>"

text \<open>
  Property C7 (denied_changes_nothing). When the authorizer denies one of the five gated operations, the
  operation returns the authorizer's error, reads and writes nothing, and leaves the registry exactly as
  it was.
\<close>

theorem denied_changes_nothing:
  "(\<forall>e. CanPublish (re_authz env) (pq_NamespaceID req) (pq_SchemaID req) = Some e \<longrightarrow> Publish env req r = (Inl e, r)) \<and>
   (\<forall>e. CanPromote (re_authz env) nid = Some e \<longrightarrow> Promote env nid r = (Inl e, r)) \<and>
   (\<forall>e. CanRebase (re_authz env) nid '''' = Some e \<longrightarrow> Rebase env nid sid actor r = (Inl e, r)) \<and>
   (\<forall>e. CanCreateNamespace (re_authz env) (cn_NamespaceID creq) (cn_ParentID creq) = Some e \<longrightarrow> CreateNamespace env creq r = (Inl e, r)) \<and>
   (\<forall>e. CanSetNamespaceParent (re_authz env) nid parent = Some e \<longrightarrow> SetNamespaceParent env nid parent actor r = (Inl e, r))"
  by (simp add: Publish_def Promote_def Rebase_def CreateNamespace_def SetNamespaceParent_def gate_def thenA_def bindA_def failA_def Let_def)

theorem denied_changes_nothing_witness:
  "Publish (demo_env deny_all) demo_request fresh_registry = (Inl ErrPermissionDenied, fresh_registry)"
  using denied_changes_nothing [of "demo_env deny_all" demo_request fresh_registry]
  by (simp add: demo_env_def deny_all_def)

text \<open>
  Property C2 (promote_all_or_nothing). \<^verbatim>\<open>Promote\<close> on a reachable registry is atomic and checked: if it fails,
  memory and tables are as before; if it succeeds, every staged snapshot either passed the compatibility
  check against the current one or is a version no newer than it, the staged snapshots of the namespace -
  all of them - are now current, its staging area is empty, no other namespace changed, and the database
  names the same current versions as memory.
\<close>

theorem promote_all_or_nothing:
  assumes "reachable r" and "Promote env nid r = (x, r')"
  shows "case x of
     Inl _ \<Rightarrow> reg_mem r' = reg_mem r \<and> same_tables (reg_db r) (reg_db r')
   | Inr _ \<Rightarrow>
      (\<forall>sid staged. reg_Staged (reg_mem r) nid sid = Some staged \<longrightarrow>
         (\<exists>cur. reg_Current (reg_mem r) nid sid = Some cur \<and> snap_version staged \<le> snap_version cur) \<or>
         result_OK (Check (re_lib env) (reg_Current (reg_mem r) nid sid) staged)) \<and>
      (\<forall>n sid. reg_Current (reg_mem r') n sid =
         (case (if n = nid then reg_Staged (reg_mem r) nid sid else None) of
            Some staged \<Rightarrow> Some staged | None \<Rightarrow> reg_Current (reg_mem r) n sid)) \<and>
      (\<forall>n sid. reg_Staged (reg_mem r') n sid = (if n = nid then None else reg_Staged (reg_mem r) n sid)) \<and>
      (\<forall>n sid. db_current n (reg_db r') sid = map_option db_number (reg_Current (reg_mem r') n sid))"
proof (cases x)
  case (Inl e)
  with Promote_result [OF assms(2)] show ?thesis by simp
next
  case (Inr ps)
  with Promote_result [OF assms(2)] obtain ns us where ns: "Get (reg_mem r) nid = Some ns"
    and checked: "mapE (promote_check (re_lib env) nid ns) (SchemaIDs ns) = Inr us"
    and mem: "reg_mem r' = on_namespace nid (\<lambda>ns. snd (ns_Promote ns)) (reg_mem r)" by auto
  have "(\<exists>cur. reg_Current (reg_mem r) nid sid = Some cur \<and> snap_version staged \<le> snap_version cur) \<or>
      result_OK (Check (re_lib env) (reg_Current (reg_mem r) nid sid) staged)"
    if staged: "reg_Staged (reg_mem r) nid sid = Some staged" for sid staged
  proof -
    from staged ns have "sid \<in> set (SchemaIDs ns)"
      by (force simp: reg_Staged_def Staged_def getSlot_def SchemaIDs_def split: option.splits dest: map_of_SomeD)
    with checked obtain u where "promote_check (re_lib env) nid ns sid = Inr u" by (blast dest: mapE_Inr_mem_arg)
    with staged ns show ?thesis
      by (auto simp: promote_check_def reg_Staged_def reg_Current_def Let_def split: if_splits option.splits)
  qed
  moreover have "reg_inv r'" using reachable_inv [OF assms(1)] regs.holdsD [OF regs_Promote assms(2)] by blast
  ultimately show ?thesis using Inr ns
    by (simp add: reg_inv_def coherent_def mem reg_Current_def reg_Staged_def memory_area.current_promote memory_area.staged_promote
        split: option.splits)
qed

definition published :: registry where
  "published = snd (Publish (demo_env AllowAll) demo_request fresh_registry)"

lemma reachable_published: "reachable published"
  unfolding published_def fresh_registry_def by (rule reachable.step [OF reachable.start reg_step.publish])

theorem promote_all_or_nothing_witness:
  "reachable published \<and> (\<exists>snap. reg_Staged (reg_mem published) ''n'' ''s'' = Some snap \<and>
     reg_Current (reg_mem (snd (Promote (demo_env AllowAll) ''n'' published))) ''n'' ''s'' = Some snap)"
proof -
  let ?p = "Promote (demo_env AllowAll) ''n'' published"
  have "\<not> isl (fst ?p)" "reg_Staged (reg_mem published) ''n'' ''s'' \<noteq> None" by code_simp+
  then obtain ps snap where ps: "fst ?p = Inr ps" and snap: "reg_Staged (reg_mem published) ''n'' ''s'' = Some snap"
    by (cases "fst ?p") auto
  have "?p = (Inr ps, snd ?p)" using ps by (metis prod.collapse)
  from promote_all_or_nothing [OF reachable_published this] snap reachable_published show ?thesis by simp
qed

text \<open>
  Property C1 (reachable_coherent). After any sequence of calls since a start on an empty database (without a
  restart, and one call at a time), whatever the authorizers decided and
  whichever statements of the database failed: memory and database name the same current version, the
  same staged version and the same parent for every schema and namespace; every such version is stored;
  and the keys of all tables hold.
\<close>

theorem reachable_coherent:
  assumes "reachable r"
  shows "(\<forall>nid sid. db_current nid (reg_db r) sid = map_option db_number (reg_Current (reg_mem r) nid sid)) \<and>
    (\<forall>nid sid. db_staged nid (reg_db r) sid = map_option db_number (reg_Staged (reg_mem r) nid sid)) \<and>
    (\<forall>nid. row_parent (db_namespaces (reg_db r)) nid = Parent (reg_mem r) nid) \<and>
    db_keys (reg_db r) \<and> refs_ok (reg_db r) \<and> versions_ok (reg_db r)"
  using reachable_inv [OF assms] by (simp add: reg_inv_def coherent_def)

theorem reachable_coherent_witness:
  "db_staged ''n'' (reg_db published) ''s'' = Some 1 \<and>
   map_option db_number (reg_Staged (reg_mem published) ''n'' ''s'') = Some 1"
proof -
  have "db_staged ''n'' (reg_db published) ''s'' = Some 1" by code_simp
  with reachable_coherent [OF reachable_published] show ?thesis by metis
qed



text \<open>
  Property C16 (audit_log_explains_hierarchy). The audit log of re-parenting is complete: in every reachable
  registry, replaying the log from the start gives exactly the parent of every namespace that the resolution
  chain uses, and every entry names as previous parent the one the earlier entries left.
\<close>

theorem audit_log_explains_hierarchy:
  assumes "reachable r"
  shows "Parent (reg_mem r) nid = replay (db_events (reg_db r)) nid \<and>
    (\<forall>i < length (db_events (reg_db r)). er_previous (db_events (reg_db r) ! i) =
       replay (take i (db_events (reg_db r))) (er_ns (db_events (reg_db r) ! i)))"
  using reachable_trail [OF assms] reachable_inv [OF assms]
  by (simp add: audited_def trail_ok_def reg_inv_def coherent_def)

definition demo_child :: create_namespace_request where
  "demo_child = \<lparr>cn_NamespaceID = ''c'', cn_ParentID = Some ''n'', cn_Metadata = None, cn_ActorID = ''admin''\<rparr>"

theorem audit_log_explains_hierarchy_witness:
  "Parent (reg_mem (snd (CreateNamespace (demo_env AllowAll) demo_child published))) ''c'' = Some ''n'' \<and>
   replay (db_events (reg_db (snd (CreateNamespace (demo_env AllowAll) demo_child published)))) ''c'' = Some ''n''"
proof -
  let ?r = "snd (CreateNamespace (demo_env AllowAll) demo_child published)"
  have "reachable ?r" by (rule reachable.step [OF reachable_published reg_step.create])
  moreover have "Parent (reg_mem ?r) ''c'' = Some ''n''" by code_simp
  ultimately show ?thesis using audit_log_explains_hierarchy [of ?r "''c''"] by simp
qed

end
