(* ===== verification/Recovery.thy ===== *)
theory Recovery
  imports Registry_Props
begin

text \<open>
  Start-up recovery: what the loading queries and their grouping return, and what \<^verbatim>\<open>Restore\<close> rebuilds
  from a database. A restart keeps the current versions and the hierarchy; it loses the staging area
  in memory while the database keeps it.
\<close>

section \<open>Grouping the rows of a load\<close>

abbreviation lr_key :: "load_row \<Rightarrow> string \<times> string" where
  "lr_key row \<equiv> (lr_ns row, lr_schema row)"

abbreviation cs_key :: "current_schema \<Rightarrow> string \<times> string" where
  "cs_key cs \<equiv> (cs_NamespaceID cs, cs_SchemaID cs)"

definition from_row :: "load_row \<Rightarrow> current_schema \<Rightarrow> bool" where
  "from_row row cs \<longleftrightarrow> cs_key cs = lr_key row \<and> cs_Version cs = versionFromDB (lr_version row) \<and>
     cs_Compiled cs = lr_compiled row \<and> cs_CompilerVersion cs = lr_compiler row"

lemma group_row_keys:
  "map cs_key (group_row row result) = (if lr_key row \<in> cs_key ` set result then map cs_key result else map cs_key result @ [lr_key row])"
proof -
  have "list_ex (same_schema row) result \<longleftrightarrow> lr_key row \<in> cs_key ` set result"
    by (force simp: list_ex_iff same_schema_def image_iff)
  then show ?thesis by (auto simp: group_row_def row_schema_def)
qed

lemma group_row_from:
  "cs \<in> set (group_row row result) \<Longrightarrow> from_row row cs \<or> (\<exists>cs' \<in> set result. \<forall>row'. from_row row' cs' \<longrightarrow> from_row row' cs)"
  by (auto simp: group_row_def row_schema_def from_row_def split: if_splits)

lemma groupRows_spec:
  "distinct (map cs_key (groupRows rows)) \<and> cs_key ` set (groupRows rows) = lr_key ` set rows \<and>
   (\<forall>cs \<in> set (groupRows rows). \<exists>row \<in> set rows. from_row row cs)"
proof (induction rows rule: rev_induct)
  case Nil
  then show ?case by (simp add: groupRows_def)
next
  case (snoc row rows)
  have eq: "groupRows (rows @ [row]) = group_row row (groupRows rows)" by (simp add: groupRows_def)
  have "set (map cs_key (group_row row (groupRows rows))) = insert (lr_key row) (cs_key ` set (groupRows rows))"
    unfolding group_row_keys by auto
  then have "cs_key ` set (group_row row (groupRows rows)) = lr_key ` set (rows @ [row])" using snoc by simp
  moreover have "distinct (map cs_key (group_row row (groupRows rows)))"
    unfolding group_row_keys using snoc by auto
  moreover have "\<exists>row' \<in> set (rows @ [row]). from_row row' cs" if "cs \<in> set (group_row row (groupRows rows))" for cs
    using group_row_from [OF that] snoc by fastforce
  ultimately show ?case unfolding eq by blast
qed

section \<open>What the loading queries return\<close>

definition has_files :: "db \<Rightarrow> string \<Rightarrow> string \<Rightarrow> int \<Rightarrow> bool" where
  "has_files db nid sid v \<longleftrightarrow> (\<exists>f \<in> set (db_files db). vf_ns f = nid \<and> vf_schema f = sid \<and> vf_version f = v)"

definition loaded_version :: "db \<Rightarrow> (schema_row \<Rightarrow> bool) \<Rightarrow> (schema_row \<Rightarrow> int option) \<Rightarrow> string \<Rightarrow> string \<Rightarrow> version_row option" where
  "loaded_version db P sel nid sid =
     (case find_schema db nid sid of
        None \<Rightarrow> None
      | Some s \<Rightarrow> if \<not> P s \<or> sr_deleted_at s \<noteq> None then None else
          (case sel s of None \<Rightarrow> None | Some v \<Rightarrow> if has_files db nid sid v then find_version db nid sid v else None))"

definition row_of :: "version_row \<Rightarrow> load_row \<Rightarrow> bool" where
  "row_of sv row \<longleftrightarrow> lr_ns row = vr_ns sv \<and> lr_schema row = vr_schema sv \<and> lr_version row = vr_version sv \<and>
     lr_compiled row = vr_compiled sv \<and> lr_compiler row = vr_compiler sv"

lemma load_rows_mem:
  "row \<in> set (load_rows db P sel) \<longleftrightarrow> (\<exists>s \<in> set (db_schemas db). \<exists>v. P s \<and> sr_deleted_at s = None \<and> sel s = Some v \<and>
     (\<exists>sv \<in> set (db_versions db). vr_ns sv = sr_ns s \<and> vr_schema sv = sr_id s \<and> vr_version sv = v \<and> row_of sv row \<and>
       (\<exists>f \<in> set (db_files db). vf_ns f = vr_ns sv \<and> vf_schema f = vr_schema sv \<and> vf_version f = v \<and>
          lr_filename row = vf_filename f \<and> lr_sha row = vf_sha f)))"
proof -
  have join: "row \<in> set (join_version db s v) \<longleftrightarrow>
     (\<exists>sv \<in> set (db_versions db). vr_ns sv = sr_ns s \<and> vr_schema sv = sr_id s \<and> vr_version sv = v \<and> row_of sv row \<and>
       (\<exists>f \<in> set (db_files db). vf_ns f = vr_ns sv \<and> vf_schema f = vr_schema sv \<and> vf_version f = v \<and>
          lr_filename row = vf_filename f \<and> lr_sha row = vf_sha f))" for s v
    by (cases row) (force simp: join_version_def row_of_def)
  have "row \<in> set (load_rows db P sel) \<longleftrightarrow> (\<exists>s \<in> set (db_schemas db). \<exists>v. P s \<and> sr_deleted_at s = None \<and> sel s = Some v \<and>
      row \<in> set (join_version db s v))"
    by (force simp: load_rows_def split: option.splits)
  then show ?thesis unfolding join .
qed

lemma find_schema_unique:
  assumes "db_keys db" and "s \<in> set (db_schemas db)"
  shows "find_schema db (sr_ns s) (sr_id s) = Some s"
proof -
  have "distinct (map (\<lambda>s. (sr_ns s, sr_id s)) (db_schemas db))" using assms(1) by (simp add: db_keys_def primary_keys_def)
  from find_key_unique [OF this assms(2)] show ?thesis by (simp add: find_schema_def)
qed

lemma find_version_unique:
  assumes "db_keys db" and "r \<in> set (db_versions db)"
  shows "find_version db (vr_ns r) (vr_schema r) (vr_version r) = Some r"
proof -
  have "distinct (map (\<lambda>v. (vr_ns v, vr_schema v, vr_version v)) (db_versions db))" using assms(1) by (simp add: db_keys_def primary_keys_def)
  from find_key_unique [OF this assms(2)] show ?thesis by (simp add: find_version_def)
qed

lemma load_rows_loaded:
  assumes keys: "db_keys db" and row: "row \<in> set (load_rows db P sel)"
  shows "\<exists>sv. loaded_version db P sel (lr_ns row) (lr_schema row) = Some sv \<and> row_of sv row"
proof -
  from row obtain s v sv f where s: "s \<in> set (db_schemas db)" "P s" "sr_deleted_at s = None" "sel s = Some v"
    and sv: "sv \<in> set (db_versions db)" "vr_ns sv = sr_ns s" "vr_schema sv = sr_id s" "vr_version sv = v" "row_of sv row"
    and f: "f \<in> set (db_files db)" "vf_ns f = vr_ns sv" "vf_schema f = vr_schema sv" "vf_version f = v"
    unfolding load_rows_mem by blast
  have "find_schema db (lr_ns row) (lr_schema row) = Some s"
    using find_schema_unique [OF keys s(1)] sv by (simp add: row_of_def)
  moreover have "has_files db (lr_ns row) (lr_schema row) v" using f sv by (auto simp: has_files_def row_of_def)
  moreover have "find_version db (lr_ns row) (lr_schema row) v = Some sv"
    using find_version_unique [OF keys sv(1)] sv by (simp add: row_of_def)
  ultimately show ?thesis using s sv(5) by (simp add: loaded_version_def)
qed

lemma loaded_load_rows:
  assumes "loaded_version db P sel nid sid = Some sv"
  shows "\<exists>row \<in> set (load_rows db P sel). lr_key row = (nid, sid)"
proof -
  from assms obtain s v where s: "find_schema db nid sid = Some s" "P s" "sr_deleted_at s = None" "sel s = Some v"
    and v: "has_files db nid sid v" "find_version db nid sid v = Some sv"
    by (auto simp: loaded_version_def split: option.splits if_splits)
  from v(1) obtain f where f: "f \<in> set (db_files db)" "vf_ns f = nid" "vf_schema f = sid" "vf_version f = v"
    by (auto simp: has_files_def)
  let ?row = "\<lparr>lr_ns = vr_ns sv, lr_schema = vr_schema sv, lr_version = vr_version sv, lr_compiled = vr_compiled sv,
    lr_compiler = vr_compiler sv, lr_filename = vf_filename f, lr_sha = vf_sha f\<rparr>"
  note sk = find_schema_keys [OF s(1)] and vk = find_version_key [OF v(2)]
  have "row_of sv ?row" by (simp add: row_of_def)
  with s sk vk f have "?row \<in> set (load_rows db P sel)" unfolding load_rows_mem by fastforce
  moreover have "lr_key ?row = (nid, sid)" using vk by simp
  ultimately show ?thesis by blast
qed

text \<open>The schemas a load yields: one for each schema whose selected version has files, with that version.\<close>

definition loads :: "db \<Rightarrow> (schema_row \<Rightarrow> bool) \<Rightarrow> (schema_row \<Rightarrow> int option) \<Rightarrow> current_schema list \<Rightarrow> bool" where
  "loads db P sel css \<longleftrightarrow> distinct (map cs_key css) \<and>
     (\<forall>nid sid. (nid, sid) \<in> cs_key ` set css \<longleftrightarrow> loaded_version db P sel nid sid \<noteq> None) \<and>
     (\<forall>cs \<in> set css. \<exists>sv. loaded_version db P sel (cs_NamespaceID cs) (cs_SchemaID cs) = Some sv \<and>
        cs_Version cs = versionFromDB (vr_version sv) \<and> cs_Compiled cs = vr_compiled sv \<and> cs_CompilerVersion cs = vr_compiler sv)"

lemma groupRows_loads:
  assumes "db_keys db"
  shows "loads db P sel (groupRows (load_rows db P sel))"
proof -
  let ?rows = "load_rows db P sel"
  note g = groupRows_spec [of ?rows]
  have "(nid, sid) \<in> cs_key ` set (groupRows ?rows) \<longleftrightarrow> loaded_version db P sel nid sid \<noteq> None" for nid sid
  proof -
    have "(nid, sid) \<in> cs_key ` set (groupRows ?rows) \<longleftrightarrow> (\<exists>row \<in> set ?rows. lr_key row = (nid, sid))" using g by auto
    then show ?thesis using load_rows_loaded [OF assms] loaded_load_rows by fastforce
  qed
  moreover have "\<exists>sv. loaded_version db P sel (cs_NamespaceID cs) (cs_SchemaID cs) = Some sv \<and>
      cs_Version cs = versionFromDB (vr_version sv) \<and> cs_Compiled cs = vr_compiled sv \<and> cs_CompilerVersion cs = vr_compiler sv"
    if cs: "cs \<in> set (groupRows ?rows)" for cs
  proof -
    from g cs obtain row where row: "row \<in> set ?rows" "from_row row cs" by blast
    with load_rows_loaded [OF assms row(1)] show ?thesis by (auto simp: from_row_def row_of_def)
  qed
  ultimately show ?thesis using g unfolding loads_def by blast
qed

section \<open>Restore, step by step\<close>

text \<open>A call that changes neither the tables nor what the namespaces in memory show.\<close>

definition mem_same :: "memory \<Rightarrow> memory \<Rightarrow> bool" where
  "mem_same m m' \<longleftrightarrow> (\<forall>n s. reg_Current m' n s = reg_Current m n s \<and> reg_Staged m' n s = reg_Staged m n s \<and> Parent m' n = Parent m n)"

definition quiet_step :: "registry \<Rightarrow> registry \<Rightarrow> bool" where
  "quiet_step r r' \<longleftrightarrow> same_tables (reg_db r) (reg_db r') \<and> mem_same (reg_mem r) (reg_mem r')"

interpretation quiet: state_order quiet_step
  by unfold_locales (auto simp: quiet_step_def mem_same_def intro: same_tables_refl same_tables_trans)

lemma quiet_reads: "reads.holds m \<Longrightarrow> quiet.holds (in_store m)"
  by (rule quiet.holds_zoom) (auto simp: quiet_step_def mem_same_def dest: reads.holdsD)

lemma quiet_GetOrCreate: "quiet.holds (in_memory (GetOrCreate nid))"
  by (rule quiet.holds_modify) (simp add: quiet_step_def mem_same_def same_tables_refl)

lemma quiet_gatherChainTiers: "quiet.holds (gatherChainTiers nid)"
  unfolding gatherChainTiers_def by (intro quiet.holds_rules quiet_reads reads.holds_for reads_registry)

lemma quiet_buildSnapshot: "quiet.holds (buildSnapshot env cs ver)"
  unfolding buildSnapshot_def Let_def
  by (intro quiet.holds_rules quiet_reads reads_registry quiet_GetOrCreate quiet_gatherChainTiers)

text \<open>A snapshot built for a stored version has its number, and is decoded from its bytes if the compiler is the same.\<close>

definition built :: "lib \<Rightarrow> string \<Rightarrow> current_schema \<Rightarrow> snapshot \<Rightarrow> bool" where
  "built L ver cs snap \<longleftrightarrow> snap_version snap = cs_Version cs \<and>
     (cs_CompilerVersion cs = ver \<longrightarrow> (\<exists>fds. lib_Unmarshal L (cs_Compiled cs) = Inr fds \<and> New L (cs_Version cs) fds = Inr snap))"

lemma buildSnapshot_Inr:
  assumes "buildSnapshot env cs ver r = (Inr snap, r')"
  shows "built (re_lib env) ver cs snap"
  using assms unfolding buildSnapshot_def Let_def built_def
  by (auto split: if_splits simp del: zoomA_Inr dest: New_snap_version Compile_snap_version)

lemma areas_SetCurrent:
  assumes "Get mem n \<noteq> None"
  shows "reg_Current (on_namespace n (SetCurrent s snap) mem) nid sid = (if nid = n \<and> sid = s then Some snap else reg_Current mem nid sid)"
    and "reg_Staged (on_namespace n (SetCurrent s snap) mem) nid sid = reg_Staged mem nid sid"
    and "Parent (on_namespace n (SetCurrent s snap) mem) nid = Parent mem nid"
  using assms by (auto simp: reg_Current_def reg_Staged_def Parent_def split: option.splits)

lemma restore_schema_Inr:
  assumes "restore_schema env ver cs r = (Inr u, r')"
  obtains snap :: snapshot where "built (re_lib env) ver cs snap" "same_tables (reg_db r) (reg_db r')"
    "\<forall>n s. reg_Current (reg_mem r') n s = (if cs_key cs = (n, s) then Some snap else reg_Current (reg_mem r) n s)"
    "\<forall>n s. reg_Staged (reg_mem r') n s = reg_Staged (reg_mem r) n s" "\<forall>n. Parent (reg_mem r') n = Parent (reg_mem r) n"
proof -
  from assms obtain snap r1 where one: "buildSnapshot env cs ver r = (Inr snap, r1)"
    and r': "r' = r1\<lparr>reg_mem := on_namespace (cs_NamespaceID cs) (SetCurrent (cs_SchemaID cs) snap) (GetOrCreate (cs_NamespaceID cs) (reg_mem r1))\<rparr>"
    unfolding restore_schema_def by (auto simp del: zoomA_Inr)
  have "quiet_step r r1" using quiet.holdsD [OF quiet_buildSnapshot one] .
  then have q: "same_tables (reg_db r) (reg_db r1)" "mem_same (reg_mem r) (reg_mem r1)" by (auto simp: quiet_step_def)
  show ?thesis
    by (rule that [OF buildSnapshot_Inr [OF one]]) (use q in \<open>auto simp: r' areas_SetCurrent mem_same_def\<close>)
qed

lemma restore_schemas_Inr:
  "forA (restore_schema env ver) css r = (Inr us, r') \<Longrightarrow> distinct (map cs_key css) \<Longrightarrow>
   same_tables (reg_db r) (reg_db r') \<and>
   (\<forall>cs \<in> set css. \<exists>snap. reg_Current (reg_mem r') (cs_NamespaceID cs) (cs_SchemaID cs) = Some snap \<and> built (re_lib env) ver cs snap) \<and>
   (\<forall>n s. (n, s) \<notin> cs_key ` set css \<longrightarrow> reg_Current (reg_mem r') n s = reg_Current (reg_mem r) n s) \<and>
   (\<forall>n s. reg_Staged (reg_mem r') n s = reg_Staged (reg_mem r) n s) \<and> (\<forall>n. Parent (reg_mem r') n = Parent (reg_mem r) n)"
proof (induction css arbitrary: r us)
  case Nil
  then show ?case by (simp add: same_tables_refl)
next
  case (Cons cs css)
  from Cons.prems(1) obtain u r1 ws where one: "restore_schema env ver cs r = (Inr u, r1)"
    and rest: "forA (restore_schema env ver) css r1 = (Inr ws, r')" by auto
  from Cons.prems(2) have new: "cs_key cs \<notin> cs_key ` set css" and "distinct (map cs_key css)" by auto
  note IH = Cons.IH [OF rest this(2)]
  from restore_schema_Inr [OF one] obtain snap where built: "built (re_lib env) ver cs snap" and t: "same_tables (reg_db r) (reg_db r1)"
    and cur: "\<forall>n s. reg_Current (reg_mem r1) n s = (if cs_key cs = (n, s) then Some snap else reg_Current (reg_mem r) n s)"
    and oth: "\<forall>n s. reg_Staged (reg_mem r1) n s = reg_Staged (reg_mem r) n s" "\<forall>n. Parent (reg_mem r1) n = Parent (reg_mem r) n" .
  have "reg_Current (reg_mem r') (cs_NamespaceID cs) (cs_SchemaID cs) = Some snap" using IH new cur by simp
  with IH t cur oth built show ?case by (auto intro: same_tables_trans)
qed

lemma create_all_Inr:
  "forA (\<lambda>n. in_memory (GetOrCreate (sn_ID n))) rows r = (Inr us, r') \<Longrightarrow>
   reg_db r' = reg_db r \<and> mem_same (reg_mem r) (reg_mem r') \<and> (\<forall>n. Get (reg_mem r') n \<noteq> None \<longleftrightarrow> Get (reg_mem r) n \<noteq> None \<or> n \<in> sn_ID ` set rows)"
proof (induction rows arbitrary: r us)
  case Nil
  then show ?case by (simp add: mem_same_def)
next
  case (Cons n rows)
  then obtain ws where "forA (\<lambda>n. in_memory (GetOrCreate (sn_ID n))) rows (r\<lparr>reg_mem := GetOrCreate (sn_ID n) (reg_mem r)\<rparr>) = (Inr ws, r')"
    by auto
  from Cons.IH [OF this] show ?case by (auto simp: mem_same_def)
qed

lemma wire_parents_Inr:
  "forA wire_parent rows r = (Inr us, r') \<Longrightarrow> distinct (map sn_ID rows) \<Longrightarrow> (\<And>n. n \<in> set rows \<Longrightarrow> Get (reg_mem r) (sn_ID n) \<noteq> None) \<Longrightarrow>
   reg_db r' = reg_db r \<and> (\<forall>n s. reg_Current (reg_mem r') n s = reg_Current (reg_mem r) n s \<and> reg_Staged (reg_mem r') n s = reg_Staged (reg_mem r) n s) \<and>
   (\<forall>n. Parent (reg_mem r') n = (case find (\<lambda>x. sn_ID x = n) rows of
      None \<Rightarrow> Parent (reg_mem r) n | Some x \<Rightarrow> (case sn_ParentNamespaceID x of None \<Rightarrow> Parent (reg_mem r) n | Some p \<Rightarrow> Some p)))"
proof (induction rows arbitrary: r us)
  case Nil
  then show ?case by simp
next
  case (Cons x rows)
  then obtain u r1 ws where one: "wire_parent x r = (Inr u, r1)" and rest: "forA wire_parent rows r1 = (Inr ws, r')" by auto
  from one have r1: "r1 = r\<lparr>reg_mem := (case sn_ParentNamespaceID x of None \<Rightarrow> reg_mem r | Some p \<Rightarrow> SetParent (sn_ID x) (Some p) (reg_mem r))\<rparr>"
    by (auto simp: wire_parent_def split: option.splits)
  have get: "Get (reg_mem r1) n \<noteq> None \<longleftrightarrow> Get (reg_mem r) n \<noteq> None" for n
    by (auto simp: r1 SetParent_def split: option.splits)
  have par: "Parent (reg_mem r1) n = (if n = sn_ID x then (case sn_ParentNamespaceID x of None \<Rightarrow> Parent (reg_mem r) n | Some p \<Rightarrow> Some p)
      else Parent (reg_mem r) n)" for n
    using Cons.prems(3) [of x] by (auto simp: r1 Parent_SetParent split: option.splits)
  have cur: "reg_Current (reg_mem r1) n s = reg_Current (reg_mem r) n s" "reg_Staged (reg_mem r1) n s = reg_Staged (reg_mem r) n s" for n s
    by (auto simp: r1 split: option.splits)
  from Cons.prems(2) have none: "find (\<lambda>y. sn_ID y = sn_ID x) rows = None" unfolding find_key_None_iff by simp
  from Cons.IH [OF rest] Cons.prems get par cur none show ?case by (auto simp: r1 split: option.splits)
qed

definition live_parent :: "db \<Rightarrow> string \<Rightarrow> string option" where
  "live_parent db nid = row_parent (filter (\<lambda>r. nr_deleted_at r = None) (db_namespaces db)) nid"

lemma find_sort_key:
  assumes "distinct (map f xs)"
  shows "find (\<lambda>x. f x = k) (sort_key g xs) = find (\<lambda>x. f x = k) xs"
proof -
  have "distinct (map f (sort_key g xs))" using assms by (simp add: distinct_map)
  then have "find (\<lambda>x. f x = k) (sort_key g xs) = Some y \<longleftrightarrow> find (\<lambda>x. f x = k) xs = Some y" for y
    by (simp add: find_key_Some_iff assms)
  then show ?thesis by (metis not_Some_eq)
qed

lemma st_ListNamespaces_Inr:
  assumes "st_ListNamespaces s = (Inr rows, t)" and "db_keys s"
  shows "same_tables s t" and "distinct (map sn_ID rows)"
    and "(case find (\<lambda>x. sn_ID x = n) rows of None \<Rightarrow> None | Some x \<Rightarrow> sn_ParentNamespaceID x) = live_parent s n"
proof -
  let ?live = "filter (\<lambda>r. nr_deleted_at r = None) (db_namespaces s)"
  from assms(1) obtain nrows where q: "q_ListNamespaces s = (Inr nrows, t)" and rows: "rows = map ns_model nrows"
    by (auto simp: st_ListNamespaces_def)
  have "same_tables s t \<and> Inr nrows = (Inr (sort_key (\<lambda>r. text_key s (nr_id r)) ?live) :: ns_row list result)"
    using q unfolding q_ListNamespaces_def
    by (drule_tac select_same) (auto simp: same_tables_sel text_key_same)
  then have nrows: "nrows = sort_key (\<lambda>r. text_key s (nr_id r)) ?live" and "same_tables s t" by auto
  then show "same_tables s t" by simp
  have d: "distinct (map nr_id ?live)" using assms(2) by (auto simp: db_keys_def primary_keys_def distinct_map inj_on_def)
  have ids: "map sn_ID rows = map nr_id nrows" by (simp add: rows ns_model_def o_def)
  with d show "distinct (map sn_ID rows)" by (simp add: nrows distinct_map)
  have "find (\<lambda>x. sn_ID x = n) rows = map_option ns_model (find (\<lambda>r. nr_id r = n) nrows)"
    unfolding rows by (induction nrows) (auto simp: ns_model_def)
  also have "find (\<lambda>r. nr_id r = n) nrows = find (\<lambda>r. nr_id r = n) ?live" unfolding nrows by (rule find_sort_key [OF d])
  finally show "(case find (\<lambda>x. sn_ID x = n) rows of None \<Rightarrow> None | Some x \<Rightarrow> sn_ParentNamespaceID x) = live_parent s n"
    by (auto simp: live_parent_def row_parent_def ns_model_def split: option.splits)
qed

section \<open>What Restore rebuilds\<close>

abbreviation restarted :: "db \<Rightarrow> registry" where
  "restarted db \<equiv> \<lparr>reg_db = db, reg_mem = []\<rparr>"

lemma st_LoadAllCurrent_Inr:
  "st_LoadAllCurrent s = (Inr css, t) \<Longrightarrow> db_keys s \<Longrightarrow> same_tables s t \<and> loads s (\<lambda>_. True) sr_current css"
  by (auto simp: st_LoadAllCurrent_def dest!: q_reads(10) intro: groupRows_loads)

lemma mem_same_empty:
  "mem_same [] m \<Longrightarrow> reg_Current m n s = None \<and> reg_Staged m n s = None \<and> Parent m n = None"
  by (simp add: mem_same_def reg_Current_def reg_Staged_def Parent_def Get_def)

lemma loaded_version_same:
  assumes "same_tables d e"
  shows "loaded_version e P sel n s = loaded_version d P sel n s"
proof -
  note t = same_tables_sel [OF assms]
  have "find_schema e n s = find_schema d n s" "find_version e n s v = find_version d n s v" "has_files e n s v = has_files d n s v" for v
    by (simp_all add: find_schema_def find_version_def has_files_def t)
  then show ?thesis by (simp add: loaded_version_def cong: option.case_cong if_cong)
qed

lemma Restore_Inr:
  assumes "db_keys d" and run: "Restore env (restarted d) = (Inr u, r')"
  shows "same_tables d (reg_db r')" and "reg_Staged (reg_mem r') n s = None" and "Parent (reg_mem r') n = live_parent d n"
    and "case loaded_version d (\<lambda>_. True) sr_current n s of
        None \<Rightarrow> reg_Current (reg_mem r') n s = None
      | Some sv \<Rightarrow> (\<exists>snap. reg_Current (reg_mem r') n s = Some snap \<and> snap_version snap = versionFromDB (vr_version sv) \<and>
          (vr_compiler sv = Version (re_lib env) \<longrightarrow> (\<exists>fds. lib_Unmarshal (re_lib env) (vr_compiled sv) = Inr fds \<and>
             New (re_lib env) (versionFromDB (vr_version sv)) fds = Inr snap)))"
proof -
  from run obtain rows d1 r2 r3 css d4 us vs ws where list: "st_ListNamespaces d = (Inr rows, d1)"
    and create: "forA (\<lambda>n. in_memory (GetOrCreate (sn_ID n))) rows (restarted d1) = (Inr us, r2)"
    and wire: "forA wire_parent rows r2 = (Inr vs, r3)" and load: "st_LoadAllCurrent (reg_db r3) = (Inr css, d4)"
    and restore: "forA (restore_schema env (Version (re_lib env))) css (r3\<lparr>reg_db := d4\<rparr>) = (Inr ws, r')"
    unfolding Restore_def by auto
  note rows = st_ListNamespaces_Inr [OF list assms(1)]
  note c = create_all_Inr [OF create]
  from c have "Get (reg_mem r2) (sn_ID n) \<noteq> None" if "n \<in> set rows" for n using that by blast
  note w = wire_parents_Inr [OF wire rows(2) this]
  have m2: "reg_Current (reg_mem r2) n s = None" "reg_Staged (reg_mem r2) n s = None" "Parent (reg_mem r2) n = None" for n s
    using c mem_same_empty by auto
  have d3: "reg_db r3 = d1" using c w by simp
  have same1: "db_keys d1" using assms(1) same_tables_inv(1) [OF rows(1)] by simp
  from st_LoadAllCurrent_Inr [OF load] d3 same1 have d4: "same_tables d1 d4" and loads: "loads d1 (\<lambda>_. True) sr_current css" by auto
  have lv: "loaded_version d1 P sel n s = loaded_version d P sel n s" for P sel n s
    by (rule loaded_version_same [OF rows(1)])
  from loads have "distinct (map cs_key css)" by (simp add: loads_def)
  note rest = restore_schemas_Inr [OF restore this]
  show "same_tables d (reg_db r')" using rest rows(1) d4 by (auto intro: same_tables_trans)
  show "reg_Staged (reg_mem r') n s = None" using rest w m2 by simp
  have "Parent (reg_mem r3) n = live_parent d n" using w rows(3) [of n] m2(3) by (auto split: option.splits)
  with rest show "Parent (reg_mem r') n = live_parent d n" by simp
  show "case loaded_version d (\<lambda>_. True) sr_current n s of
        None \<Rightarrow> reg_Current (reg_mem r') n s = None
      | Some sv \<Rightarrow> (\<exists>snap. reg_Current (reg_mem r') n s = Some snap \<and> snap_version snap = versionFromDB (vr_version sv) \<and>
          (vr_compiler sv = Version (re_lib env) \<longrightarrow> (\<exists>fds. lib_Unmarshal (re_lib env) (vr_compiled sv) = Inr fds \<and>
             New (re_lib env) (versionFromDB (vr_version sv)) fds = Inr snap)))"
  proof (cases "loaded_version d (\<lambda>_. True) sr_current n s")
    case None
    then have "(n, s) \<notin> cs_key ` set css" using loads lv by (simp add: loads_def)
    with rest w m2 None show ?thesis by simp
  next
    case (Some sv)
    then have "(n, s) \<in> cs_key ` set css" using loads lv by (simp add: loads_def)
    then obtain cs where cs: "cs \<in> set css" "cs_NamespaceID cs = n" "cs_SchemaID cs = s" by auto
    with loads lv Some have sv: "cs_Version cs = versionFromDB (vr_version sv)" "cs_Compiled cs = vr_compiled sv" "cs_CompilerVersion cs = vr_compiler sv"
      by (auto simp: loads_def)
    from rest cs obtain snap where "reg_Current (reg_mem r') n s = Some snap" "built (re_lib env) (Version (re_lib env)) cs snap" by blast
    with Some sv show ?thesis by (auto simp: built_def)
  qed
qed

section \<open>Every stored version is whole\<close>

text \<open>
  No row is soft-deleted (the registry never calls the delete methods) and every version has at least
  one file: \<^verbatim>\<open>PutVersion\<close> writes a version and its files in one transaction, and \<^verbatim>\<open>publishInternal\<close> refuses
  a request without sources. The loading queries join with the file table, so a version without files
  would be lost at the next start.
\<close>

definition whole :: "db \<Rightarrow> bool" where
  "whole db \<longleftrightarrow> (\<forall>n \<in> set (db_namespaces db). nr_deleted_at n = None) \<and> (\<forall>s \<in> set (db_schemas db). sr_deleted_at s = None) \<and>
     (\<forall>v \<in> set (db_versions db). has_files db (vr_ns v) (vr_schema v) (vr_version v))"

interpretation wholes: db_order "\<lambda>s t. whole s \<longrightarrow> whole t"
proof
  show "whole s \<longrightarrow> whole (s\<lparr>db_faults := fs\<rparr>)" for s fs by (simp add: whole_def has_files_def)
qed auto

lemma whole_same:
  assumes "same_tables s t"
  shows "whole t = whole s"
  by (simp add: whole_def has_files_def same_tables_sel [OF assms])

lemma wholes_reads: "reads.holds m \<Longrightarrow> wholes.holds m"
  unfolding reads.holds_def wholes.holds_def using whole_same by blast

lemma wholes_ops:
  "wholes.holds (st_CreateNamespace ns)" "wholes.holds (st_SetNamespaceParent nid parent actor)" "wholes.holds (st_PutBlob b)"
  "wholes.holds (st_CreateSchema nid sid meta)" "wholes.holds (st_SetStaged nid sid v)" "wholes.holds (st_Promote nid)"
  "wholes.holds (st_DiscardStaging nid)"
proof -
  have "wholes.holds (q_CreateNamespace nid meta parent)" "wholes.holds (q_ClearNamespaceParent nid)"
    "wholes.holds (q_SetNamespaceParent p nid)" "wholes.holds (q_RecordNamespaceParentEvent nid prev new actor)"
    "wholes.holds (q_PutBlob nid sha src sz)" "wholes.holds (q_CreateSchema nid sid smeta)"
    "wholes.holds (q_SetStagedVersion nid sid i)" "wholes.holds (q_ClearStagedVersion nid sid)"
    "wholes.holds (q_DiscardAllStaged nid)" "wholes.holds (q_PromoteAllStaged nid)"
    for nid meta parent p prev new actor sha src sz sid smeta i
    unfolding q_CreateNamespace_def q_ClearNamespaceParent_def q_SetNamespaceParent_def q_RecordNamespaceParentEvent_def
      q_PutBlob_def q_CreateSchema_def q_SetStagedVersion_def q_ClearStagedVersion_def q_DiscardAllStaged_def q_PromoteAllStaged_def
    by (rule wholes.holds_statement; auto simp: whole_def has_files_def update_schemas_def modifyA_def split: if_splits)+
  note stmts = this
  show "wholes.holds (st_CreateNamespace ns)" "wholes.holds (st_SetNamespaceParent nid parent actor)" "wholes.holds (st_PutBlob b)"
    "wholes.holds (st_CreateSchema nid sid meta)" "wholes.holds (st_SetStaged nid sid v)" "wholes.holds (st_Promote nid)"
    "wholes.holds (st_DiscardStaging nid)"
    unfolding st_CreateNamespace_def st_SetNamespaceParent_def set_parent_body_def q_GetNamespace_def st_PutBlob_def
      st_CreateSchema_def st_SetStaged_def st_Promote_def st_DiscardStaging_def q_GetStagedSchemas_def
    by (intro wholes.store_rules stmts)+
qed

lemma wholes_PutVersion:
  assumes "files \<noteq> []"
    and "\<And>f. f \<in> set files \<Longrightarrow> vfi_NamespaceID f = sv_NamespaceID ver \<and> vfi_SchemaID f = sv_SchemaID ver \<and> vfi_Version f = sv_Version ver"
  shows "wholes.holds (st_PutVersion ver files deps)"
proof (rule wholes.holdsI)
  fix s x t assume run: "st_PutVersion ver files deps s = (x, t)"
  show "whole s \<longrightarrow> whole t"
  proof (cases x)
    case (Inl e)
    with run have "same_tables s t" unfolding st_PutVersion_def by (metis transaction_Inl)
    then show ?thesis by (simp add: whole_same)
  next
    case (Inr u)
    with run have "same_tables (put_version_rows ver files deps s) t" by (blast dest: st_PutVersion_Inr(1))
    then have t: "whole t = whole (put_version_rows ver files deps s)" by (rule whole_same)
    obtain f where "f \<in> set files" using assms(1) by (cases files) auto
    with assms(2) [OF this] show ?thesis unfolding t
      by (auto simp: whole_def has_files_def put_version_rows_def version_to_row_def file_to_row_def bex_Un)
  qed
qed

interpretation wholeregs: state_order "\<lambda>r r'. whole (reg_db r) \<longrightarrow> whole (reg_db r')"
  by unfold_locales auto

lemma wholeregs_store: "wholes.holds m \<Longrightarrow> wholeregs.holds (in_store m)"
  by (rule wholeregs.holds_zoom) (auto dest: wholes.holdsD)

lemma wholeregs_reads: "reads.holds m \<Longrightarrow> wholeregs.holds (in_store m)"
  by (intro wholeregs_store wholes_reads)

lemma wholeregs_memory: "wholeregs.holds (in_memory F)"
  by (rule wholeregs.holds_modify) simp

lemma wholeregs_gate: "wholeregs.holds (gate d)"
  unfolding gate_def by (intro wholeregs.holds_rules)


lemma wholeregs_publish_store:
  assumes "cr_Files result \<noteq> []"
  shows "wholeregs.holds (publish_store env req v result)"
proof -
  have "wholes.holds (st_PutVersion (version_of (re_lib env) req v (cr_Compiled result))
      (version_files_of req v (cr_Files result)) (version_deps_of req v (cr_Deps result)))"
    using assms by (intro wholes_PutVersion) (auto simp: version_files_of_def version_of_def)
  then show ?thesis unfolding publish_store_def put_blobs_def Let_def
    by (intro wholeregs.holds_rules wholeregs_memory wholeregs_store wholes.store_rules wholes_ops)
qed

lemma publish_compile_files:
  assumes "publish_compile env req r = (Inr (v, result), r')"
  shows "cr_Files result \<noteq> []"
proof -
  from assms have "pq_Sources req \<noteq> []" unfolding publish_compile_def Let_def by auto
  moreover from publish_compile_Inr(2) [OF assms] have "mapE (normalizeFile (re_lib env)) (pq_Sources req) = Inr (cr_Files result)"
    by (auto dest: Compile_InrD)
  ultimately show ?thesis by (auto dest: mapE_Inr_length)
qed

lemma wholeregs_publishInternal: "wholeregs.holds (publishInternal env req forceNew)"
proof (rule wholeregs.holdsI)
  have one: "wholeregs.holds (publish_compile env req)"
    unfolding publish_compile_def gatherChainTiers_def ensureNamespaceAndSchema_def Let_def
    by (intro wholeregs.holds_rules wholeregs_reads reads.holds_for reads_registry wholeregs_memory wholeregs_store
        wholes.store_rules wholes_ops wholes_reads reads_ops)
  fix r x t assume "publishInternal env req forceNew r = (x, t)"
  then show "whole (reg_db r) \<longrightarrow> whole (reg_db t)"
    unfolding publishInternal_def
  proof (cases rule: bindA_cases)
    case (fail e)
    with wholeregs.holdsD [OF one] show ?thesis by blast
  next
    case (ok p r1)
    obtain v result where p: "p = (v, result)" by (cases p)
    with ok have "cr_Files result \<noteq> []" using publish_compile_files by blast
    note store = wholeregs_publish_store [OF this]
    have "wholeregs.holds (case p of (v, result) \<Rightarrow> let fp = ComputeFingerprint (re_lib env) (cr_Files result) in
       bindA (if forceNew then retA False else in_store (isUnchanged (re_lib env) (pq_NamespaceID req) (pq_SchemaID req) fp)) (\<lambda>noChange.
       if noChange then retA \<lparr>pr_Version = 0, pr_Fingerprint = fp, pr_Snapshot = None, pr_NoChange = True\<rparr>
       else publish_store env req v result))"
      unfolding p Let_def prod.case by (intro wholeregs.holds_rules wholeregs_reads reads_registry store)
    from wholeregs.holdsD [OF this ok(2)] wholeregs.holdsD [OF one ok(1)] show ?thesis by blast
  qed
qed

lemma wholeregs_ops:
  "wholeregs.holds (Publish env req)" "wholeregs.holds (Rebase env nid sid actor)" "wholeregs.holds (Rollback env nid sid v force)"
  "wholeregs.holds (DiscardStaging nid)" "wholeregs.holds (CreateNamespace env creq)"
  "wholeregs.holds (SetNamespaceParent env nid parent actor)" "wholeregs.holds (Promote env nid)"
  unfolding Publish_def Rebase_def Rollback_def rollback_target_def DiscardStaging_def CreateNamespace_def SetNamespaceParent_def
    Promote_def Let_def
  by (intro wholeregs.holds_rules wholeregs_gate wholeregs_publishInternal wholeregs_reads reads_registry wholeregs_memory
      wholeregs_store wholes_ops; simp)+

lemma reachable_whole: "reachable r \<Longrightarrow> whole (reg_db r)"
proof (induction rule: reachable.induct)
  case (start collation)
  then show ?case by (simp add: whole_def empty_db_def)
next
  case (step r r')
  have "whole (db\<lparr>db_faults := fs, db_clock := now\<rparr>) = whole db" for db fs now by (simp add: whole_def has_files_def)
  with step.hyps(2) step.IH show ?case
    by (cases rule: reg_step.cases) (use wholeregs_ops in \<open>auto simp: wholeregs.holds_def\<close>)
qed

section \<open>Restarting a reachable registry\<close>

lemma loaded_current:
  assumes "reg_inv r" and "whole (reg_db r)"
  shows "map_option vr_version (loaded_version (reg_db r) (\<lambda>_. True) sr_current n s) = db_current n (reg_db r) s"
proof (cases "find_schema (reg_db r) n s")
  case None
  then show ?thesis by (simp add: loaded_version_def db_current_def)
next
  case (Some row)
  then have row: "row \<in> set (db_schemas (reg_db r))" "sr_ns row = n" "sr_id row = s"
    using find_schema_keys by blast+
  show ?thesis
  proof (cases "sr_current row")
    case None
    with Some show ?thesis by (simp add: loaded_version_def db_current_def)
  next
    case (Some v)
    from assms(1) row Some have "(n, s, v) \<in> version_keys (reg_db r)" by (auto simp: reg_inv_def refs_ok_def)
    then obtain vr where vr: "vr \<in> set (db_versions (reg_db r))" "vr_ns vr = n" "vr_schema vr = s" "vr_version vr = v" by auto
    have "find_version (reg_db r) n s v = Some vr"
      using find_version_unique [OF _ vr(1)] vr assms(1) by (simp add: reg_inv_def)
    moreover have "has_files (reg_db r) n s v" "sr_deleted_at row = None" using assms(2) vr row by (auto simp: whole_def)
    ultimately show ?thesis using \<open>find_schema _ _ _ = Some row\<close> Some vr(4) by (simp add: loaded_version_def db_current_def)
  qed
qed

lemma versionTo_FromDB: "0 \<le> i \<Longrightarrow> i \<le> max_int64 \<Longrightarrow> versionToDB (versionFromDB i) = i"
  by (simp add: versionToDB_def uint_versionFromDB)

lemma live_parent_whole: "whole db \<Longrightarrow> live_parent db n = row_parent (db_namespaces db) n"
  by (simp add: live_parent_def whole_def filter_id_conv [THEN iffD2])

text \<open>
  Property C5 (restart_recovers_current). Starting a new process on the database of a reachable registry: when
  \<^verbatim>\<open>Restore\<close> succeeds, every schema serves the version that was current before, every namespace has its parent
  and the tables are untouched. Nothing is staged in memory, although the staged versions are still in the
  database.
\<close>

theorem restart_recovers_current:
  assumes "reachable r" and "Restore env (restarted (reg_db r)) = (Inr u, r')"
  shows "map_option db_number (reg_Current (reg_mem r') nid sid) = map_option db_number (reg_Current (reg_mem r) nid sid) \<and>
    Parent (reg_mem r') nid = Parent (reg_mem r) nid \<and> same_tables (reg_db r) (reg_db r') \<and>
    reg_Staged (reg_mem r') nid sid = None \<and>
    db_staged nid (reg_db r') sid = map_option db_number (reg_Staged (reg_mem r) nid sid)"
proof -
  have inv: "reg_inv r" by (rule reachable_inv [OF assms(1)])
  then have keys: "db_keys (reg_db r)" and vok: "versions_ok (reg_db r)" and coh: "coherent r" by (simp_all add: reg_inv_def)
  have w: "whole (reg_db r)" by (rule reachable_whole [OF assms(1)])
  note res = Restore_Inr [OF keys assms(2)]
  have "map_option db_number (reg_Current (reg_mem r') nid sid) = db_current nid (reg_db r) sid"
  proof (cases "loaded_version (reg_db r) (\<lambda>_. True) sr_current nid sid")
    case None
    with res(4) [of nid sid] loaded_current [OF inv w, of nid sid] show ?thesis by simp
  next
    case (Some sv)
    with res(4) [of nid sid] obtain snap where snap: "reg_Current (reg_mem r') nid sid = Some snap" "snap_version snap = versionFromDB (vr_version sv)"
      by auto
    from Some have "sv \<in> set (db_versions (reg_db r))"
      unfolding loaded_version_def by (auto split: option.splits if_splits dest: find_version_key)
    with vok have "versionToDB (versionFromDB (vr_version sv)) = vr_version sv" by (intro versionTo_FromDB) (auto simp: versions_ok_def)
    with snap Some loaded_current [OF inv w, of nid sid] show ?thesis by (simp add: db_number_def)
  qed
  then have "map_option db_number (reg_Current (reg_mem r') nid sid) = map_option db_number (reg_Current (reg_mem r) nid sid)"
    using coh by (simp add: coherent_def)
  moreover have "Parent (reg_mem r') nid = Parent (reg_mem r) nid"
    using res(3) coh live_parent_whole [OF w] by (simp add: coherent_def)
  moreover have "db_staged nid (reg_db r') sid = map_option db_number (reg_Staged (reg_mem r) nid sid)"
    using same_tables_db_area(2) [OF res(1)] coh by (simp add: coherent_def)
  ultimately show ?thesis using res(1,2) by simp
qed


definition two_files :: publish_request where
  "two_files = demo_request\<lparr>pq_Sources := [(''a.proto'', ''src''), (''b.proto'', ''more'')]\<rparr>"

definition served_first :: registry where
  "served_first = snd (Promote (demo_env AllowAll) ''n'' (snd (Publish (demo_env AllowAll) two_files fresh_registry)))"

definition breaking_staged :: registry where
  "breaking_staged = snd (Publish (demo_env AllowAll) demo_request served_first)"

definition after_restart :: registry where
  "after_restart = snd (Restore (demo_env AllowAll) (restarted (reg_db breaking_staged)))"

lemma reachable_breaking: "reachable breaking_staged"
  unfolding breaking_staged_def served_first_def fresh_registry_def
  by (intro reachable.step [OF _ reg_step.publish] reachable.step [OF _ reg_step.promote] reachable.start)

text \<open>The versions of the schema of the examples: current and staged in memory, current and staged in the database.\<close>

definition numbers :: "registry \<Rightarrow> int option \<times> int option \<times> int option \<times> int option" where
  "numbers r = (map_option db_number (reg_Current (reg_mem r) ''n'' ''s''), map_option db_number (reg_Staged (reg_mem r) ''n'' ''s''),
     db_current ''n'' (reg_db r) ''s'', db_staged ''n'' (reg_db r) ''s'')"

definition outcome :: "'a result \<times> registry \<Rightarrow> bool \<times> int option \<times> int option \<times> int option \<times> int option" where
  "outcome run = (\<not> isl (fst run), numbers (snd run))"

theorem restart_recovers_current_witness:
  "reg_Staged (reg_mem after_restart) ''n'' ''s'' = None \<and> db_staged ''n'' (reg_db after_restart) ''s'' = Some 2 \<and>
   map_option db_number (reg_Current (reg_mem after_restart) ''n'' ''s'') = Some 1"
proof -
  let ?run = "Restore (demo_env AllowAll) (restarted (reg_db breaking_staged))"
  have "fst (outcome ?run)" by code_simp
  then have "fst ?run = Inr ()" by (cases "fst ?run") (simp_all add: outcome_def)
  then have run: "?run = (Inr (), after_restart)" unfolding after_restart_def by (metis prod.collapse)
  have "numbers breaking_staged = (Some 1, Some 2, Some 1, Some 2)" by code_simp
  with restart_recovers_current [OF reachable_breaking run, of "''n''" "''s''"] show ?thesis by (simp add: numbers_def)
qed


end
