(* ===== verification/Failures.thy ===== *)
theory Failures
  imports Registry
begin

text \<open>
  Which errors an action can return. \<open>fails P m\<close> says that every error of \<open>m\<close> satisfies \<open>P\<close>; the rules carry
  it from the parts of an action to the whole. The registry and the store never make an error that
  carries a gRPC status: their errors are texts, sentinels and errors of the driver and the libraries.
\<close>

section \<open>Rules\<close>

definition fails :: "(error \<Rightarrow> bool) \<Rightarrow> ('s, 'a) act \<Rightarrow> bool" where
  "fails P m \<longleftrightarrow> (\<forall>s e. fst (m s) = Inl e \<longrightarrow> P e)"

definition errs :: "(error \<Rightarrow> bool) \<Rightarrow> 'a result \<Rightarrow> bool" where
  "errs P r \<longleftrightarrow> (\<forall>e. r = Inl e \<longrightarrow> P e)"

lemma failsD: "fails P m \<Longrightarrow> m s = (Inl e, t) \<Longrightarrow> P e"
  by (metis fails_def fst_conv)

lemma failsI: "(\<And>s e t. m s = (Inl e, t) \<Longrightarrow> P e) \<Longrightarrow> fails P m"
  by (metis fails_def prod.collapse)

lemma fails_simple: "fails P (retA a)" "P e \<Longrightarrow> fails P (failA e)" "errs P r \<Longrightarrow> fails P (pureA r)" "fails P (getA f)" "fails P (modifyA g)"
  by (simp_all add: fails_def retA_def failA_def pureA_def getA_def modifyA_def errs_def)

lemma fails_bind: "fails P m \<Longrightarrow> (\<And>a. fails P (f a)) \<Longrightarrow> fails P (bindA m f)"
  by (rule failsI) (auto simp: bindA_def split: prod.splits sum.splits dest: failsD)

lemma fails_then: "fails P m \<Longrightarrow> fails P n \<Longrightarrow> fails P (thenA m n)"
  by (simp add: thenA_def fails_bind)

lemma fails_catch: "fails P m \<Longrightarrow> (\<And>e. P e \<Longrightarrow> fails Q (h e)) \<Longrightarrow> fails Q (catchA m h)"
  by (rule failsI) (auto simp: catchA_def split: prod.splits sum.splits dest: failsD)

lemma fails_any: "fails (\<lambda>_. True) m"
  by (simp add: fails_def)

lemma fails_for: "(\<And>x. fails P (f x)) \<Longrightarrow> fails P (forA f xs)"
  by (induction xs) (auto intro!: fails_simple fails_bind)

lemma fails_zoom: "fails P m \<Longrightarrow> fails P (zoomA get put m)"
  by (rule failsI) (auto simp: zoomA_def split: prod.splits dest: failsD)

lemma fails_if: "(b \<Longrightarrow> fails P m) \<Longrightarrow> (\<not> b \<Longrightarrow> fails P n) \<Longrightarrow> fails P (if b then m else n)"
  by simp

lemma fails_option: "(x = None \<Longrightarrow> fails P m) \<Longrightarrow> (\<And>a. x = Some a \<Longrightarrow> fails P (f a)) \<Longrightarrow> fails P (case x of None \<Rightarrow> m | Some a \<Rightarrow> f a)"
  by (cases x) auto

lemma fails_split: "(\<And>a b. fails P (f a b)) \<Longrightarrow> fails P (case p of (a, b) \<Rightarrow> f a b)"
  by (cases p) simp

lemmas fails_rules = fails_simple fails_bind fails_then fails_for fails_zoom fails_if fails_option fails_split

section \<open>Errors without a status\<close>

text \<open>Whether \<^verbatim>\<open>status.FromError\<close> finds a status in the chain of wrapped errors.\<close>

fun has_status :: "error \<Rightarrow> bool" where
  "has_status (StatusError c m) = True"
| "has_status (Wrapf p e) = has_status e"
| "has_status e = False"

abbreviation plain_error :: "error \<Rightarrow> bool" where
  "plain_error e \<equiv> \<not> has_status e"

lemma plain_wrap: "fails plain_error m \<Longrightarrow> fails plain_error (wrapA p m)"
  by (rule failsI) (auto simp: wrapA_def wrapE_def split: prod.splits sum.splits dest: failsD)

lemma plain_errs:
  "errs plain_error r \<Longrightarrow> (\<And>a. errs plain_error (f a)) \<Longrightarrow> errs plain_error (bindE r f)"
  "errs plain_error r \<Longrightarrow> errs plain_error (wrapE p r)" "errs plain_error (libE x)" "errs plain_error (Inr a)"
  "plain_error e \<Longrightarrow> errs plain_error (Inl e)"
  by (auto simp: errs_def bindE_def wrapE_def libE_def split: sum.splits)

lemma plain_errs_map: "(\<And>x. x \<in> set xs \<Longrightarrow> errs plain_error (f x)) \<Longrightarrow> errs plain_error (mapE f xs)"
  by (induction xs) (auto intro!: plain_errs)

lemma plain_errs_fold: "(\<And>x s. x \<in> set xs \<Longrightarrow> errs plain_error (f x s)) \<Longrightarrow> errs plain_error (foldE f xs s)"
  by (induction xs arbitrary: s) (auto intro!: plain_errs)

lemma plain_statement: "fails plain_error m \<Longrightarrow> fails plain_error (statement m)"
  by (rule failsI) (auto simp: statement_def Let_def split: list.splits if_splits dest: failsD)

lemma plain_transaction: "fails plain_error m \<Longrightarrow> fails plain_error (transaction p c m)"
proof -
  assume m: "fails plain_error m"
  have skip: "fails plain_error (statement (retA ()))" by (intro plain_statement fails_simple)
  have rest: "fails plain_error (bindA m (\<lambda>a. bindA (case c of Some p \<Rightarrow> wrapA p (statement (retA ())) | None \<Rightarrow> statement (retA ())) (\<lambda>_. retA a)))"
    by (intro fails_rules m skip plain_wrap)
  show ?thesis
    by (rule failsI) (auto simp: transaction_def split: prod.splits sum.splits dest: failsD [OF rest] failsD [OF plain_wrap [OF skip]])
qed

lemmas plain_rules = fails_rules plain_wrap plain_statement plain_transaction plain_errs plain_errs_map plain_errs_fold

section \<open>The store\<close>

lemma plain_select: "(\<And>db. errs plain_error (f db)) \<Longrightarrow> fails plain_error (select f)"
  unfolding select_def by (rule plain_statement) (simp add: fails_def errs_def)

lemma plain_one_row: "errs plain_error (one_row r)"
  by (simp add: errs_def one_row_def split: option.splits)

lemma plain_writes:
  "fails plain_error (q_CreateNamespace nid meta parent)" "fails plain_error (q_ClearNamespaceParent nid)"
  "fails plain_error (q_SetNamespaceParent p nid)" "fails plain_error (q_RecordNamespaceParentEvent nid prev new actor)"
  "fails plain_error (q_PutBlob nid sha src sz)" "fails plain_error (q_CreateSchema nid sid smeta)"
  "fails plain_error (q_SetStagedVersion nid sid i)" "fails plain_error (q_ClearStagedVersion nid sid)"
  "fails plain_error (q_DiscardAllStaged nid)" "fails plain_error (q_PromoteAllStaged nid)"
  "fails plain_error (q_InsertVersion vrow)" "fails plain_error (q_InsertVersionFile frow)" "fails plain_error (q_InsertVersionDep drow)"
  unfolding q_CreateNamespace_def q_ClearNamespaceParent_def q_SetNamespaceParent_def q_RecordNamespaceParentEvent_def
    q_PutBlob_def q_CreateSchema_def q_SetStagedVersion_def q_ClearStagedVersion_def q_DiscardAllStaged_def q_PromoteAllStaged_def
    q_InsertVersion_def q_InsertVersionFile_def q_InsertVersionDep_def
  by (rule plain_statement; auto simp: fails_def modifyA_def split: if_splits)+

lemma fails_recover: "(\<And>e. fails P (h e)) \<Longrightarrow> fails P (catchA m h)"
  by (rule fails_catch [OF fails_any])

lemma plain_store:
  "fails plain_error (st_GetNamespace nid)" "fails plain_error st_ListNamespaces" "fails plain_error (st_ListNamespacesPage a l)"
  "fails plain_error (st_GetBlob nid sha)" "fails plain_error (st_GetSchema nid sid)" "fails plain_error (st_ListSchemasPage nid a l)"
  "fails plain_error (st_GetVersion nid sid v)" "fails plain_error (st_GetVersionFiles nid sid v)"
  "fails plain_error (st_GetVersionDeps nid sid v)" "fails plain_error (st_ListVersions nid sid)"
  "fails plain_error (st_LoadNamespaceCurrent nid)" "fails plain_error (st_LoadNamespaceProposed nid)"
  "fails plain_error (st_CreateNamespace ns)" "fails plain_error (st_SetNamespaceParent nid parent actor)"
  "fails plain_error (st_PutBlob b)" "fails plain_error (st_CreateSchema nid sid meta)" "fails plain_error (st_PutVersion ver files deps)"
  "fails plain_error (st_SetStaged nid sid v)" "fails plain_error (st_Promote nid)" "fails plain_error (st_DiscardStaging nid)"
  unfolding st_GetNamespace_def st_ListNamespaces_def st_ListNamespacesPage_def st_GetBlob_def st_GetSchema_def
    st_ListSchemasPage_def st_GetVersion_def st_GetVersionFiles_def st_GetVersionDeps_def st_ListVersions_def
    st_LoadNamespaceCurrent_def st_LoadNamespaceProposed_def st_CreateNamespace_def st_SetNamespaceParent_def set_parent_body_def
    st_PutBlob_def st_CreateSchema_def st_PutVersion_def put_version_body_def st_SetStaged_def st_Promote_def st_DiscardStaging_def
    q_GetNamespace_def q_ListNamespaces_def q_ListNamespacesPage_def q_GetBlob_def q_GetSchema_def q_ListSchemasPage_def
    q_GetVersion_def q_GetVersionFiles_def q_GetVersionDeps_def q_ListVersions_def q_LoadNamespaceCurrent_def
    q_LoadNamespaceProposed_def q_GetStagedSchemas_def
  by (intro plain_rules plain_select plain_one_row plain_writes fails_recover; simp)+

section \<open>The compiler and the snapshots\<close>

lemma plain_split: "(\<And>a b. errs plain_error (f a b)) \<Longrightarrow> errs plain_error (case p of (a, b) \<Rightarrow> f a b)"
  by (cases p) simp

lemma plain_snapshot: "errs plain_error (New L v fds)" "errs plain_error (NewFromFiles L v fs)"
proof -
  have "errs plain_error (registerMessage L m ts)" for m ts
    by (induction m arbitrary: ts) (auto intro!: plain_errs plain_errs_fold)
  then have reg: "errs plain_error (registerTypes L fd ts)" for fd ts
    unfolding registerTypes_def by (intro plain_errs plain_errs_fold)
  show "errs plain_error (New L v fds)" "errs plain_error (NewFromFiles L v fs)"
    unfolding New_def NewFromFiles_def registerFile_def by (intro plain_errs plain_errs_fold plain_split reg)+
qed

lemma plain_Compile: "errs plain_error (Compile L c v sources deps chain builtins)"
proof -
  have bounds: "errs plain_error (checkBounds c sources)"
    by (auto simp: checkBounds_def errs_def split: if_splits option.splits)
  have parse: "errs plain_error (parseSource L f src)" for f src
    by (auto simp: parseSource_def errs_def split: prod.splits option.splits)
  have "errs plain_error (normalizeFile L x)" for x
    unfolding normalizeFile_def NormalizeAndHash_def by (intro plain_split plain_errs parse)
  then show ?thesis
    unfolding Compile_def Let_def by (intro plain_errs plain_errs_map bounds plain_snapshot)
qed

section \<open>The registry\<close>

text \<open>An authorizer whose refusals carry no gRPC status, as the contract of the interface asks (they wrap \<^verbatim>\<open>ErrPermissionDenied\<close>).\<close>

definition plain_authorizer :: "authorizer \<Rightarrow> bool" where
  "plain_authorizer a \<longleftrightarrow> (\<forall>x y e. CanCreateNamespace a x y = Some e \<or> CanSetNamespaceParent a x y = Some e \<longrightarrow> plain_error e) \<and>
     (\<forall>x y e. CanPublish a x y = Some e \<or> CanPromote a x = Some e \<or> CanRebase a x y = Some e \<longrightarrow> plain_error e)"

lemma plain_gate: "(\<And>e. d = Some e \<Longrightarrow> plain_error e) \<Longrightarrow> fails plain_error (gate d)"
  unfolding gate_def by (intro plain_rules)

lemma plain_gates:
  assumes "plain_authorizer a"
  shows "fails plain_error (gate (CanCreateNamespace a x p))" "fails plain_error (gate (CanSetNamespaceParent a x p))"
    "fails plain_error (gate (CanPublish a x y))" "fails plain_error (gate (CanPromote a x))" "fails plain_error (gate (CanRebase a x y))"
  using assms by (auto simp: plain_authorizer_def intro!: plain_gate)

lemma plain_gather:
  "fails plain_error (gatherDeps nid sid)" "fails plain_error (gather_tier nid)" "fails plain_error gatherBuiltins"
  "fails plain_error (gatherChainTiers nid)" "fails plain_error (fetch_sources msg nid files)"
proof -
  have "fails plain_error (gather_sources nid m schemas)" for nid m schemas
    unfolding gather_sources_def schema_sources_def by (intro plain_rules plain_store)
  note src = this
  show "fails plain_error (gatherDeps nid sid)" "fails plain_error (gather_tier nid)" "fails plain_error gatherBuiltins"
    "fails plain_error (fetch_sources msg nid files)"
    unfolding gatherDeps_def gather_tier_def gatherBuiltins_def fetch_sources_def by (intro plain_rules plain_store src)+
  show "fails plain_error (gatherChainTiers nid)"
    unfolding gatherChainTiers_def gather_tier_def by (intro plain_rules plain_store src)
qed

lemma plain_conflicts: "errs plain_error (checkAncestorFQNConflicts mem child nid)"
proof -
  have "errs plain_error (first_conflict mem child as)" for as
    by (induction as) (auto simp: errs_def Let_def)
  then show ?thesis by (auto simp: checkAncestorFQNConflicts_def errs_def Let_def)
qed

lemma plain_publishInternal: "fails plain_error (publishInternal env req forceNew)"
proof -
  have shadow: "errs plain_error (shadow_check L req)" for L by (auto simp: shadow_check_def errs_def split: option.splits)
  have create: "fails plain_error (catchA m1 (\<lambda>_. catchA c (\<lambda>err. catchA m2 (\<lambda>_. failA (Wrapf p err)))))"
    if "fails plain_error c" for m1 m2 :: "(db, unit) act" and c p
    by (intro fails_recover fails_catch [OF that] fails_simple) simp
  have "fails plain_error (ensureNamespaceAndSchema nid sid)" for nid sid
    unfolding ensureNamespaceAndSchema_def by (intro fails_then create plain_store)
  note ensure = this
  have "fails plain_error (isUnchanged L nid sid fp)" for L nid sid fp
    unfolding isUnchanged_def by (intro fails_recover fails_simple)
  note unchanged = this
  have one: "fails plain_error (publish_compile env req)"
  proof -
    have "fails plain_error (bindA (getA (\<lambda>r. checkAncestorFQNConflicts (reg_mem r) child nid)) (\<lambda>check. thenA (pureA check) (retA x)))"
      for child nid and x :: "u64 \<times> compile_result"
      using plain_conflicts by (auto simp: fails_def errs_def bindA_def thenA_def getA_def pureA_def retA_def split: sum.splits)
    note conflicts = this
    show ?thesis unfolding publish_compile_def Let_def
      by (intro conflicts plain_rules plain_store plain_gather plain_Compile ensure shadow; simp)
  qed
  have two: "fails plain_error (publish_store env req v result)" for v result
    unfolding publish_store_def Let_def put_blobs_def by (intro plain_rules plain_store)
  show ?thesis unfolding publishInternal_def Let_def by (intro plain_rules one two unchanged)
qed

lemma plain_promote_check: "errs plain_error (promote_check L nid ns sid)"
  by (auto simp: promote_check_def errs_def Let_def split: option.splits)

lemma plain_rollback_target: "fails plain_error (rollback_target env nid sid v force)"
  unfolding rollback_target_def Let_def by (intro plain_rules plain_store plain_snapshot; simp)

lemma plain_registry:
  assumes "plain_authorizer (re_authz env)"
  shows "fails plain_error (Publish env req)" "fails plain_error (Promote env nid)" "fails plain_error (DiscardStaging nid)"
    "fails plain_error (Rollback env nid sid v force)" "fails plain_error (CreateNamespace env creq)"
    "fails plain_error (SetNamespaceParent env nid parent actor)" "fails plain_error (Rebase env nid sid actor)"
    "fails plain_error (GetNamespaceChain nid)" "fails plain_error (GetRebaseStatus nid sid)"
proof -
  have "fails plain_error (pin_status_of d)" for d
    unfolding pin_status_of_def by (intro plain_rules fails_recover)
  note pins = this
  show "fails plain_error (Publish env req)" "fails plain_error (Promote env nid)" "fails plain_error (DiscardStaging nid)"
    "fails plain_error (Rollback env nid sid v force)" "fails plain_error (CreateNamespace env creq)"
    "fails plain_error (SetNamespaceParent env nid parent actor)" "fails plain_error (Rebase env nid sid actor)"
    "fails plain_error (GetNamespaceChain nid)" "fails plain_error (GetRebaseStatus nid sid)"
    unfolding Publish_def Promote_def DiscardStaging_def Rollback_def CreateNamespace_def SetNamespaceParent_def Rebase_def
      GetNamespaceChain_def GetRebaseStatus_def Let_def
    by (intro plain_rules plain_store plain_gates [OF assms] plain_publishInternal plain_promote_check plain_rollback_target
        plain_gather pins; simp)+
qed

end
