(* ===== verification/Validate.thy ===== *)
theory Validate
  imports Compiler
begin

text \<open>
  \<^verbatim>\<open>server/limits.go\<close> and \<^verbatim>\<open>server/validate.go\<close>: the limits of the server and the checks of what callers
  send. \<^verbatim>\<open>strings.Split\<close>, \<^verbatim>\<open>path.Clean\<close> and the regular expression of ids are modelled as well.
\<close>

section \<open>Limits\<close>

record limits =
  MaxIDLength :: int
  MaxFilenameLength :: int
  MaxSourcesPerRequest :: int
  MaxTotalSourceBytes :: int
  MaxFileSourceBytes :: int
  DefaultListPageSize :: int
  MaxListPageSize :: int

definition DefaultLimits :: limits where
  "DefaultLimits = \<lparr>MaxIDLength = 256, MaxFilenameLength = 512, MaxSourcesPerRequest = 1000,
     MaxTotalSourceBytes = 32 * 1024 * 1024, MaxFileSourceBytes = 8 * 1024 * 1024,
     DefaultListPageSize = 100, MaxListPageSize = 1000\<rparr>"

definition resolvePageSize :: "limits \<Rightarrow> 32 word \<Rightarrow> int" where
  "resolvePageSize l requested =
     (if requested = 0 then DefaultListPageSize l
      else if uint requested > MaxListPageSize l then MaxListPageSize l
      else uint requested)"

section \<open>Ids\<close>

definition id_first :: "char \<Rightarrow> bool" where
  "id_first c \<longleftrightarrow> (CHR ''A'' \<le> c \<and> c \<le> CHR ''Z'') \<or> (CHR ''a'' \<le> c \<and> c \<le> CHR ''z'') \<or> (CHR ''0'' \<le> c \<and> c \<le> CHR ''9'')"

definition id_rest :: "char \<Rightarrow> bool" where
  "id_rest c \<longleftrightarrow> id_first c \<or> c = CHR ''_'' \<or> c = CHR ''.'' \<or> c = CHR ''-''"

text \<open>The pattern \<^verbatim>\<open>^[A-Za-z0-9][A-Za-z0-9_.-]*$\<close>; the end anchor matches only at the end of the text.\<close>

fun id_match :: "string \<Rightarrow> bool" where
  "id_match [] = False"
| "id_match (c # cs) = (id_first c \<and> list_all id_rest cs)"

definition idPattern :: string where
  "idPattern = ''^[A-Za-z0-9][A-Za-z0-9_.-]*$''"

definition validateID :: "string \<Rightarrow> string \<Rightarrow> int \<Rightarrow> unit result" where
  "validateID value fieldName maxLen =
     (if value = '''' then Inl (StatusError InvalidArgument (fieldName @ '' is required''))
      else if int (length value) > maxLen then
        Inl (StatusError InvalidArgument (fieldName @ '' exceeds '' @ fmt_int maxLen @ '' byte limit''))
      else if \<not> id_match value then
        Inl (StatusError InvalidArgument (fieldName @ '' must match '' @ idPattern))
      else Inr ())"

section \<open>File names\<close>

text \<open>\<^verbatim>\<open>strings.Split(name, "/")\<close> and its inverse.\<close>

fun split_slash :: "string \<Rightarrow> string list" where
  "split_slash [] = [[]]"
| "split_slash (c # cs) =
     (if c = CHR ''/'' then [] # split_slash cs
      else (c # hd (split_slash cs)) # tl (split_slash cs))"

fun join_slash :: "string list \<Rightarrow> string" where
  "join_slash [] = []"
| "join_slash [s] = s"
| "join_slash (s # ss) = s @ ''/'' @ join_slash ss"

text \<open>
  \<^verbatim>\<open>path.Clean\<close>: empty segments and \<^verbatim>\<open>.\<close> are dropped, \<^verbatim>\<open>..\<close> removes the segment before it, except at the
  root of an absolute path, where it is dropped, and at the start of a relative one, where it stays.
\<close>

definition clean_segment :: "bool \<Rightarrow> string \<Rightarrow> string list \<Rightarrow> string list" where
  "clean_segment rooted seg out =
     (if seg = '''' \<or> seg = ''.'' then out
      else if seg = ''..'' then
        (case out of
           [] \<Rightarrow> if rooted then [] else [''..'']
         | s # rest \<Rightarrow> if s = ''..'' then ''..'' # out else rest)
      else seg # out)"

definition path_Clean :: "string \<Rightarrow> string" where
  "path_Clean p =
     (if p = '''' then ''.''
      else let rooted = (hd p = CHR ''/'');
               out = rev (fold (clean_segment rooted) (split_slash p) [])
           in if rooted then CHR ''/'' # join_slash out
              else if out = [] then ''.'' else join_slash out)"

definition validateFilename :: "string \<Rightarrow> int \<Rightarrow> unit result" where
  "validateFilename name maxLen =
     (if name = '''' then Inl (StatusError InvalidArgument ''source filename must not be empty'')
      else if int (length name) > maxLen then
        Inl (StatusError InvalidArgument (''source filename exceeds '' @ fmt_int maxLen @ '' byte limit''))
      else if CHR 0x00 \<in> set name then Inl (StatusError InvalidArgument ''source filename contains NUL byte'')
      else if hd name = CHR ''/'' then Inl (StatusError InvalidArgument ''source filename must be relative'')
      else if path_Clean name \<noteq> name then
        Inl (StatusError InvalidArgument (''source filename '' @ fmt_q name @ '' is not in canonical form''))
      else if list_ex (\<lambda>seg. seg = ''..'') (split_slash name) then
        Inl (StatusError InvalidArgument (''source filename '' @ fmt_q name @ '' contains parent traversal''))
      else Inr ())"

section \<open>Sources\<close>

text \<open>The loop over the map of sources; \<open>acc\<close> is the running total.\<close>

fun check_sources :: "limits \<Rightarrow> (string \<times> bytes) list \<Rightarrow> int \<Rightarrow> int result" where
  "check_sources l [] acc = Inr acc"
| "check_sources l ((filename, src) # rest) acc =
     bindE (validateFilename filename (MaxFilenameLength l)) (\<lambda>_.
     let size = int (length src) in
     if size > MaxFileSourceBytes l then
       Inl (StatusError InvalidArgument (''source '' @ fmt_q filename @ '' exceeds '' @ fmt_int (MaxFileSourceBytes l)
         @ '' byte limit ('' @ fmt_int size @ '' bytes)''))
     else check_sources l rest (acc + size))"

definition validateSources :: "(string \<times> bytes) list \<Rightarrow> limits \<Rightarrow> unit result" where
  "validateSources sources l =
     (if length sources = 0 then Inl (StatusError InvalidArgument ''sources must not be empty'')
      else if int (length sources) > MaxSourcesPerRequest l then
        Inl (StatusError InvalidArgument (''too many sources ('' @ fmt_nat (length sources) @ '' > ''
          @ fmt_int (MaxSourcesPerRequest l) @ '')''))
      else bindE (check_sources l sources 0) (\<lambda>acc.
        if acc > MaxTotalSourceBytes l then
          Inl (StatusError InvalidArgument (''total source size '' @ fmt_int acc @ '' exceeds ''
            @ fmt_int (MaxTotalSourceBytes l) @ '' byte limit''))
        else Inr ()))"

section \<open>Segments of a clean name\<close>

definition plain_segment :: "string \<Rightarrow> bool" where
  "plain_segment seg \<longleftrightarrow> seg \<noteq> '''' \<and> seg \<noteq> ''.'' \<and> seg \<noteq> ''..''"

lemma split_slash_ne [simp]: "split_slash s \<noteq> []"
  by (induction s) auto

lemma join_slash_Cons: "ss \<noteq> [] \<Longrightarrow> join_slash (s # ss) = s @ ''/'' @ join_slash ss"
  by (cases ss) auto

lemma join_split [simp]: "join_slash (split_slash s) = s"
proof (induction s)
  case (Cons c cs)
  obtain x xs where x: "split_slash cs = x # xs" by (meson list.exhaust split_slash_ne)
  with Cons show ?case by (cases xs) auto
qed simp

lemma split_slash_plain: "CHR ''/'' \<notin> set s \<Longrightarrow> split_slash s = [s]"
  by (induction s) auto

lemma split_slash_append: "CHR ''/'' \<notin> set s \<Longrightarrow> split_slash (s @ CHR ''/'' # t) = s # split_slash t"
  by (induction s) auto

lemma split_slash_join: "ss \<noteq> [] \<Longrightarrow> \<forall>s \<in> set ss. CHR ''/'' \<notin> set s \<Longrightarrow> split_slash (join_slash ss) = ss"
proof (induction ss rule: join_slash.induct)
  case (3 s t ts)
  then show ?case using split_slash_append [of s "join_slash (t # ts)"] by simp
qed (simp_all add: split_slash_plain)

lemma split_slash_no_slash: "seg \<in> set (split_slash s) \<Longrightarrow> CHR ''/'' \<notin> set seg"
proof (induction s arbitrary: seg)
  case (Cons c cs)
  obtain x xs where x: "split_slash cs = x # xs" by (meson list.exhaust split_slash_ne)
  with Cons show ?case by (auto split: if_splits)
qed simp

lemma split_slash_concat: "split_slash (s @ CHR ''/'' # t) = split_slash s @ split_slash t"
proof (induction s)
  case (Cons c cs)
  then show ?case by (cases "split_slash cs") auto
qed simp

text \<open>Without parent segments, cleaning keeps the plain segments in order.\<close>

lemma clean_no_parent:
  "''..'' \<notin> set segs \<Longrightarrow> fold (clean_segment r) segs out = rev (filter plain_segment segs) @ out"
  by (induction segs arbitrary: out) (auto simp: clean_segment_def plain_segment_def)

lemma path_Clean_relative:
  assumes "p \<noteq> ''''" and "hd p \<noteq> CHR ''/''" and "''..'' \<notin> set (split_slash p)"
  shows "path_Clean p = (if filter plain_segment (split_slash p) = [] then ''.'' else join_slash (filter plain_segment (split_slash p)))"
  using assms by (simp add: path_Clean_def clean_no_parent)

lemma path_Clean_fixed_iff:
  assumes "p \<noteq> ''''" and "hd p \<noteq> CHR ''/''" and "''..'' \<notin> set (split_slash p)"
  shows "path_Clean p = p \<longleftrightarrow> p = ''.'' \<or> list_all plain_segment (split_slash p)"
proof -
  let ?out = "filter plain_segment (split_slash p)"
  have "list_all plain_segment (split_slash p)" if "?out \<noteq> []" "join_slash ?out = p"
  proof -
    have "split_slash (join_slash ?out) = ?out" using that(1) split_slash_no_slash by (intro split_slash_join) auto
    then have "?out = split_slash p" unfolding that(2) by simp
    then show ?thesis by (metis filter_id_conv list_all_iff)
  qed
  moreover have "path_Clean p = p" if "list_all plain_segment (split_slash p)"
  proof -
    from that have "?out = split_slash p" by (simp add: list_all_iff)
    then show ?thesis using assms by (simp add: path_Clean_relative)
  qed
  moreover have "path_Clean ''.'' = ''.''" by (simp add: path_Clean_def clean_segment_def)
  ultimately show ?thesis using path_Clean_relative [OF assms] by (auto split: if_splits)
qed

lemma absolute_empty_segment: "p \<noteq> '''' \<Longrightarrow> hd p = CHR ''/'' \<Longrightarrow> '''' \<in> set (split_slash p)"
  by (cases p) auto

lemma validateFilename_ok:
  "validateFilename name maxLen = Inr () \<longleftrightarrow> name \<noteq> '''' \<and> int (length name) \<le> maxLen \<and> CHR 0x00 \<notin> set name \<and>
     (name = ''.'' \<or> list_all plain_segment (split_slash name))"
proof (cases "name = '''' \<or> hd name = CHR ''/'' \<or> ''..'' \<in> set (split_slash name)")
  case True
  then have "name \<noteq> '''' \<Longrightarrow> name \<noteq> ''.'' \<and> \<not> list_all plain_segment (split_slash name)"
    using absolute_empty_segment by (force simp: list_all_iff plain_segment_def)
  with True show ?thesis by (auto simp: validateFilename_def list_ex_iff)
next
  case False
  then show ?thesis using path_Clean_fixed_iff [of name] by (auto simp: validateFilename_def list_ex_iff)
qed

section \<open>What the checks accept\<close>

lemma join_slash_append: "xs \<noteq> [] \<Longrightarrow> ys \<noteq> [] \<Longrightarrow> join_slash (xs @ ys) = join_slash xs @ ''/'' @ join_slash ys"
  by (induction xs rule: join_slash.induct) (auto simp: join_slash_Cons)

lemma path_Clean_below:
  assumes "dir \<noteq> ''''" and "dir \<noteq> ''/''" and "dir \<noteq> ''.''" and "path_Clean dir = dir" and "''..'' \<notin> set segs"
    and "split_slash name = segs"
  shows "path_Clean (dir @ ''/'' @ name) =
    (if filter plain_segment segs = [] then dir else dir @ ''/'' @ join_slash (filter plain_segment segs))"
proof -
  let ?r = "hd dir = CHR ''/''" and ?ps = "filter plain_segment segs"
  let ?out = "rev (fold (clean_segment ?r) (split_slash dir) [])"
  have "split_slash (dir @ ''/'' @ name) = split_slash dir @ segs" using split_slash_concat assms(6) by simp
  then have eq: "path_Clean (dir @ ''/'' @ name) =
      (if ?r then CHR ''/'' # join_slash (?out @ ?ps) else if ?out @ ?ps = [] then ''.'' else join_slash (?out @ ?ps))"
    using assms(1,5) by (simp add: path_Clean_def clean_no_parent)
  have dir: "dir = (if ?r then CHR ''/'' # join_slash ?out else if ?out = [] then ''.'' else join_slash ?out)"
    using assms(1,4) by (simp add: path_Clean_def Let_def)
  then have "?out \<noteq> []" using assms(2,3) by (auto split: if_splits)
  with eq dir show ?thesis by (cases "?ps = []") (auto simp: join_slash_append split: if_splits)
qed

text \<open>
  Property C29 (accepted_filename_confined). A source file name is accepted exactly when it is not empty, within
  the limit, without NUL, and is the single dot or has only plain segments between its slashes; and the name
  joined to any clean directory other than the root or the dot denotes a path below that directory, so an
  accepted name cannot escape it.
\<close>

theorem accepted_filename_confined:
  "(validateFilename name maxLen = Inr () \<longleftrightarrow> name \<noteq> '''' \<and> int (length name) \<le> maxLen \<and> CHR 0x00 \<notin> set name \<and>
      (name = ''.'' \<or> list_all plain_segment (split_slash name))) \<and>
   (validateFilename name maxLen = Inr () \<and> path_Clean dir = dir \<and> dir \<noteq> ''/'' \<and> dir \<noteq> ''.'' \<longrightarrow>
      path_Clean (dir @ ''/'' @ name) = (if name = ''.'' then dir else dir @ ''/'' @ name))"
proof (intro conjI impI)
  assume "validateFilename name maxLen = Inr () \<and> path_Clean dir = dir \<and> dir \<noteq> ''/'' \<and> dir \<noteq> ''.''"
  then have ok: "name = ''.'' \<or> list_all plain_segment (split_slash name)" and name: "name \<noteq> ''''"
    and dir: "path_Clean dir = dir" "dir \<noteq> ''/''" "dir \<noteq> ''.''" unfolding validateFilename_ok by auto
  from dir have "dir \<noteq> ''''" by (auto simp: path_Clean_def)
  note below = path_Clean_below [OF this dir(2,3,1) _ refl, of name]
  show "path_Clean (dir @ ''/'' @ name) = (if name = ''.'' then dir else dir @ ''/'' @ name)"
  proof (cases "name = ''.''")
    case True
    then show ?thesis using below by (simp add: plain_segment_def)
  next
    case False
    with ok have all: "list_all plain_segment (split_slash name)" by simp
    then have "filter plain_segment (split_slash name) = split_slash name" "''..'' \<notin> set (split_slash name)"
      by (auto simp: list_all_iff plain_segment_def)
    with below False show ?thesis by simp
  qed
qed (rule validateFilename_ok)

theorem accepted_filename_confined_witness:
  "validateFilename ''a/b.proto'' 512 = Inr () \<and> path_Clean ''/srv'' = ''/srv'' \<and>
   path_Clean (''/srv'' @ ''/'' @ ''a/b.proto'') = ''/srv/a/b.proto'' \<and> validateFilename ''../a'' 512 \<noteq> Inr ()"
proof -
  have "validateFilename ''a/b.proto'' 512 = Inr ()" "path_Clean ''/srv'' = ''/srv''" "validateFilename ''../a'' 512 \<noteq> Inr ()" by code_simp+
  with accepted_filename_confined [of "''a/b.proto''" 512 "''/srv''"] show ?thesis by simp
qed

lemma check_sources_Inr:
  "check_sources l sources acc = Inr n \<longleftrightarrow>
     list_all (\<lambda>(f, src). validateFilename f (MaxFilenameLength l) = Inr () \<and> int (length src) \<le> MaxFileSourceBytes l) sources \<and>
     n = acc + (\<Sum>(f, src) \<leftarrow> sources. int (length src))"
  by (induction l sources acc rule: check_sources.induct) (auto simp: Let_def not_less)

lemma validateSources_ok:
  "validateSources sources l = Inr () \<longleftrightarrow> sources \<noteq> [] \<and> int (length sources) \<le> MaxSourcesPerRequest l \<and>
     list_all (\<lambda>(f, src). validateFilename f (MaxFilenameLength l) = Inr () \<and> int (length src) \<le> MaxFileSourceBytes l) sources \<and>
     (\<Sum>(f, src) \<leftarrow> sources. int (length src)) \<le> MaxTotalSourceBytes l"
  by (auto simp: validateSources_def check_sources_Inr not_less)

lemma sum_list_mset:
  fixes f :: "'a \<Rightarrow> int"
  assumes "mset xs = mset ys"
  shows "sum_list (map f xs) = sum_list (map f ys)"
  using assms by (metis mset_map sum_mset_sum_list)

lemma default_bounds:
  assumes "validateSources sources DefaultLimits = Inr ()"
  shows "checkBounds (compiler_New []) sources = Inr ()"
proof -
  from assms have "int (length sources) \<le> 1000" and "\<forall>x \<in> set sources. int (length (snd x)) \<le> 8 * 1024 * 1024"
    unfolding validateSources_ok by (auto simp: DefaultLimits_def list_all_iff)
  moreover from this(2) have "find (\<lambda>(_, source). int (length source) > 8 * 1024 * 1024) sources = None"
    by (force simp: find_None_iff)
  ultimately show ?thesis by (simp add: checkBounds_def compiler_New_def)
qed

text \<open>
  Property C30 (accepted_sources). Sources are accepted exactly when there is at least one, their number, every
  name, every size and the total size are within the limits - in whatever order the map is walked; and what
  the default limits of the server accept, the default limits of the compiler accept too.
\<close>

theorem accepted_sources:
  "(validateSources sources l = Inr () \<longleftrightarrow> sources \<noteq> [] \<and> int (length sources) \<le> MaxSourcesPerRequest l \<and>
     list_all (\<lambda>(f, src). validateFilename f (MaxFilenameLength l) = Inr () \<and> int (length src) \<le> MaxFileSourceBytes l) sources \<and>
     (\<Sum>(f, src) \<leftarrow> sources. int (length src)) \<le> MaxTotalSourceBytes l) \<and>
   (mset sources' = mset sources \<longrightarrow> (validateSources sources' l = Inr ()) = (validateSources sources l = Inr ())) \<and>
   (validateSources sources DefaultLimits = Inr () \<longrightarrow> checkBounds (compiler_New []) sources = Inr ())"
proof (intro conjI impI)
  assume m: "mset sources' = mset sources"
  then have len: "length sources' = length sources" and all: "list_all P sources' = list_all P sources"
    and sums: "(\<Sum>(f, src) \<leftarrow> sources'. int (length src)) = (\<Sum>(f, src) \<leftarrow> sources. int (length src))" for P
    using mset_eq_length [OF m] mset_eq_setD [OF m] sum_list_mset [OF m] by (simp_all add: list_all_iff)
  show "(validateSources sources' l = Inr ()) = (validateSources sources l = Inr ())"
    unfolding validateSources_ok len all sums using m by auto
next
  assume "validateSources sources DefaultLimits = Inr ()"
  then show "checkBounds (compiler_New []) sources = Inr ()"
    by (rule default_bounds)
qed (rule validateSources_ok)

theorem accepted_sources_witness:
  "validateSources [(''a.proto'', ''x'')] DefaultLimits = Inr () \<and> checkBounds (compiler_New []) [(''a.proto'', ''x'')] = Inr ()"
proof -
  have "validateSources [(''a.proto'', ''x'')] DefaultLimits = Inr ()" by code_simp
  with accepted_sources show ?thesis by blast
qed

end
