(* ===== verification/Auth.thy ===== *)
theory Auth
  imports Prelude
begin

text \<open>
  \<^verbatim>\<open>server/auth.go\<close>: identities, the authenticators and the token file. The context of a call holds the
  metadata the transport delivered and the identity the interceptor attached.
\<close>

section \<open>Identities and contexts\<close>

record identity =
  Subject :: string
  Admin :: bool

definition AnonymousIdentity :: identity where
  "AnonymousIdentity = \<lparr>Subject = ''anonymous'', Admin = False\<rparr>"

record rpc_ctx =
  ctx_metadata :: "(string \<times> string list) list option"
  ctx_identity :: "identity option"

definition IdentityFromContext :: "rpc_ctx \<Rightarrow> identity" where
  "IdentityFromContext ctx = (case ctx_identity ctx of Some v \<Rightarrow> v | None \<Rightarrow> AnonymousIdentity)"

definition withIdentity :: "rpc_ctx \<Rightarrow> identity \<Rightarrow> rpc_ctx" where
  "withIdentity ctx who = ctx\<lparr>ctx_identity := Some who\<rparr>"

text \<open>An authenticator maps a context and the full method name to an identity or an error.\<close>

type_synonym authenticator = "rpc_ctx \<Rightarrow> string \<Rightarrow> identity result"

definition NoAuth :: authenticator where
  "NoAuth ctx fullMethod = Inr AnonymousIdentity"

type_synonym token_map = "(string \<times> identity) list"

definition bearer :: string where
  "bearer = ''Bearer ''"

definition TokenAuth :: "token_map \<Rightarrow> authenticator" where
  "TokenAuth tokens ctx fullMethod =
     (case ctx_metadata ctx of
        None \<Rightarrow> Inl (StatusError Unauthenticated ''missing metadata'')
      | Some md \<Rightarrow>
          (case (case map_of md ''authorization'' of None \<Rightarrow> [] | Some values \<Rightarrow> values) of
             [] \<Rightarrow> Inl (StatusError Unauthenticated ''missing authorization header'')
           | authz # _ \<Rightarrow>
               if take (length bearer) authz \<noteq> bearer
               then Inl (StatusError Unauthenticated ''authorization must use Bearer scheme'')
               else (case map_of tokens (drop (length bearer) authz) of
                       None \<Rightarrow> Inl (StatusError Unauthenticated ''unknown token'')
                     | Some who \<Rightarrow> Inr who)))"

definition UnaryAuthInterceptor :: "authenticator \<Rightarrow> (rpc_ctx \<Rightarrow> ('s, 'a) act) \<Rightarrow> rpc_ctx \<Rightarrow> string \<Rightarrow> ('s, 'a) act" where
  "UnaryAuthInterceptor a handler ctx fullMethod =
     (case a ctx fullMethod of Inl e \<Rightarrow> failA e | Inr who \<Rightarrow> handler (withIdentity ctx who))"

section \<open>White space\<close>

text \<open>
  The number of bytes of the white space character at the start of a text, 0 if there is none, as
  \<^verbatim>\<open>unicode.IsSpace\<close> sees the UTF-8 encoding: six ASCII characters, two of two bytes, the others of three.
\<close>

definition ascii_space :: "char \<Rightarrow> bool" where
  "ascii_space c \<longleftrightarrow> c \<in> {CHR 0x09, CHR 0x0A, CHR 0x0B, CHR 0x0C, CHR 0x0D, CHR 0x20}"

definition space3 :: "char \<Rightarrow> char \<Rightarrow> char \<Rightarrow> bool" where
  "space3 a b c \<longleftrightarrow> (a, b, c) = (CHR 0xE1, CHR 0x9A, CHR 0x80) \<or>
     (a, b) = (CHR 0xE2, CHR 0x80) \<and> (CHR 0x80 \<le> c \<and> c \<le> CHR 0x8A \<or> c \<in> {CHR 0xA8, CHR 0xA9, CHR 0xAF}) \<or>
     (a, b, c) = (CHR 0xE2, CHR 0x81, CHR 0x9F) \<or> (a, b, c) = (CHR 0xE3, CHR 0x80, CHR 0x80)"

fun space_len :: "string \<Rightarrow> nat" where
  "space_len [] = 0"
| "space_len (a # s) =
     (if ascii_space a then 1
      else case s of
        [] \<Rightarrow> 0
      | b # t \<Rightarrow> if a = CHR 0xC2 \<and> b \<in> {CHR 0x85, CHR 0xA0} then 2
          else (case t of [] \<Rightarrow> 0 | c # _ \<Rightarrow> if space3 a b c then 3 else 0))"

text \<open>\<^verbatim>\<open>strings.Fields\<close>; the first argument counts the bytes of a separator still to skip.\<close>

fun fields_from :: "nat \<Rightarrow> string \<Rightarrow> string \<Rightarrow> string list" where
  "fields_from k cur [] = (if cur = [] then [] else [cur])"
| "fields_from (Suc k) cur (c # cs) = fields_from k cur cs"
| "fields_from 0 cur (c # cs) =
     (case space_len (c # cs) of
        0 \<Rightarrow> fields_from 0 (cur @ [c]) cs
      | Suc n \<Rightarrow> (if cur = [] then [] else [cur]) @ fields_from n [] cs)"

definition strings_Fields :: "string \<Rightarrow> string list" where
  "strings_Fields s = fields_from 0 [] s"

text \<open>\<^verbatim>\<open>strings.TrimSpace\<close>: from the left while a space starts the text, from the right while one ends it.\<close>

fun trim_left :: "nat \<Rightarrow> string \<Rightarrow> string" where
  "trim_left k [] = []"
| "trim_left (Suc k) (c # cs) = trim_left k cs"
| "trim_left 0 (c # cs) = (case space_len (c # cs) of 0 \<Rightarrow> c # cs | Suc n \<Rightarrow> trim_left n cs)"

definition ends_in_space :: "string \<Rightarrow> nat" where
  "ends_in_space s =
     (case find (\<lambda>n. n \<le> length s \<and> space_len (drop (length s - n) s) = n) [1, 2, 3] of Some n \<Rightarrow> n | None \<Rightarrow> 0)"

function trim_right :: "string \<Rightarrow> string" where
  "trim_right s = (if ends_in_space s = 0 \<or> s = [] then s else trim_right (take (length s - ends_in_space s) s))"
  by pat_completeness auto
termination by (relation "measure length") auto

declare trim_right.simps [simp del]

definition TrimSpace :: "string \<Rightarrow> string" where
  "TrimSpace s = trim_right (trim_left 0 s)"

section \<open>The token file\<close>

text \<open>
  \<^verbatim>\<open>bufio.Scanner\<close> with its default split: lines without their newline and one carriage return; no token
  after the last newline; a line that does not fit the buffer of 64 KiB stops the scan with an error.
\<close>

fun scan_lines :: "string \<Rightarrow> string \<Rightarrow> string list" where
  "scan_lines cur [] = (if cur = [] then [] else [cur])"
| "scan_lines cur (c # cs) = (if c = CHR 0x0A then cur # scan_lines [] cs else scan_lines (cur @ [c]) cs)"

definition dropCR :: "string \<Rightarrow> string" where
  "dropCR s = (if s \<noteq> [] \<and> last s = CHR 0x0D then butlast s else s)"

definition parse_token_line :: "nat \<Rightarrow> string \<Rightarrow> token_map \<Rightarrow> token_map result" where
  "parse_token_line lineNum text tokens =
     (let line = TrimSpace text in
      if line = '''' \<or> take 1 line = ''#'' then Inr tokens
      else let fields = strings_Fields line in
      if length fields < 2 then
        Inl (Errorf (''line '' @ fmt_nat lineNum @ '': expected at least <token> <subject>''))
      else let token = fields ! 0; subject = fields ! 1;
               role = (if length fields \<ge> 3 then fields ! 2 else ''user'') in
      if role \<noteq> ''user'' \<and> role \<noteq> ''admin'' then
        Inl (Errorf (''line '' @ fmt_nat lineNum @ '': role must be 'user' or 'admin', got '' @ fmt_q role))
      else if map_of tokens token \<noteq> None then Inl (Errorf (''line '' @ fmt_nat lineNum @ '': duplicate token''))
      else Inr (tokens @ [(token, \<lparr>Subject = subject, Admin = (role = ''admin'')\<rparr>)]))"

fun parse_token_lines :: "nat \<Rightarrow> string list \<Rightarrow> token_map \<Rightarrow> token_map result" where
  "parse_token_lines lineNum [] tokens = Inr tokens"
| "parse_token_lines lineNum (line # lines) tokens =
     (if length line > 65535 then Inl (Wrapf ''reading token file: '' (LibError ''bufio.Scanner: token too long''))
      else bindE (parse_token_line (lineNum + 1) (dropCR line) tokens) (parse_token_lines (lineNum + 1) lines))"

text \<open>The reader delivers \<open>content\<close> and then the end of the file or an error.\<close>

definition ParseTokenFile :: "string \<Rightarrow> error option \<Rightarrow> token_map result" where
  "ParseTokenFile content readErr =
     bindE (parse_token_lines 0 (scan_lines [] content) []) (\<lambda>tokens.
     case readErr of Some e \<Rightarrow> Inl (Wrapf ''reading token file: '' e) | None \<Rightarrow> Inr tokens)"

section \<open>Printing and parsing\<close>

definition graphic :: "char \<Rightarrow> bool" where
  "graphic c \<longleftrightarrow> CHR 0x21 \<le> c \<and> c \<le> CHR 0x7E"

definition word_text :: "string \<Rightarrow> bool" where
  "word_text s \<longleftrightarrow> s \<noteq> [] \<and> list_all graphic s"

definition token_line :: "string \<times> identity \<Rightarrow> string" where
  "token_line = (\<lambda>(token, who). token @ [CHR 0x09] @ Subject who @ [CHR 0x09] @ (if Admin who then ''admin'' else ''user''))"

definition token_file :: "token_map \<Rightarrow> string" where
  "token_file tokens = concat (map (\<lambda>t. token_line t @ [CHR 0x0A]) tokens)"

definition printable_entry :: "string \<times> identity \<Rightarrow> bool" where
  "printable_entry = (\<lambda>(token, who). word_text token \<and> hd token \<noteq> CHR ''#'' \<and> word_text (Subject who) \<and>
     length token + length (Subject who) \<le> 65000)"

lemma graphic_code: "graphic c \<longleftrightarrow> 0x21 \<le> (of_char c :: nat) \<and> (of_char c :: nat) \<le> 0x7E"
  by (simp add: graphic_def less_eq_char_def)

lemma graphic_neq:
  assumes "graphic c"
  shows "\<not> ascii_space c" "c \<noteq> CHR 0xC2" "c \<noteq> CHR 0xE1" "c \<noteq> CHR 0xE2" "c \<noteq> CHR 0xE3" "c \<noteq> CHR 0x85" "c \<noteq> CHR 0xA0"
    "c \<noteq> CHR 0x80" "c \<noteq> CHR 0x9F" "c \<noteq> CHR 0xA8" "c \<noteq> CHR 0xA9" "c \<noteq> CHR 0xAF" "\<not> CHR 0x80 \<le> c"
  using assms unfolding graphic_code ascii_space_def less_eq_char_def by auto

lemma graphic_no_space: "graphic c \<Longrightarrow> space_len (c # s) = 0"
  by (simp add: graphic_neq space3_def split: list.split)

lemma graphic_not_last: "graphic c \<Longrightarrow> \<not> ascii_space c \<and> c \<notin> {CHR 0x85, CHR 0xA0} \<and> \<not> space3 a b c"
  by (simp add: graphic_neq space3_def)

lemma ends_in_space_graphic:
  assumes "graphic z"
  shows "ends_in_space (xs @ [z]) = 0"
proof -
  note z = graphic_not_last [OF assms]
  have one: "space_len [z] \<noteq> 1" "space_len [x, z] \<noteq> 2" "space_len [x, y, z] \<noteq> 3" for x y
    using z by auto
  have "space_len (drop (length (xs @ [z]) - n) (xs @ [z])) \<noteq> n" if "n \<in> {1, 2, 3}" "n \<le> length (xs @ [z])" for n
  proof -
    define ys where "ys = drop (Suc (length xs) - n) xs"
    have d: "drop (length (xs @ [z]) - n) (xs @ [z]) = ys @ [z]" and "length ys = n - 1" using that by (auto simp: ys_def)
    with that(1) consider "n = 1" "ys = []" | x where "n = 2" "ys = [x]" | x y where "n = 3" "ys = [x, y]"
      by (auto simp: length_Suc_conv numeral_2_eq_2)
    then show ?thesis unfolding d using one by cases (simp_all del: space_len.simps)
  qed
  then have "find (\<lambda>n. n \<le> length (xs @ [z]) \<and> space_len (drop (length (xs @ [z]) - n) (xs @ [z])) = n) [1, 2, 3] = None"
    unfolding find_None_iff by auto
  then show ?thesis unfolding ends_in_space_def by simp
qed

lemma fields_from_graphic: "list_all graphic w \<Longrightarrow> fields_from 0 cur (w @ rest) = fields_from 0 (cur @ w) rest"
  by (induction w arbitrary: cur) (auto simp: graphic_no_space simp del: space_len.simps)

lemma fields_from_tab: "fields_from 0 cur (CHR 0x09 # rest) = (if cur = [] then [] else [cur]) @ fields_from 0 [] rest"
  by (simp add: ascii_space_def)

lemma role_graphic: "list_all graphic (if b then ''admin'' else ''user'')"
  by (simp add: graphic_code)

lemma token_line_parts:
  assumes "printable_entry (t, who)"
  shows "TrimSpace (token_line (t, who)) = token_line (t, who)" "dropCR (token_line (t, who)) = token_line (t, who)"
    "strings_Fields (token_line (t, who)) = [t, Subject who, if Admin who then ''admin'' else ''user'']"
    "take 1 (token_line (t, who)) \<noteq> ''#''" "token_line (t, who) \<noteq> []" "CHR 0x0A \<notin> set (token_line (t, who))"
    "length (token_line (t, who)) \<le> 65535"
proof -
  let ?role = "if Admin who then ''admin'' else ''user''"
  from assms have t: "t \<noteq> []" "list_all graphic t" "hd t \<noteq> CHR ''#''" and s: "Subject who \<noteq> []" "list_all graphic (Subject who)"
    and len: "length t + length (Subject who) \<le> 65000" by (auto simp: printable_entry_def word_text_def)
  from t obtain c cs where c: "t = c # cs" "graphic c" "c \<noteq> CHR ''#''" by (cases t) auto
  obtain xs z where z: "token_line (t, who) = xs @ [z]" "graphic z"
    using role_graphic [of "Admin who"] by (cases "Admin who") (auto simp: token_line_def graphic_code append_eq_append_conv2)
  have left: "trim_left 0 (token_line (t, who)) = token_line (t, who)"
    using c by (simp add: token_line_def graphic_no_space del: space_len.simps)
  show "TrimSpace (token_line (t, who)) = token_line (t, who)"
    unfolding TrimSpace_def left by (subst trim_right.simps) (simp add: z(1) ends_in_space_graphic [OF z(2)])
  show "dropCR (token_line (t, who)) = token_line (t, who)" unfolding dropCR_def z(1) using z(2) by (auto simp: graphic_code)
  show "strings_Fields (token_line (t, who)) = [t, Subject who, ?role]"
    using t s fields_from_graphic [OF role_graphic, of "[]" "Admin who" "[]"]
    by (simp add: strings_Fields_def token_line_def fields_from_graphic fields_from_tab del: fields_from.simps(2,3))
  show "take 1 (token_line (t, who)) \<noteq> ''#''" "token_line (t, who) \<noteq> []" using c by (simp_all add: token_line_def)
  show "CHR 0x0A \<notin> set (token_line (t, who))"
    using t s by (auto simp: token_line_def list_all_iff graphic_code)
  show "length (token_line (t, who)) \<le> 65535" using len by (simp add: token_line_def)
qed

lemma scan_lines_append: "CHR 0x0A \<notin> set l \<Longrightarrow> scan_lines cur (l @ CHR 0x0A # rest) = (cur @ l) # scan_lines [] rest"
  by (induction l arbitrary: cur) auto

lemma scan_token_file: "list_all printable_entry ts \<Longrightarrow> scan_lines [] (token_file ts) = map token_line ts"
  by (induction ts) (auto simp: token_file_def scan_lines_append token_line_parts)

lemma parse_token_file:
  "list_all printable_entry ts \<Longrightarrow> distinct (map fst (acc @ ts)) \<Longrightarrow> parse_token_lines n (map token_line ts) acc = Inr (acc @ ts)"
proof (induction ts arbitrary: acc n)
  case (Cons t ts)
  obtain tok who where t: "t = (tok, who)" by (cases t)
  with Cons.prems have p: "printable_entry (tok, who)" by simp
  from Cons.prems t have "map_of acc tok = None" by (auto simp: map_of_eq_None_iff)
  then have "parse_token_line (n + 1) (token_line (tok, who)) acc = Inr (acc @ [(tok, who)])"
    using token_line_parts(4) [OF p] by (simp add: parse_token_line_def token_line_parts [OF p] Let_def)
  with Cons t show ?case using token_line_parts(7) [OF p] by (simp add: token_line_parts(2) [OF p])
qed simp


text \<open>
  Property C31 (token_file_roundtrip). A token table printed one entry per line (tokens distinct, tokens and
  subjects of graphic ASCII characters, no token starting with the comment sign) is parsed back as the same table; and the
  authenticator over it accepts exactly the bearer tokens of the table, each with its own subject and role,
  and answers every other token with \<^verbatim>\<open>Unauthenticated\<close>.
\<close>

theorem token_file_roundtrip:
  assumes "list_all printable_entry ts" and "distinct (map fst ts)"
    and "ctx_metadata ctx = Some [(''authorization'', [bearer @ tok])]"
  shows "ParseTokenFile (token_file ts) None = Inr ts \<and>
    (TokenAuth ts ctx m = Inr who \<longleftrightarrow> (tok, who) \<in> set ts) \<and>
    (tok \<notin> fst ` set ts \<longrightarrow> TokenAuth ts ctx m = Inl (StatusError Unauthenticated ''unknown token''))"
proof (intro conjI impI)
  show "ParseTokenFile (token_file ts) None = Inr ts"
    using parse_token_file [OF assms(1), of "[]"] assms(2) by (simp add: ParseTokenFile_def scan_token_file [OF assms(1)])
  have "map_of ts tok = Some who \<longleftrightarrow> (tok, who) \<in> set ts" using assms(2) by simp
  then show "TokenAuth ts ctx m = Inr who \<longleftrightarrow> (tok, who) \<in> set ts"
    using assms(3) by (auto simp: TokenAuth_def split: option.splits)
  assume "tok \<notin> fst ` set ts"
  then have "map_of ts tok = None" by (simp add: map_of_eq_None_iff)
  then show "TokenAuth ts ctx m = Inl (StatusError Unauthenticated ''unknown token'')"
    using assms(3) by (simp add: TokenAuth_def)
qed

definition demo_tokens :: token_map where
  "demo_tokens = [(''abc123'', \<lparr>Subject = ''alice'', Admin = True\<rparr>), (''0123'', \<lparr>Subject = ''ci-bot'', Admin = False\<rparr>)]"

theorem token_file_roundtrip_witness:
  "ParseTokenFile (token_file demo_tokens) None = Inr demo_tokens \<and>
   TokenAuth demo_tokens \<lparr>ctx_metadata = Some [(''authorization'', [bearer @ ''abc123''])], ctx_identity = None\<rparr> ''Publish''
     = Inr \<lparr>Subject = ''alice'', Admin = True\<rparr>"
proof -
  have "list_all printable_entry demo_tokens" "distinct (map fst demo_tokens)"
    by (simp_all add: demo_tokens_def printable_entry_def word_text_def graphic_code)
  from token_file_roundtrip [OF this, of "\<lparr>ctx_metadata = Some [(''authorization'', [bearer @ ''abc123''])], ctx_identity = None\<rparr>" "''abc123''" "''Publish''"]
  show ?thesis by (auto simp: demo_tokens_def)
qed

end
