(* ===== verification/Page_Token.thy ===== *)
theory Page_Token
  imports Prelude
begin

text \<open>
  The page tokens of \<^verbatim>\<open>server/server.go\<close>: a cursor in the unpadded URL alphabet of base64. The decoder is
  that of \<^verbatim>\<open>encoding/base64\<close>: it skips line breaks, rejects every other character outside the alphabet and a
  single left-over character, and ignores the unused low bits of the last one.
\<close>

section \<open>The alphabet\<close>

definition sextet_char :: "nat \<Rightarrow> char" where
  "sextet_char n =
     (if n < 26 then char_of (65 + n) else if n < 52 then char_of (71 + n) else if n < 62 then char_of (n - 4)
      else if n = 62 then CHR ''-'' else CHR ''_'')"

definition char_sextet :: "char \<Rightarrow> nat option" where
  "char_sextet c =
     (let n = of_char c :: nat in
      if 65 \<le> n \<and> n \<le> 90 then Some (n - 65) else if 97 \<le> n \<and> n \<le> 122 then Some (n - 71)
      else if 48 \<le> n \<and> n \<le> 57 then Some (n + 4) else if c = CHR ''-'' then Some 62
      else if c = CHR ''_'' then Some 63 else None)"

section \<open>Encoding and decoding\<close>

fun sextets :: "nat list \<Rightarrow> nat list" where
  "sextets (a # b # c # bs) = a div 4 # (a mod 4 * 16 + b div 16) # (b mod 16 * 4 + c div 64) # c mod 64 # sextets bs"
| "sextets [a, b] = [a div 4, a mod 4 * 16 + b div 16, b mod 16 * 4]"
| "sextets [a] = [a div 4, a mod 4 * 16]"
| "sextets [] = []"

fun octets :: "nat list \<Rightarrow> nat list option" where
  "octets (p # q # r # s # xs) =
     map_option (\<lambda>bs. (p * 4 + q div 16) # (q mod 16 * 16 + r div 4) # (r mod 4 * 64 + s) # bs) (octets xs)"
| "octets [p, q, r] = Some [p * 4 + q div 16, q mod 16 * 16 + r div 4]"
| "octets [p, q] = Some [p * 4 + q div 16]"
| "octets [p] = None"
| "octets [] = Some []"

definition base64_encode :: "bytes \<Rightarrow> string" where
  "base64_encode s = map sextet_char (sextets (map of_char s))"

fun char_sextets :: "string \<Rightarrow> nat list option" where
  "char_sextets [] = Some []"
| "char_sextets (c # cs) =
     (if c = CHR 0x0A \<or> c = CHR 0x0D then char_sextets cs
      else case char_sextet c of None \<Rightarrow> None | Some n \<Rightarrow> map_option ((#) n) (char_sextets cs))"

definition base64_decode :: "string \<Rightarrow> bytes option" where
  "base64_decode t = (case char_sextets t of None \<Rightarrow> None | Some xs \<Rightarrow> map_option (map char_of) (octets xs))"

definition encodePageToken :: "string \<Rightarrow> string" where
  "encodePageToken cursor = base64_encode cursor"

definition decodePageToken :: "string \<Rightarrow> string result" where
  "decodePageToken token =
     (if token = '''' then Inr ''''
      else case base64_decode token of None \<Rightarrow> Inl (LibError ''illegal base64 data'') | Some raw \<Rightarrow> Inr raw)"

section \<open>Round trip\<close>

lemma of_sextet_char:
  "n < 64 \<Longrightarrow> (of_char (sextet_char n) :: nat) =
     (if n < 26 then 65 + n else if n < 52 then 71 + n else if n < 62 then n - 4 else if n = 62 then 45 else 95)"
  by (auto simp: sextet_char_def)

lemma char_sextet_char: "n < 64 \<Longrightarrow> char_sextet (sextet_char n) = Some n"
  unfolding char_sextet_def Let_def of_sextet_char by (auto simp: sextet_char_def)

lemma sextet_char_visible:
  assumes "n < 64"
  shows "sextet_char n \<noteq> CHR 0x0A" "sextet_char n \<noteq> CHR 0x0D"
proof -
  have "14 < (of_char (sextet_char n) :: nat)" unfolding of_sextet_char [OF assms] by auto
  then show "sextet_char n \<noteq> CHR 0x0A" "sextet_char n \<noteq> CHR 0x0D" by auto
qed

lemma char_sextets_encode: "list_all (\<lambda>n. n < 64) xs \<Longrightarrow> char_sextets (map sextet_char xs) = Some xs"
  by (induction xs) (auto simp: char_sextet_char sextet_char_visible)

lemma sextets_bound: "list_all (\<lambda>n. n < 256) bs \<Longrightarrow> list_all (\<lambda>n. n < 64) (sextets bs)"
  by (induction bs rule: sextets.induct) auto

lemma sextets_exact:
  fixes a b c :: nat
  assumes "b < 256" and "c < 256"
  shows "a div 4 * 4 + (a mod 4 * 16 + b div 16) div 16 = a"
    and "(a mod 4 * 16 + b div 16) mod 16 * 16 + (b mod 16 * 4 + c div 64) div 4 = b"
    and "(b mod 16 * 4 + c div 64) mod 4 * 64 + c mod 64 = c"
proof -
  have "b div 16 < 16" "c div 64 < 4" using assms by (simp_all add: less_mult_imp_div_less)
  then show "a div 4 * 4 + (a mod 4 * 16 + b div 16) div 16 = a"
    "(a mod 4 * 16 + b div 16) mod 16 * 16 + (b mod 16 * 4 + c div 64) div 4 = b"
    "(b mod 16 * 4 + c div 64) mod 4 * 64 + c mod 64 = c"
    by (simp_all only: div_mult_self3 mod_mult_self3 div_less mod_less zero_neq_numeral not_False_eq_True add_0_right
        div_mult_mod_eq neq0_conv zero_less_numeral)
qed

lemma octets_sextets: "list_all (\<lambda>n. n < 256) bs \<Longrightarrow> octets (sextets bs) = Some bs"
proof (induction bs rule: sextets.induct)
  case (1 a b c bs)
  then show ?case using sextets_exact(1,2) [of b c a] sextets_exact(3) [of b c] by simp
next
  case (2 a b)
  then show ?case using sextets_exact(1,2) [of b 0 a] by simp
next
  case (3 a)
  then show ?case using sextets_exact(1) [of 0 0 a] by simp
qed simp

lemma page_token_roundtrip: "decodePageToken (encodePageToken s) = Inr s"
proof -
  have "list_all (\<lambda>n. n < 256) (map of_char s :: nat list)" by (simp add: list_all_iff)
  then have "base64_decode (base64_encode s) = Some s"
    by (simp add: base64_decode_def base64_encode_def char_sextets_encode sextets_bound octets_sextets o_def)
  moreover have "base64_encode s = '''' \<Longrightarrow> s = ''''"
    by (cases "map of_char s :: nat list" rule: sextets.cases) (auto simp: base64_encode_def)
  ultimately show ?thesis by (auto simp: decodePageToken_def encodePageToken_def)
qed

end
