(* ===== verification/Server.thy ===== *)
theory Server
  imports Failures Validate Auth Page_Token Paging
begin

text \<open>
  \<^verbatim>\<open>server/server.go\<close>: the handlers of the gRPC service. The state is the registry and the lines written to
  the logger; a handler is an action on it that returns a response or the error that the transport turns
  into a status. The messages of the protocol are the arguments and results of the handlers.
\<close>

section \<open>Error texts and statuses\<close>

fun code_string :: "code \<Rightarrow> string" where
  "code_string InvalidArgument = ''InvalidArgument''"
| "code_string NotFoundCode = ''NotFound''"
| "code_string FailedPrecondition = ''FailedPrecondition''"
| "code_string PermissionDenied = ''PermissionDenied''"
| "code_string Unauthenticated = ''Unauthenticated''"
| "code_string Internal = ''Internal''"

text \<open>The method \<^verbatim>\<open>Error()\<close> of an error; \<open>drv\<close> gives the texts of the database driver.\<close>

fun error_text :: "(db_error \<Rightarrow> string) \<Rightarrow> error \<Rightarrow> string" where
  "error_text drv (Errorf s) = s"
| "error_text drv (Wrapf p e) = p @ error_text drv e"
| "error_text drv ErrParentCycle = ''setting parent would create a cycle''"
| "error_text drv ErrNamespaceNotFound = ''namespace not found''"
| "error_text drv ErrPermissionDenied = ''permission denied''"
| "error_text drv (DbError d) = drv d"
| "error_text drv (StatusError c m) = ''rpc error: code = '' @ code_string c @ '' desc = '' @ m"
| "error_text drv (ConflictError a cs) = conflict_Error a cs"
| "error_text drv (LibError s) = s"

definition strings_Contains :: "string \<Rightarrow> string \<Rightarrow> bool" where
  "strings_Contains s sub = list_ex (\<lambda>n. take (length sub) (drop n s) = sub) [0..<Suc (length s)]"

section \<open>Options and state\<close>

record server_options =
  so_Limits :: limits
  so_Auth :: "authenticator option"
  so_Logger :: "string option"
  so_AllowAnonymousWrites :: bool

definition DefaultOptions :: server_options where
  "DefaultOptions = \<lparr>so_Limits = DefaultLimits, so_Auth = Some NoAuth, so_Logger = Some ''default'', so_AllowAnonymousWrites = True\<rparr>"

datatype server_option =
    WithLimits limits
  | WithAuth "authenticator option"
  | WithLogger "string option"
  | WithAllowAnonymousWrites bool

fun apply_server_option :: "server_option \<Rightarrow> server_options \<Rightarrow> server_options" where
  "apply_server_option (WithLimits l) o1 = o1\<lparr>so_Limits := l\<rparr>"
| "apply_server_option (WithAuth a) o1 = o1\<lparr>so_Auth := a\<rparr>"
| "apply_server_option (WithLogger l) o1 = o1\<lparr>so_Logger := l\<rparr>"
| "apply_server_option (WithAllowAnonymousWrites b) o1 = o1\<lparr>so_AllowAnonymousWrites := b\<rparr>"

text \<open>
  The authorizer of the registry reads the principal from the context of the call, so its decisions
  depend on the context; \<open>se_driver\<close> stands for the texts of the database driver.
\<close>

record server_env =
  se_registry :: registry_env
  se_authz :: "rpc_ctx \<Rightarrow> authorizer"
  se_driver :: "db_error \<Rightarrow> string"
  se_opts :: server_options

datatype log_value = LogStr string | LogU64 u64 | LogBool bool | LogInt int | LogErr error

datatype log_level = LogInfo | LogWarn | LogError

record log_line =
  ll_Logger :: string
  ll_Level :: log_level
  ll_Msg :: string
  ll_Fields :: "(string \<times> log_value) list"

record server =
  srv_reg :: registry
  srv_log :: "log_line list"

definition server_New :: "registry_env \<Rightarrow> (rpc_ctx \<Rightarrow> authorizer) \<Rightarrow> (db_error \<Rightarrow> string) \<Rightarrow> server_option list \<Rightarrow> server_env" where
  "server_New reg authz drv opts =
     (let o1 = fold apply_server_option opts DefaultOptions;
          o2 = (if so_Logger o1 = None then o1\<lparr>so_Logger := Some ''default''\<rparr> else o1);
          o3 = (if so_Auth o2 = None then o2\<lparr>so_Auth := Some NoAuth\<rparr> else o2)
      in \<lparr>se_registry = reg, se_authz = authz, se_driver = drv, se_opts = o3\<rparr>)"

abbreviation reg_env :: "server_env \<Rightarrow> rpc_ctx \<Rightarrow> registry_env" where
  "reg_env env ctx \<equiv> (se_registry env)\<lparr>re_authz := se_authz env ctx\<rparr>"

abbreviation in_registry :: "(registry, 'a) act \<Rightarrow> (server, 'a) act" where
  "in_registry \<equiv> zoomA srv_reg (\<lambda>r s. s\<lparr>srv_reg := r\<rparr>)"

abbreviation max_id :: "server_env \<Rightarrow> int" where
  "max_id env \<equiv> MaxIDLength (so_Limits (se_opts env))"

definition logA :: "server_env \<Rightarrow> log_level \<Rightarrow> string \<Rightarrow> (string \<times> log_value) list \<Rightarrow> (server, unit) act" where
  "logA env level msg attrs = modifyA (\<lambda>s. s\<lparr>srv_log := srv_log s @
     [\<lparr>ll_Logger = (case so_Logger (se_opts env) of Some l \<Rightarrow> l | None \<Rightarrow> ''default''), ll_Level = level, ll_Msg = msg, ll_Fields = attrs\<rparr>]\<rparr>)"

section \<open>Guards, errors and the audit trail\<close>

definition requireWriter :: "server_env \<Rightarrow> identity \<Rightarrow> unit result" where
  "requireWriter env who =
     (if (Subject who = '''' \<or> who = AnonymousIdentity) \<and> \<not> so_AllowAnonymousWrites (se_opts env)
      then Inl (StatusError PermissionDenied ''write operations require authentication'')
      else Inr ())"

definition requireAdmin :: "identity \<Rightarrow> string \<Rightarrow> unit result" where
  "requireAdmin who op_name =
     (if Admin who then Inr () else Inl (StatusError PermissionDenied (op_name @ '' requires admin'')))"

definition internalError :: "server_env \<Rightarrow> rpc_ctx \<Rightarrow> string \<Rightarrow> error \<Rightarrow> (server, 'a) act" where
  "internalError env ctx op_name err =
     (if has_status err then failA err
      else thenA (logA env LogError ''rpc failed''
          [(''op'', LogStr op_name), (''subject'', LogStr (Subject (IdentityFromContext ctx))), (''err'', LogErr err)])
        (failA (StatusError Internal (op_name @ '' failed''))))"

definition audit_line :: "server_env \<Rightarrow> rpc_ctx \<Rightarrow> string \<Rightarrow> (string \<times> log_value) list \<Rightarrow> (server, unit) act" where
  "audit_line env ctx op_name attrs =
     logA env LogInfo ''audit'' ([(''op'', LogStr op_name), (''subject'', LogStr (Subject (IdentityFromContext ctx)))] @ attrs)"

definition validateNamespaceID :: "server_env \<Rightarrow> string \<Rightarrow> unit result" where
  "validateNamespaceID env namespaceID =
     (if namespaceID = BuiltinsNamespace then Inr ()
      else validateID namespaceID ''namespace_id'' (max_id env))"

definition isCompatError :: "server_env \<Rightarrow> error \<Rightarrow> bool" where
  "isCompatError env err = strings_Contains (error_text (se_driver env) err) ''compatibility check failed''"

definition translateHierarchyError :: "server_env \<Rightarrow> rpc_ctx \<Rightarrow> string \<Rightarrow> error \<Rightarrow> (server, 'a) act" where
  "translateHierarchyError env ctx op_name err =
     (if errors_is err ErrParentCycle then failA (StatusError FailedPrecondition ''setting parent would create a cycle'')
      else if errors_is err ErrNamespaceNotFound then failA (StatusError NotFoundCode ''namespace or parent not found'')
      else if errors_is err ErrPermissionDenied then failA (StatusError PermissionDenied (error_text (se_driver env) err))
      else internalError env ctx op_name err)"

section \<open>Responses\<close>

record publish_response =
  pp_Version :: u64
  pp_Fingerprint :: string
  pp_NoChange :: bool

record schema_info =
  si_NamespaceId :: string
  si_SchemaId :: string
  si_CreatedAt :: int
  si_Metadata :: "metadata option"
  si_Versions :: "u64 list"
  si_CurrentVersion :: "u64 option"
  si_StagedVersion :: "u64 option"

record namespace_info =
  ni_Id :: string
  ni_CreatedAt :: int
  ni_Metadata :: "metadata option"

definition schemaToProto :: "store_schema \<Rightarrow> u64 list \<Rightarrow> schema_info" where
  "schemaToProto schema versions = \<lparr>si_NamespaceId = ss_NamespaceID schema, si_SchemaId = ss_SchemaID schema,
     si_CreatedAt = ss_CreatedAt schema, si_Metadata = ss_Metadata schema, si_Versions = versions,
     si_CurrentVersion = ss_CurrentVersion schema, si_StagedVersion = ss_StagedVersion schema\<rparr>"

definition namespaceToProto :: "store_namespace \<Rightarrow> namespace_info" where
  "namespaceToProto ns = \<lparr>ni_Id = sn_ID ns, ni_CreatedAt = sn_CreatedAt ns, ni_Metadata = sn_Metadata ns\<rparr>"

definition publish_response_of :: "publish_result \<Rightarrow> publish_response" where
  "publish_response_of result = \<lparr>pp_Version = pr_Version result, pp_Fingerprint = pr_Fingerprint result, pp_NoChange = pr_NoChange result\<rparr>"

section \<open>Write handlers\<close>

definition srv_Publish :: "server_env \<Rightarrow> rpc_ctx \<Rightarrow> publish_request \<Rightarrow> (server, publish_response) act" where
  "srv_Publish env ctx req =
     (let who = IdentityFromContext ctx; nid = pq_NamespaceID req; sid = pq_SchemaID req in
     thenA (pureA (requireWriter env who))
     (thenA (pureA (validateNamespaceID env nid))
     (thenA (pureA (validateID sid ''schema_id'' (max_id env)))
     (thenA (pureA (validateSources (pq_Sources req) (so_Limits (se_opts env))))
     (thenA (if nid = BuiltinsNamespace then pureA (requireAdmin who ''writing to __builtins__'') else retA ())
     (thenA (if pq_Force req
        then thenA (pureA (requireAdmin who ''force=true''))
          (logA env LogWarn ''force publish'' [(''subject'', LogStr (Subject who)), (''namespace'', LogStr nid), (''schema'', LogStr sid)])
        else retA ())
     (bindA (catchA (in_registry (Publish (reg_env env ctx) req)) (internalError env ctx ''publish'')) (\<lambda>result.
     thenA (audit_line env ctx ''publish'' [(''namespace'', LogStr nid), (''schema'', LogStr sid), (''version'', LogU64 (pr_Version result)),
        (''no_change'', LogBool (pr_NoChange result)), (''force'', LogBool (pq_Force req)), (''files'', LogInt (int (length (pq_Sources req))))])
     (retA (publish_response_of result))))))))))"

definition srv_Promote :: "server_env \<Rightarrow> rpc_ctx \<Rightarrow> string \<Rightarrow> (server, (string \<times> u64) list) act" where
  "srv_Promote env ctx nid =
     (let who = IdentityFromContext ctx in
     thenA (pureA (requireWriter env who))
     (thenA (pureA (validateNamespaceID env nid))
     (bindA (catchA (in_registry (Promote (reg_env env ctx) nid)) (\<lambda>err.
        if isCompatError env err then failA (StatusError FailedPrecondition (error_text (se_driver env) err))
        else internalError env ctx ''promote'' err)) (\<lambda>promoted.
     thenA (audit_line env ctx ''promote'' [(''namespace'', LogStr nid), (''promoted_count'', LogInt (int (length promoted)))])
     (retA (map (\<lambda>p. (ps_SchemaID p, ps_CurrentVersion p)) promoted))))))"

definition srv_DiscardStaging :: "server_env \<Rightarrow> rpc_ctx \<Rightarrow> string \<Rightarrow> (server, unit) act" where
  "srv_DiscardStaging env ctx nid =
     (let who = IdentityFromContext ctx in
     thenA (pureA (requireWriter env who))
     (thenA (pureA (validateNamespaceID env nid))
     (thenA (catchA (in_registry (DiscardStaging nid)) (internalError env ctx ''discard_staging''))
     (audit_line env ctx ''discard_staging'' [(''namespace'', LogStr nid)]))))"

definition srv_Rollback :: "server_env \<Rightarrow> rpc_ctx \<Rightarrow> string \<Rightarrow> string \<Rightarrow> u64 \<Rightarrow> bool \<Rightarrow> (server, unit) act" where
  "srv_Rollback env ctx nid sid version force =
     (let who = IdentityFromContext ctx in
     thenA (pureA (requireWriter env who))
     (thenA (pureA (validateNamespaceID env nid))
     (thenA (pureA (validateID sid ''schema_id'' (max_id env)))
     (thenA (if version = 0 then failA (StatusError InvalidArgument ''version is required'') else retA ())
     (thenA (if force
        then thenA (pureA (requireAdmin who ''force=true''))
          (logA env LogWarn ''force rollback'' [(''subject'', LogStr (Subject who)), (''namespace'', LogStr nid),
             (''schema'', LogStr sid), (''version'', LogU64 version)])
        else retA ())
     (thenA (catchA (in_registry (Rollback (reg_env env ctx) nid sid version force)) (\<lambda>err.
        if strings_Contains (error_text (se_driver env) err) ''would break consumers''
        then failA (StatusError FailedPrecondition (error_text (se_driver env) err))
        else internalError env ctx ''rollback'' err))
     (audit_line env ctx ''rollback'' [(''namespace'', LogStr nid), (''schema'', LogStr sid), (''version'', LogU64 version),
        (''force'', LogBool force)])))))))"

text \<open>The check of an optional parent, shared by the two handlers that take one.\<close>

definition validate_parent :: "server_env \<Rightarrow> string option \<Rightarrow> unit result" where
  "validate_parent env parent =
     (case parent of
        None \<Rightarrow> Inr ()
      | Some p \<Rightarrow>
          if p = BuiltinsNamespace
          then Inl (StatusError InvalidArgument ''parent_namespace_id cannot be __builtins__; it is the implicit root'')
          else validateID p ''parent_namespace_id'' (max_id env))"

definition srv_CreateNamespace :: "server_env \<Rightarrow> rpc_ctx \<Rightarrow> string \<Rightarrow> string option \<Rightarrow> metadata option \<Rightarrow> (server, unit) act" where
  "srv_CreateNamespace env ctx nid parent meta =
     (let who = IdentityFromContext ctx in
     thenA (pureA (requireWriter env who))
     (thenA (if nid = BuiltinsNamespace then pureA (requireAdmin who ''creating __builtins__'')
        else pureA (validateID nid ''id'' (max_id env)))
     (thenA (pureA (validate_parent env parent))
     (thenA (catchA (in_registry (CreateNamespace (reg_env env ctx)
          \<lparr>cn_NamespaceID = nid, cn_ParentID = parent, cn_Metadata = meta, cn_ActorID = Subject who\<rparr>))
        (translateHierarchyError env ctx ''create_namespace''))
     (audit_line env ctx ''create_namespace'' [(''namespace'', LogStr nid)])))))"

definition srv_SetNamespaceParent :: "server_env \<Rightarrow> rpc_ctx \<Rightarrow> string \<Rightarrow> string option \<Rightarrow> (server, unit) act" where
  "srv_SetNamespaceParent env ctx nid parent =
     (let who = IdentityFromContext ctx in
     thenA (pureA (requireWriter env who))
     (thenA (pureA (validateID nid ''namespace_id'' (max_id env)))
     (thenA (pureA (validate_parent env parent))
     (thenA (catchA (in_registry (SetNamespaceParent (reg_env env ctx) nid parent (Subject who)))
        (translateHierarchyError env ctx ''set_namespace_parent''))
     (audit_line env ctx ''set_namespace_parent'' [(''namespace'', LogStr nid)])))))"

definition srv_Rebase :: "server_env \<Rightarrow> rpc_ctx \<Rightarrow> string \<Rightarrow> string \<Rightarrow> (server, publish_response) act" where
  "srv_Rebase env ctx nid sid =
     (let who = IdentityFromContext ctx in
     thenA (pureA (requireWriter env who))
     (thenA (pureA (validateID nid ''namespace_id'' (max_id env)))
     (thenA (pureA (validateID sid ''schema_id'' (max_id env)))
     (bindA (catchA (in_registry (Rebase (reg_env env ctx) nid sid (Subject who))) (translateHierarchyError env ctx ''rebase'')) (\<lambda>result.
     thenA (audit_line env ctx ''rebase'' [(''schema'', LogStr (nid @ ''/'' @ sid))])
     (retA (publish_response_of result)))))))"

section \<open>Read handlers\<close>

abbreviation from_store :: "(db, 'a) act \<Rightarrow> (server, 'a) act" where
  "from_store m \<equiv> in_registry (in_store m)"

definition srv_GetSchema :: "server_env \<Rightarrow> rpc_ctx \<Rightarrow> string \<Rightarrow> string \<Rightarrow> (server, schema_info) act" where
  "srv_GetSchema env ctx nid sid =
     thenA (pureA (validateNamespaceID env nid))
     (thenA (pureA (validateID sid ''schema_id'' (max_id env)))
     (bindA (catchA (from_store (st_GetSchema nid sid)) (\<lambda>_.
        failA (StatusError NotFoundCode (''schema '' @ nid @ ''/'' @ sid @ '' not found'')))) (\<lambda>schema.
     bindA (catchA (from_store (st_ListVersions nid sid)) (internalError env ctx ''get_schema_versions'')) (\<lambda>versions.
     retA (schemaToProto schema versions)))))"

text \<open>
  The page handlers: cursor from the token, one row more than the page, a token for the next page when
  there is one. A page size below one would make the slice expressions panic.
\<close>

definition page_cursor :: "server_env \<Rightarrow> string \<Rightarrow> string result" where
  "page_cursor env token =
     (case decodePageToken token of
        Inl _ \<Rightarrow> Inl (StatusError InvalidArgument ''invalid page_token'')
      | Inr after \<Rightarrow>
          if int (length after) > max_id env
          then Inl (StatusError InvalidArgument ''page_token cursor exceeds id length limit'')
          else Inr after)"

definition cut_page :: "('a \<Rightarrow> string) \<Rightarrow> int \<Rightarrow> 'a list \<Rightarrow> ('a list \<times> string) result" where
  "cut_page cursor pageSize rows =
     (if int (length rows) > pageSize then
        if pageSize \<le> 0 then Inl (Errorf ''panic: index out of range'')
        else let page = take (nat pageSize) rows in Inr (page, encodePageToken (cursor (last page)))
      else Inr (rows, ''''))"

definition srv_ListSchemas :: "server_env \<Rightarrow> rpc_ctx \<Rightarrow> string \<Rightarrow> 32 word \<Rightarrow> string \<Rightarrow> (server, schema_info list \<times> string) act" where
  "srv_ListSchemas env ctx nid page_size token =
     thenA (pureA (validateNamespaceID env nid))
     (bindA (pureA (page_cursor env token)) (\<lambda>after.
     let pageSize = resolvePageSize (so_Limits (se_opts env)) page_size in
     bindA (catchA (from_store (st_ListSchemasPage nid after (pageSize + 1))) (internalError env ctx ''list_schemas'')) (\<lambda>schemas.
     bindA (pureA (cut_page ss_SchemaID pageSize schemas)) (\<lambda>(page, nextToken).
     retA (map (\<lambda>schema. schemaToProto schema []) page, nextToken)))))"

definition srv_ListNamespaces :: "server_env \<Rightarrow> rpc_ctx \<Rightarrow> 32 word \<Rightarrow> string \<Rightarrow> (server, namespace_info list \<times> string) act" where
  "srv_ListNamespaces env ctx page_size token =
     bindA (pureA (page_cursor env token)) (\<lambda>after.
     let pageSize = resolvePageSize (so_Limits (se_opts env)) page_size in
     bindA (catchA (from_store (st_ListNamespacesPage after (pageSize + 1))) (internalError env ctx ''list_namespaces'')) (\<lambda>namespaces.
     bindA (pureA (cut_page sn_ID pageSize namespaces)) (\<lambda>(page, nextToken).
     retA (map namespaceToProto page, nextToken))))"

definition current_or :: "string \<Rightarrow> string \<Rightarrow> u64 \<Rightarrow> (server, u64) act" where
  "current_or nid sid version =
     (if version \<noteq> 0 then retA version
      else bindA (getA (\<lambda>s. reg_Current (reg_mem (srv_reg s)) nid sid)) (\<lambda>snap.
        case snap of None \<Rightarrow> failA (StatusError NotFoundCode ''no current version'') | Some snap \<Rightarrow> retA (snap_version snap)))"

definition srv_GetDescriptor :: "server_env \<Rightarrow> rpc_ctx \<Rightarrow> string \<Rightarrow> string \<Rightarrow> u64 \<Rightarrow> (server, u64 \<times> fdproto list) act" where
  "srv_GetDescriptor env ctx nid sid requested =
     thenA (pureA (validateNamespaceID env nid))
     (thenA (pureA (validateID sid ''schema_id'' (max_id env)))
     (bindA (current_or nid sid requested) (\<lambda>version.
     bindA (catchA (from_store (st_GetVersion nid sid version)) (\<lambda>_.
        failA (StatusError NotFoundCode (''version '' @ fmt_u64 version @ '' not found'')))) (\<lambda>ver.
     bindA (catchA (pureA (libE (lib_Unmarshal (re_lib (se_registry env)) (sv_Compiled ver))))
        (internalError env ctx ''get_descriptor_unmarshal'')) (\<lambda>fds.
     retA (version, fds))))))"

definition srv_GetSource :: "server_env \<Rightarrow> rpc_ctx \<Rightarrow> string \<Rightarrow> string \<Rightarrow> u64 \<Rightarrow> (server, u64 \<times> (string \<times> bytes) list) act" where
  "srv_GetSource env ctx nid sid requested =
     thenA (pureA (validateNamespaceID env nid))
     (thenA (pureA (validateID sid ''schema_id'' (max_id env)))
     (bindA (current_or nid sid requested) (\<lambda>version.
     bindA (catchA (from_store (st_GetVersionFiles nid sid version)) (internalError env ctx ''get_source_files'')) (\<lambda>files.
     bindA (forA (\<lambda>f. bindA (catchA (from_store (st_GetBlob nid (vfi_BlobSHA256 f))) (internalError env ctx ''get_source_blob''))
        (\<lambda>blob. retA (vfi_Filename f, sb_OriginalSource blob))) files) (\<lambda>pairs.
     retA (version, fold (\<lambda>(k, v). AList.update k v) pairs []))))))"

definition srv_GetNamespaceChain :: "server_env \<Rightarrow> rpc_ctx \<Rightarrow> string \<Rightarrow> (server, string list) act" where
  "srv_GetNamespaceChain env ctx nid =
     thenA (pureA (validateID nid ''namespace_id'' (max_id env)))
     (catchA (in_registry (GetNamespaceChain nid)) (\<lambda>err.
        failA (StatusError NotFoundCode (error_text (se_driver env) err))))"

definition srv_GetRebaseStatus :: "server_env \<Rightarrow> rpc_ctx \<Rightarrow> string \<Rightarrow> string \<Rightarrow> (server, rebase_status) act" where
  "srv_GetRebaseStatus env ctx nid sid =
     thenA (pureA (validateID nid ''namespace_id'' (max_id env)))
     (thenA (pureA (validateID sid ''schema_id'' (max_id env)))
     (catchA (in_registry (GetRebaseStatus nid sid)) (internalError env ctx ''get_rebase_status'')))"

end
