(* ===== verification/Server_Facts.thy ===== *)
theory Server_Facts
  imports Server Registry_Props
begin

text \<open>
  What the handlers of the server do to the state and which errors they return, proved handler by handler
  over the sequencing rules: reads change nothing, writes are calls of the registry, one audit line per
  successful write, and no error of the backend reaches a caller.
\<close>

section \<open>All handlers\<close>

text \<open>A call of the service, by the handler and its arguments.\<close>

datatype rpc =
    RpcPublish publish_request
  | RpcPromote string
  | RpcDiscardStaging string
  | RpcRollback string string u64 bool
  | RpcCreateNamespace string "string option" "metadata option"
  | RpcSetNamespaceParent string "string option"
  | RpcRebase string string
  | RpcGetSchema string string
  | RpcListSchemas string "32 word" string
  | RpcGetDescriptor string string u64
  | RpcGetSource string string u64
  | RpcListNamespaces "32 word" string
  | RpcGetNamespaceChain string
  | RpcGetRebaseStatus string string

abbreviation ignoring :: "('s, 'a) act \<Rightarrow> ('s, unit) act" where
  "ignoring m \<equiv> thenA m (retA ())"

fun dispatch :: "server_env \<Rightarrow> rpc \<Rightarrow> rpc_ctx \<Rightarrow> (server, unit) act" where
  "dispatch env (RpcPublish req) ctx = ignoring (srv_Publish env ctx req)"
| "dispatch env (RpcPromote nid) ctx = ignoring (srv_Promote env ctx nid)"
| "dispatch env (RpcDiscardStaging nid) ctx = srv_DiscardStaging env ctx nid"
| "dispatch env (RpcRollback nid sid v force) ctx = srv_Rollback env ctx nid sid v force"
| "dispatch env (RpcCreateNamespace nid parent meta) ctx = srv_CreateNamespace env ctx nid parent meta"
| "dispatch env (RpcSetNamespaceParent nid parent) ctx = srv_SetNamespaceParent env ctx nid parent"
| "dispatch env (RpcRebase nid sid) ctx = ignoring (srv_Rebase env ctx nid sid)"
| "dispatch env (RpcGetSchema nid sid) ctx = ignoring (srv_GetSchema env ctx nid sid)"
| "dispatch env (RpcListSchemas nid n token) ctx = ignoring (srv_ListSchemas env ctx nid n token)"
| "dispatch env (RpcGetDescriptor nid sid v) ctx = ignoring (srv_GetDescriptor env ctx nid sid v)"
| "dispatch env (RpcGetSource nid sid v) ctx = ignoring (srv_GetSource env ctx nid sid v)"
| "dispatch env (RpcListNamespaces n token) ctx = ignoring (srv_ListNamespaces env ctx n token)"
| "dispatch env (RpcGetNamespaceChain nid) ctx = ignoring (srv_GetNamespaceChain env ctx nid)"
| "dispatch env (RpcGetRebaseStatus nid sid) ctx = ignoring (srv_GetRebaseStatus env ctx nid sid)"

fun is_write :: "rpc \<Rightarrow> bool" where
  "is_write (RpcPublish req) = True" | "is_write (RpcPromote nid) = True" | "is_write (RpcDiscardStaging nid) = True"
| "is_write (RpcRollback nid sid v force) = True" | "is_write (RpcCreateNamespace nid parent meta) = True"
| "is_write (RpcSetNamespaceParent nid parent) = True" | "is_write (RpcRebase nid sid) = True" | "is_write call = False"

fun op_name :: "rpc \<Rightarrow> string" where
  "op_name (RpcPublish req) = ''publish''" | "op_name (RpcPromote nid) = ''promote''"
| "op_name (RpcDiscardStaging nid) = ''discard_staging''" | "op_name (RpcRollback nid sid v force) = ''rollback''"
| "op_name (RpcCreateNamespace nid parent meta) = ''create_namespace''"
| "op_name (RpcSetNamespaceParent nid parent) = ''set_namespace_parent''" | "op_name (RpcRebase nid sid) = ''rebase''"
| "op_name call = ''''"

lemmas handler_defs = srv_Publish_def srv_Promote_def srv_DiscardStaging_def srv_Rollback_def srv_CreateNamespace_def
  srv_SetNamespaceParent_def srv_Rebase_def srv_GetSchema_def srv_ListSchemas_def srv_GetDescriptor_def srv_GetSource_def
  srv_ListNamespaces_def srv_GetNamespaceChain_def srv_GetRebaseStatus_def

section \<open>Reads\<close>

definition same_registry :: "server \<Rightarrow> server \<Rightarrow> bool" where
  "same_registry s t \<longleftrightarrow> reg_mem (srv_reg t) = reg_mem (srv_reg s) \<and> same_tables (reg_db (srv_reg s)) (reg_db (srv_reg t))"

interpretation views_only: state_order same_registry
  by unfold_locales (auto simp: same_registry_def same_tables_refl intro: same_tables_trans)

lemma views_only_store: "reads.holds m \<Longrightarrow> views_only.holds (from_store m)"
  by (rule views_only.holds_zoom) (auto simp: same_registry_def zoomA_def split: prod.splits dest: reads.holdsD)

lemma views_only_log: "views_only.holds (logA env level msg attrs)"
  unfolding logA_def by (rule views_only.holds_modify) (simp add: same_registry_def same_tables_refl)

lemma views_only_errors:
  "views_only.holds (internalError env ctx opn err)" "views_only.holds (translateHierarchyError env ctx opn err)"
  "views_only.holds (audit_line env ctx opn attrs)"
  unfolding internalError_def translateHierarchyError_def audit_line_def
  by (intro views_only.holds_rules views_only_log)+

text \<open>The same for calls of the registry that only read.\<close>

definition same_view_of :: "registry \<Rightarrow> registry \<Rightarrow> bool" where
  "same_view_of r r' \<longleftrightarrow> reg_mem r' = reg_mem r \<and> same_tables (reg_db r) (reg_db r')"

interpretation still: state_order same_view_of
  by unfold_locales (auto simp: same_view_of_def same_tables_refl intro: same_tables_trans)

lemma still_store: "reads.holds m \<Longrightarrow> still.holds (in_store m)"
  by (rule still.holds_zoom) (auto simp: same_view_of_def dest: reads.holdsD)

lemma still_ops: "still.holds (GetNamespaceChain nid)" "still.holds (GetRebaseStatus nid sid)"
  unfolding GetNamespaceChain_def GetRebaseStatus_def
  by (intro still.holds_rules still_store reads.holds_for reads_registry)+

lemma views_only_registry: "still.holds m \<Longrightarrow> views_only.holds (in_registry m)"
  by (rule views_only.holds_zoom) (auto simp: same_registry_def same_view_of_def dest: still.holdsD)

lemma views_only_current_or: "views_only.holds (current_or nid sid v)"
  unfolding current_or_def by (intro views_only.holds_rules)

lemma views_only_split: "(\<And>a b. views_only.holds (f a b)) \<Longrightarrow> views_only.holds (case p of (a, b) \<Rightarrow> f a b)"
  by (cases p) simp

lemma reads_keep_registry: "\<not> is_write call \<Longrightarrow> views_only.holds (dispatch env call ctx)"
  by (cases call; simp only: dispatch.simps is_write.simps; unfold handler_defs)
    (intro views_only.holds_rules views_only_store views_only_errors views_only_registry views_only_current_or
      views_only_split reads_ops still_ops; simp)+

section \<open>Writes are calls of the registry\<close>

interpretation reach: state_order "\<lambda>s t. reachable (srv_reg s) \<longrightarrow> reachable (srv_reg t)"
  by unfold_locales auto

lemma reach_registry:
  assumes "\<And>r. reg_step r (snd (m r))"
  shows "reach.holds (in_registry m)"
  by (rule reach.holds_zoom) (metis assms reachable.step server.select_convs(1) server.surjective server.update_convs(1) snd_conv)

text \<open>A read leaves the same tables and memory with fewer faults to come, which is a step of the world.\<close>

lemma same_view_of_step:
  assumes "same_view_of r r'" and "reachable r"
  shows "reachable r'"
proof -
  let ?world = "\<lambda>f. r\<lparr>reg_db := (reg_db r)\<lparr>db_faults := f, db_clock := db_clock (reg_db r)\<rparr>\<rparr>"
  have "?world f = r\<lparr>reg_db := (reg_db r)\<lparr>db_faults := f\<rparr>\<rparr>" for f by (cases "reg_db r") simp
  moreover from assms(1) have "reg_db r' = (reg_db r)\<lparr>db_faults := db_faults (reg_db r')\<rparr>" "reg_mem r' = reg_mem r"
    by (auto simp: same_view_of_def same_tables_def)
  ultimately have "r' = ?world (db_faults (reg_db r'))" by (metis registry.surjective registry.update_convs(1) old.unit.exhaust)
  moreover have "reachable (?world (db_faults (reg_db r')))" by (rule reachable.step [OF assms(2) reg_step.world])
  ultimately show ?thesis by metis
qed

lemma reach_views: "views_only.holds m \<Longrightarrow> reach.holds m"
  by (rule reach.holdsI) (auto simp: same_registry_def dest!: views_only.holdsD intro: same_view_of_step simp: same_view_of_def)

lemma reach_writes:
  "reach.holds (in_registry (Publish renv req))" "reach.holds (in_registry (Promote renv nid))"
  "reach.holds (in_registry (DiscardStaging nid))" "reach.holds (in_registry (Rollback renv nid sid v force))"
  "reach.holds (in_registry (CreateNamespace renv creq))" "reach.holds (in_registry (SetNamespaceParent renv nid parent actor))"
  "reach.holds (in_registry (Rebase renv nid sid actor))"
  by (rule reach_registry; rule reg_step.intros)+

lemma reach_log: "reach.holds (logA env level msg attrs)" "reach.holds (internalError env ctx opn err)"
  "reach.holds (translateHierarchyError env ctx opn err)" "reach.holds (audit_line env ctx opn attrs)"
  by (intro reach_views views_only_log views_only_errors)+

lemma reach_dispatch: "reach.holds (dispatch env call ctx)"
proof (cases "is_write call")
  case False
  then show ?thesis by (intro reach_views reads_keep_registry)
next
  case True
  then show ?thesis
    by (cases call; simp only: dispatch.simps is_write.simps; unfold handler_defs Let_def)
      (intro reach.holds_rules reach_writes reach_log; simp)+
qed

inductive served :: "server \<Rightarrow> bool" where
  start: "served \<lparr>srv_reg = \<lparr>reg_db = empty_db collation, reg_mem = []\<rparr>, srv_log = []\<rparr>"
| call: "served s \<Longrightarrow> served (snd (UnaryAuthInterceptor a (dispatch env c) ctx m s))"
| world: "served s \<Longrightarrow> served (s\<lparr>srv_reg := (srv_reg s)\<lparr>reg_db := (reg_db (srv_reg s))\<lparr>db_faults := fs, db_clock := now\<rparr>\<rparr>\<rparr>)"

lemma reach_interceptor: "(\<And>ctx. reach.holds (h ctx)) \<Longrightarrow> reach.holds (UnaryAuthInterceptor a h ctx m)"
  by (cases "a ctx m") (simp_all add: UnaryAuthInterceptor_def reach.holds_simple)

lemma served_reachable: "served s \<Longrightarrow> reachable (srv_reg s)"
proof (induction rule: served.induct)
  case (start collation)
  then show ?case by (simp add: reachable.start)
next
  case (call s a env c ctx m)
  have "reach.holds (UnaryAuthInterceptor a (dispatch env c) ctx m)" by (intro reach_interceptor reach_dispatch)
  with call.IH show ?case by (simp add: reach.holds_def)
next
  case (world s fs now)
  then show ?case using reachable.step [OF _ reg_step.world] by simp
qed

section \<open>The guards of the write handlers\<close>

definition anonymous :: "identity \<Rightarrow> bool" where
  "anonymous who \<longleftrightarrow> Subject who = '''' \<or> who = AnonymousIdentity"

lemma write_needs_writer:
  assumes "is_write call" and "requireWriter env (IdentityFromContext ctx) = Inl e"
  shows "dispatch env call ctx s = (Inl e, s)"
  using assms by (cases call) (simp_all add: handler_defs thenA_def bindA_def pureA_def Let_def)

text \<open>The calls that need an administrator, and the name of the operation in the refusal.\<close>

fun needs_admin :: "rpc \<Rightarrow> bool" where
  "needs_admin (RpcPublish req) = (pq_NamespaceID req = BuiltinsNamespace \<or> pq_Force req)"
| "needs_admin (RpcRollback nid sid v force) = force"
| "needs_admin (RpcCreateNamespace nid parent meta) = (nid = BuiltinsNamespace)"
| "needs_admin call = False"

definition refuses :: "('s, 'a) act \<Rightarrow> bool" where
  "refuses m \<longleftrightarrow> (\<forall>s. \<exists>c msg. m s = (Inl (StatusError c msg), s))"

lemma refuses_pure: "r = Inl (StatusError c msg) \<Longrightarrow> refuses (pureA r)"
  by (simp add: refuses_def pureA_def)

lemma refuses_then:
  assumes "refuses m"
  shows "refuses (thenA m n)"
  unfolding refuses_def
proof
  fix s
  from assms obtain c msg where "m s = (Inl (StatusError c msg), s)" unfolding refuses_def by blast
  then show "\<exists>c msg. thenA m n s = (Inl (StatusError c msg), s)" by (simp add: thenA_def bindA_def)
qed

definition status_only :: "'a result \<Rightarrow> bool" where
  "status_only r \<longleftrightarrow> (\<forall>e. r = Inl e \<longrightarrow> (\<exists>c msg. e = StatusError c msg \<and> c \<noteq> Internal))"

lemma status_only_checks:
  "status_only (requireWriter env who)" "status_only (requireAdmin who opn)" "status_only (validateNamespaceID env nid)"
  "status_only (validateID v field n)" "status_only (validate_parent env parent)" "status_only (validateSources sources l)"
  "status_only (page_cursor env token)"
proof -
  have name: "status_only (validateFilename f n)" for f n by (simp add: status_only_def validateFilename_def)
  have "status_only (check_sources l sources acc)" for acc
  proof (induction l sources acc rule: check_sources.induct)
    case (2 l f src rest acc)
    with name [of f "MaxFilenameLength l"] show ?case by (auto simp: status_only_def bindE_def Let_def split: sum.splits)
  qed (simp add: status_only_def)
  then show "status_only (validateSources sources l)" by (auto simp: status_only_def validateSources_def bindE_def split: sum.splits)
qed (auto simp: status_only_def requireWriter_def requireAdmin_def validateNamespaceID_def validateID_def validate_parent_def
    page_cursor_def split: option.splits sum.splits)

lemma refuses_then_pure: "status_only r \<Longrightarrow> refuses n \<Longrightarrow> refuses (thenA (pureA r) n)"
  by (cases r) (auto simp: refuses_def status_only_def thenA_def bindA_def pureA_def)

lemma refuses_then_skip: "refuses n \<Longrightarrow> refuses (thenA (retA u) n)"
  by (simp add: refuses_def thenA_def bindA_def retA_def)

lemma refuses_not_admin: "\<not> Admin who \<Longrightarrow> refuses (pureA (requireAdmin who opn))"
  by (simp add: requireAdmin_def refuses_pure)

lemma admin_needed:
  assumes "needs_admin call" and "\<not> Admin (IdentityFromContext ctx)"
  shows "refuses (dispatch env call ctx)"
proof (cases call)
  case (RpcPublish req)
  let ?who = "IdentityFromContext ctx"
  show ?thesis
  proof (cases "pq_NamespaceID req = BuiltinsNamespace")
    case True
    then show ?thesis using assms(2)
      by (simp only: RpcPublish dispatch.simps srv_Publish_def Let_def if_True simp_thms)
        (intro refuses_then refuses_then_pure status_only_checks refuses_not_admin)
  next
    case False
    with assms(1) have force: "pq_Force req" by (simp add: RpcPublish)
    from False assms(2) show ?thesis
      unfolding RpcPublish dispatch.simps srv_Publish_def Let_def if_P [OF force] if_not_P [OF False]
      by (intro refuses_then [of "thenA (pureA (requireWriter env ?who)) _"] refuses_then_pure status_only_checks
          refuses_then_skip refuses_then refuses_not_admin)
  qed
next
  case (RpcRollback nid sid v force)
  with assms(1) have force by simp
  then show ?thesis using assms(2)
    by (cases "v = 0") (simp_all only: RpcRollback dispatch.simps srv_Rollback_def Let_def if_True if_False simp_thms,
      (intro refuses_then_pure status_only_checks refuses_then_skip refuses_then refuses_not_admin; simp add: refuses_def failA_def)+)
next
  case (RpcCreateNamespace nid parent meta)
  with assms(1) have "nid = BuiltinsNamespace" by simp
  then show ?thesis using assms(2)
    by (simp only: RpcCreateNamespace dispatch.simps srv_CreateNamespace_def Let_def if_True simp_thms)
      (intro refuses_then_pure status_only_checks refuses_then refuses_not_admin)
qed (use assms in auto)

end
