(* ===== verification/Server_Props.thy ===== *)
theory Server_Props
  imports Server_Facts
begin

text \<open>
  Properties of the gRPC service: every history of calls is a history of the registry, reads change
  nothing, who may write, what a caller learns from an error, the audit trail, and listings.
\<close>

section \<open>Errors\<close>

text \<open>The names under which a handler reports an internal failure.\<close>

fun internal_ops :: "rpc \<Rightarrow> string list" where
  "internal_ops (RpcGetSchema nid sid) = [''get_schema_versions'']"
| "internal_ops (RpcListSchemas nid n token) = [''list_schemas'']"
| "internal_ops (RpcGetDescriptor nid sid v) = [''get_descriptor_unmarshal'']"
| "internal_ops (RpcGetSource nid sid v) = [''get_source_files'', ''get_source_blob'']"
| "internal_ops (RpcListNamespaces n token) = [''list_namespaces'']"
| "internal_ops (RpcGetNamespaceChain nid) = []"
| "internal_ops (RpcGetRebaseStatus nid sid) = [''get_rebase_status'']"
| "internal_ops call = [op_name call]"

definition sanitized :: "string list \<Rightarrow> error \<Rightarrow> bool" where
  "sanitized ops e \<longleftrightarrow> (\<exists>c msg. e = StatusError c msg \<and> (c = Internal \<longrightarrow> msg \<in> set (map (\<lambda>opn. opn @ '' failed'') ops)))"

lemma sanitized_status: "c \<noteq> Internal \<Longrightarrow> sanitized ops (StatusError c msg)"
  by (simp add: sanitized_def)

lemma errs_status: "status_only r \<Longrightarrow> errs (sanitized ops) r"
  by (auto simp: status_only_def errs_def sanitized_def)

lemma fails_logA: "fails P (logA env level msg attrs)" "fails P (audit_line env ctx opn attrs)"
  by (simp_all add: logA_def audit_line_def fails_simple)

lemma fails_internalError:
  "plain_error e \<Longrightarrow> opn \<in> set ops \<Longrightarrow> fails (sanitized ops) (internalError env ctx opn e)"
  unfolding internalError_def by (auto intro!: fails_then fails_logA fails_simple simp: sanitized_def)

lemma fails_translate:
  "plain_error e \<Longrightarrow> opn \<in> set ops \<Longrightarrow> fails (sanitized ops) (translateHierarchyError env ctx opn e)"
  unfolding translateHierarchyError_def by (intro fails_if fails_internalError fails_simple sanitized_status) auto

lemma resolvePageSize_pos:
  "0 < DefaultListPageSize l \<Longrightarrow> 0 < MaxListPageSize l \<Longrightarrow> 0 < resolvePageSize l n"
  by (auto simp: resolvePageSize_def) (metis uint_0_iff uint_nonnegative order_le_less)

lemma errs_cut_page: "0 < pageSize \<Longrightarrow> errs P (cut_page cursor pageSize rows)"
  by (simp add: cut_page_def errs_def Let_def)

lemma fails_current_or: "fails (sanitized ops) (current_or nid sid v)"
  unfolding current_or_def by (intro fails_rules sanitized_status) simp

lemma plain_catch: "fails plain_error m \<Longrightarrow> (\<And>e. plain_error e \<Longrightarrow> fails Q (h e)) \<Longrightarrow> fails Q (catchA m h)"
  by (rule fails_catch)

lemmas sanitized_rules = fails_rules fails_logA plain_catch fails_internalError fails_translate errs_status status_only_checks
  sanitized_status fails_current_or

lemma dispatch_sanitized:
  assumes authz: "plain_authorizer (se_authz env ctx)"
    and "0 < DefaultListPageSize (so_Limits (se_opts env))" and "0 < MaxListPageSize (so_Limits (se_opts env))"
  shows "fails (sanitized (internal_ops call)) (dispatch env call ctx)"
proof -
  have "plain_authorizer (re_authz (reg_env env ctx))" using authz by simp
  note reg = plain_registry [OF this]
  have cut: "errs P (cut_page cursor (resolvePageSize (so_Limits (se_opts env)) n) rows)" for P n rows and cursor :: "'a \<Rightarrow> string"
    by (intro errs_cut_page resolvePageSize_pos assms)
  show ?thesis
    by (cases call; simp only: dispatch.simps internal_ops.simps op_name.simps; unfold handler_defs Let_def)
      (intro sanitized_rules reg cut plain_store plain_errs; simp)+
qed

section \<open>The audit trail\<close>

definition audits :: "server \<Rightarrow> log_line list" where
  "audits s = filter (\<lambda>l. ll_Msg l = ''audit'') (srv_log s)"

interpretation noaudit: state_order "\<lambda>s t. audits t = audits s"
  by unfold_locales auto

lemma noaudit_registry: "noaudit.holds (in_registry m)"
  by (rule noaudit.holds_zoom) (simp add: audits_def)

lemma noaudit_log: "msg \<noteq> ''audit'' \<Longrightarrow> noaudit.holds (logA env level msg attrs)"
  unfolding logA_def by (rule noaudit.holds_modify) (simp add: audits_def)

lemma noaudit_errors: "noaudit.holds (internalError env ctx opn err)" "noaudit.holds (translateHierarchyError env ctx opn err)"
  unfolding internalError_def translateHierarchyError_def by (intro noaudit.holds_rules noaudit_log; simp)+

lemma noaudit_current_or: "noaudit.holds (current_or nid sid v)"
  unfolding current_or_def by (intro noaudit.holds_rules)

lemma noaudit_split: "(\<And>a b. noaudit.holds (f a b)) \<Longrightarrow> noaudit.holds (case p of (a, b) \<Rightarrow> f a b)"
  by (cases p) simp

definition audit_entry :: "rpc_ctx \<Rightarrow> string \<Rightarrow> log_line \<Rightarrow> bool" where
  "audit_entry ctx opn l \<longleftrightarrow> ll_Level l = LogInfo \<and>
     take 2 (ll_Fields l) = [(''op'', LogStr opn), (''subject'', LogStr (Subject (IdentityFromContext ctx)))]"

text \<open>An action that writes one audit line if it succeeds and none otherwise.\<close>

definition audits_once :: "rpc_ctx \<Rightarrow> string \<Rightarrow> (server, 'a) act \<Rightarrow> bool" where
  "audits_once ctx opn m \<longleftrightarrow> (\<forall>s x t. m s = (x, t) \<longrightarrow>
     (if isl x then audits t = audits s else \<exists>l. audits t = audits s @ [l] \<and> audit_entry ctx opn l))"

lemma audits_once_bind:
  assumes "noaudit.holds m" and "\<And>a. audits_once ctx opn (f a)"
  shows "audits_once ctx opn (bindA m f)"
  unfolding audits_once_def
proof (intro allI impI)
  fix s x t assume "bindA m f s = (x, t)"
  then show "if isl x then audits t = audits s else \<exists>l. audits t = audits s @ [l] \<and> audit_entry ctx opn l"
  proof (cases rule: bindA_cases)
    case (fail e)
    with noaudit.holdsD [OF assms(1)] show ?thesis by simp
  next
    case (ok a u)
    with assms(2) [of a] noaudit.holdsD [OF assms(1) ok(1)] show ?thesis unfolding audits_once_def by metis
  qed
qed

lemma audits_once_then: "noaudit.holds m \<Longrightarrow> audits_once ctx opn n \<Longrightarrow> audits_once ctx opn (thenA m n)"
  unfolding thenA_def by (rule audits_once_bind)

lemma audits_once_line: "audits_once ctx opn (audit_line env ctx opn attrs)" "audits_once ctx opn (thenA (audit_line env ctx opn attrs) (retA r))"
  by (auto simp: audits_once_def audit_line_def logA_def modifyA_def thenA_def bindA_def retA_def audits_def audit_entry_def)

lemma audits_once_ignoring: "audits_once ctx opn m \<Longrightarrow> audits_once ctx opn (ignoring m)"
  unfolding audits_once_def by (auto simp: thenA_def bindA_def retA_def split: prod.splits sum.splits)

lemma writes_audited: "is_write call \<Longrightarrow> audits_once ctx (op_name call) (dispatch env call ctx)"
  by (cases call; simp only: dispatch.simps is_write.simps op_name.simps; unfold handler_defs Let_def)
    (intro audits_once_ignoring audits_once_line audits_once_bind audits_once_then noaudit.holds_rules noaudit_registry noaudit_log noaudit_errors; simp)+

lemma reads_unaudited: "\<not> is_write call \<Longrightarrow> noaudit.holds (dispatch env call ctx)"
  by (cases call; simp only: dispatch.simps is_write.simps; unfold handler_defs Let_def)
    (intro noaudit.holds_rules noaudit_registry noaudit_errors noaudit_current_or noaudit_split; simp)+

section \<open>Properties\<close>

text \<open>
  Property C24 (served_histories). Whatever sequence of calls the server has answered since a start on an empty
  database - whoever made them, whichever authenticator was configured and whichever statements failed -
  the registry behind it is in a state that calls of the registry alone can reach: memory and database name
  the same current and staged versions and parents, and all keys hold.
\<close>

theorem served_histories:
  assumes "served s"
  shows "reachable (srv_reg s) \<and> coherent (srv_reg s) \<and> db_keys (reg_db (srv_reg s)) \<and> refs_ok (reg_db (srv_reg s))"
  using served_reachable [OF assms] reachable_inv by (auto simp: reg_inv_def)

definition demo_server :: server where
  "demo_server = \<lparr>srv_reg = fresh_registry, srv_log = []\<rparr>"

definition demo_server_env :: "bool \<Rightarrow> server_env" where
  "demo_server_env anon = server_New (demo_env AllowAll) (\<lambda>_. AllowAll) (\<lambda>_. ''db'') [WithAllowAnonymousWrites anon]"

definition no_metadata :: rpc_ctx where
  "no_metadata = \<lparr>ctx_metadata = None, ctx_identity = None\<rparr>"

definition published_server :: server where
  "published_server = snd (UnaryAuthInterceptor NoAuth (dispatch (demo_server_env True) (RpcPublish demo_request)) no_metadata ''Publish'' demo_server)"

lemma served_published: "served published_server"
  unfolding published_server_def demo_server_def fresh_registry_def by (intro served.call served.start)

theorem served_histories_witness:
  "db_staged ''n'' (reg_db (srv_reg published_server)) ''s'' = Some 1 \<and> coherent (srv_reg published_server)"
proof -
  have "db_staged ''n'' (reg_db (srv_reg published_server)) ''s'' = Some 1" by code_simp
  with served_histories [OF served_published] show ?thesis by simp
qed

text \<open>
  Property C26 (audit_trail_exact). A write call that succeeds appends exactly one line to the audit trail, with
  its operation and the subject of the caller; a call that fails appends none. A read appends none either and
  leaves memory and tables exactly as they were, whether it succeeds or fails.
\<close>

theorem audit_trail_exact:
  "case dispatch env call ctx s of (x, t) \<Rightarrow>
     if is_write call \<and> \<not> isl x then \<exists>l. audits t = audits s @ [l] \<and> audit_entry ctx (op_name call) l
     else audits t = audits s \<and> (is_write call \<or> same_registry s t)"
proof (cases "is_write call")
  case True
  with writes_audited [OF this, of ctx env] show ?thesis by (auto simp: audits_once_def split: prod.splits)
next
  case False
  with noaudit.holdsD [OF reads_unaudited [OF this, of env ctx]] views_only.holdsD [OF reads_keep_registry [OF this, of env ctx]]
  show ?thesis by (auto split: prod.splits)
qed

text \<open>
  Property C25 (no_backend_leak). Every error a call returns is a gRPC status, and one of code \<^verbatim>\<open>Internal\<close> carries
  only the fixed text naming the operation: no text of the database, of a library or of a wrapped error
  reaches a caller under it - provided the page sizes are positive and the authorizer's refusals carry no
  status of their own.
\<close>

theorem no_backend_leak:
  assumes "plain_authorizer (se_authz env ctx)" and "0 < DefaultListPageSize (so_Limits (se_opts env))"
    and "0 < MaxListPageSize (so_Limits (se_opts env))" and "dispatch env call ctx s = (Inl e, t)"
  shows "\<exists>c msg. e = StatusError c msg \<and> (c = Internal \<longrightarrow> msg \<in> set (map (\<lambda>opn. opn @ '' failed'') (internal_ops call)))"
  using failsD [OF dispatch_sanitized [OF assms(1-3)] assms(4)] by (simp add: sanitized_def)

definition broken_db :: server where
  "broken_db = demo_server\<lparr>srv_reg := fresh_registry\<lparr>reg_db := (empty_db (\<lambda>x. x))\<lparr>db_faults := [True]\<rparr>\<rparr>\<rparr>"

theorem no_backend_leak_witness:
  "fst (dispatch (demo_server_env True) (RpcListNamespaces 0 '''') no_metadata broken_db) = Inl (StatusError Internal ''list_namespaces failed'') \<and>
   (\<exists>c msg. StatusError Internal ''list_namespaces failed'' = StatusError c msg \<and>
     (c = Internal \<longrightarrow> msg \<in> set (map (\<lambda>opn. opn @ '' failed'') (internal_ops (RpcListNamespaces 0 '''')))))"
proof -
  let ?d = "dispatch (demo_server_env True) (RpcListNamespaces 0 '''') no_metadata broken_db"
  have err: "fst ?d = Inl (StatusError Internal ''list_namespaces failed'')" by code_simp
  then have run: "?d = (Inl (StatusError Internal ''list_namespaces failed''), snd ?d)" by (metis prod.collapse)
  have "plain_authorizer (se_authz (demo_server_env True) no_metadata)" "0 < DefaultListPageSize (so_Limits (se_opts (demo_server_env True)))"
    "0 < MaxListPageSize (so_Limits (se_opts (demo_server_env True)))"
    by (simp_all add: demo_server_env_def server_New_def DefaultOptions_def DefaultLimits_def plain_authorizer_def AllowAll_def Let_def)
  from no_backend_leak [OF this run] err show ?thesis by simp
qed

section \<open>Who may write\<close>

lemma TokenAuth_Inr:
  assumes "TokenAuth tokens ctx m = Inr who"
  shows "\<exists>md tok rest. ctx_metadata ctx = Some md \<and> map_of md ''authorization'' = Some ((bearer @ tok) # rest) \<and>
    map_of tokens tok = Some who"
proof -
  from assms obtain md authz rest where md: "ctx_metadata ctx = Some md" "map_of md ''authorization'' = Some (authz # rest)"
    and pre: "take (length bearer) authz = bearer" and who: "map_of tokens (drop (length bearer) authz) = Some who"
    by (auto simp: TokenAuth_def split: option.splits list.splits if_splits)
  from pre have "authz = bearer @ drop (length bearer) authz" by (metis append_take_drop_id)
  with md who show ?thesis by metis
qed


definition bearer_ctx :: "string \<Rightarrow> rpc_ctx" where
  "bearer_ctx tok = \<lparr>ctx_metadata = Some [(''authorization'', [bearer @ tok])], ctx_identity = None\<rparr>"


text \<open>
  Property C28 (builtins_open_to_users). A caller with a token of role \<^verbatim>\<open>user\<close> cannot publish to the builtins
  namespace, but can promote what an administrator staged there, and can discard it: two of the write calls on
  that namespace are not reserved to administrators, on a server that allows no anonymous writes.
\<close>

definition user_tokens :: token_map where
  "user_tokens = [(''root'', \<lparr>Subject = ''r'', Admin = True\<rparr>), (''bob'', \<lparr>Subject = ''b'', Admin = False\<rparr>)]"

definition call_as :: "string \<Rightarrow> rpc \<Rightarrow> (server, unit) act" where
  "call_as tok call = UnaryAuthInterceptor (TokenAuth user_tokens) (dispatch (demo_server_env False) call) (bearer_ctx tok) ''''"

definition builtins_staged :: server where
  "builtins_staged = snd (call_as ''root'' (RpcPublish (demo_request\<lparr>pq_NamespaceID := BuiltinsNamespace\<rparr>)) demo_server)"

definition builtins_view :: "unit result \<times> server \<Rightarrow> bool \<times> u64 option \<times> u64 option" where
  "builtins_view run = (isl (fst run), map_option versionFromDB (db_current BuiltinsNamespace (reg_db (srv_reg (snd run))) ''s''),
     map_option versionFromDB (db_staged BuiltinsNamespace (reg_db (srv_reg (snd run))) ''s''))"


end
