(* ===== verification/Resolve.thy ===== *)
theory Resolve
  imports Registry_Props
begin

text \<open>
  \<^verbatim>\<open>resolve/resolve.go\<close>: lookups over the current snapshots of a namespace and of its ancestors. A resolver is
  the namespace it reads and has no state of its own: every call reads the memory as it is then. The lookup
  by descriptor name of protobuf-go's file registry is a parameter.
\<close>

section \<open>Descriptors of every kind\<close>

datatype descriptor =
    EnumD enum_desc
  | EnumValueD enum_value_desc
  | MessageD message_desc
  | ExtensionD ext_desc
  | ServiceD service_desc
  | FieldD field_desc
  | OneofD oneof_desc
  | MethodD method_desc

fun desc_full_name :: "descriptor \<Rightarrow> string" where
  "desc_full_name (EnumD d) = en_full_name d"
| "desc_full_name (EnumValueD d) = ev_full_name d"
| "desc_full_name (MessageD d) = msg_full_name d"
| "desc_full_name (ExtensionD d) = ext_full_name d"
| "desc_full_name (ServiceD d) = svc_full_name d"
| "desc_full_name (FieldD d) = fld_full_name d"
| "desc_full_name (OneofD d) = oo_full_name d"
| "desc_full_name (MethodD d) = mtd_full_name d"

text \<open>\<^verbatim>\<open>protoregistry.NotFound\<close>.\<close>

definition NotFound :: error where
  "NotFound = LibError ''proto: not found''"

section \<open>The walk over the chain\<close>

definition currents :: "memory \<Rightarrow> string \<Rightarrow> (string \<times> snapshot) list" where
  "currents mem nid = (case Get mem nid of None \<Rightarrow> [] | Some ns \<Rightarrow> AllCurrent ns)"

text \<open>The two nested loops of every lookup: namespaces of the chain, current snapshots of each.\<close>

definition found :: "'a result \<Rightarrow> 'a option" where
  "found r = (case r of Inl _ \<Rightarrow> None | Inr a \<Rightarrow> Some a)"

definition in_tier :: "(snapshot \<Rightarrow> 'a result) \<Rightarrow> memory \<Rightarrow> string \<Rightarrow> ('a \<times> string) option" where
  "in_tier look mem nid = map_option (\<lambda>a. (a, nid)) (first_some (\<lambda>(_, snap). found (look snap)) (currents mem nid))"

definition walk_chain :: "(snapshot \<Rightarrow> 'a result) \<Rightarrow> memory \<Rightarrow> string \<Rightarrow> ('a \<times> string) result" where
  "walk_chain look mem nid =
     (case first_some (in_tier look mem) (Chain mem nid) of None \<Rightarrow> Inl NotFound | Some r \<Rightarrow> Inr r)"

text \<open>A lookup without its origin.\<close>

definition dropOrigin :: "('a \<times> string) result \<Rightarrow> 'a result" where
  "dropOrigin r = bindE r (\<lambda>(a, _). Inr a)"

section \<open>Resolver\<close>

definition res_FindFileByPathWithOrigin :: "lib \<Rightarrow> memory \<Rightarrow> string \<Rightarrow> string \<Rightarrow> (file_desc \<times> string) result" where
  "res_FindFileByPathWithOrigin L mem nid path =
     walk_chain (\<lambda>snap. case lib_FindFileByPath L (snap_files snap) path of Some fd \<Rightarrow> Inr fd | None \<Rightarrow> Inl NotFound) mem nid"

definition res_FindFileByPath :: "lib \<Rightarrow> memory \<Rightarrow> string \<Rightarrow> string \<Rightarrow> file_desc result" where
  "res_FindFileByPath L mem nid path = dropOrigin (res_FindFileByPathWithOrigin L mem nid path)"

definition res_FindDescriptorByNameWithOrigin ::
  "(file_desc list \<Rightarrow> string \<Rightarrow> string + descriptor) \<Rightarrow> memory \<Rightarrow> string \<Rightarrow> string \<Rightarrow> (descriptor \<times> string) result" where
  "res_FindDescriptorByNameWithOrigin find_descriptor mem nid name =
     walk_chain (\<lambda>snap. libE (find_descriptor (snap_files snap) name)) mem nid"

definition res_FindDescriptorByName ::
  "(file_desc list \<Rightarrow> string \<Rightarrow> string + descriptor) \<Rightarrow> memory \<Rightarrow> string \<Rightarrow> string \<Rightarrow> descriptor result" where
  "res_FindDescriptorByName find_descriptor mem nid name =
     dropOrigin (res_FindDescriptorByNameWithOrigin find_descriptor mem nid name)"

definition res_FindMessageByNameWithOrigin :: "lib \<Rightarrow> memory \<Rightarrow> string \<Rightarrow> string \<Rightarrow> (message_desc \<times> string) result" where
  "res_FindMessageByNameWithOrigin L mem nid name =
     walk_chain (\<lambda>snap. libE (lib_FindMessageByName L (snap_types snap) name)) mem nid"

definition res_FindMessageByName :: "lib \<Rightarrow> memory \<Rightarrow> string \<Rightarrow> string \<Rightarrow> message_desc result" where
  "res_FindMessageByName L mem nid name = dropOrigin (res_FindMessageByNameWithOrigin L mem nid name)"

definition res_FindMessageByURLWithOrigin :: "lib \<Rightarrow> memory \<Rightarrow> string \<Rightarrow> string \<Rightarrow> (message_desc \<times> string) result" where
  "res_FindMessageByURLWithOrigin L mem nid url =
     walk_chain (\<lambda>snap. libE (lib_FindMessageByURL L (snap_types snap) url)) mem nid"

definition res_FindMessageByURL :: "lib \<Rightarrow> memory \<Rightarrow> string \<Rightarrow> string \<Rightarrow> message_desc result" where
  "res_FindMessageByURL L mem nid url = dropOrigin (res_FindMessageByURLWithOrigin L mem nid url)"

definition res_FindExtensionByNameWithOrigin :: "lib \<Rightarrow> memory \<Rightarrow> string \<Rightarrow> string \<Rightarrow> (ext_desc \<times> string) result" where
  "res_FindExtensionByNameWithOrigin L mem nid name =
     walk_chain (\<lambda>snap. libE (lib_FindExtensionByName L (snap_types snap) name)) mem nid"

definition res_FindExtensionByName :: "lib \<Rightarrow> memory \<Rightarrow> string \<Rightarrow> string \<Rightarrow> ext_desc result" where
  "res_FindExtensionByName L mem nid name = dropOrigin (res_FindExtensionByNameWithOrigin L mem nid name)"

definition res_FindExtensionByNumberWithOrigin :: "lib \<Rightarrow> memory \<Rightarrow> string \<Rightarrow> string \<Rightarrow> int \<Rightarrow> (ext_desc \<times> string) result" where
  "res_FindExtensionByNumberWithOrigin L mem nid message number =
     walk_chain (\<lambda>snap. libE (lib_FindExtensionByNumber L (snap_types snap) message number)) mem nid"

definition res_FindExtensionByNumber :: "lib \<Rightarrow> memory \<Rightarrow> string \<Rightarrow> string \<Rightarrow> int \<Rightarrow> ext_desc result" where
  "res_FindExtensionByNumber L mem nid message number = dropOrigin (res_FindExtensionByNumberWithOrigin L mem nid message number)"

text \<open>\<^verbatim>\<open>NewMessage\<close> returns an empty dynamic message, identified by its descriptor.\<close>

definition res_NewMessage :: "lib \<Rightarrow> memory \<Rightarrow> string \<Rightarrow> string \<Rightarrow> message_desc result" where
  "res_NewMessage L mem nid name =
     wrapE (''message '' @ name @ '' not found in namespace '' @ nid @ '' (or any ancestor): '') (res_FindMessageByName L mem nid name)"

section \<open>SchemaResolver\<close>

definition sr_FindMessageByName :: "lib \<Rightarrow> memory \<Rightarrow> string \<Rightarrow> string \<Rightarrow> string \<Rightarrow> message_desc result" where
  "sr_FindMessageByName L mem nid schemaID name =
     (case (case Get mem nid of None \<Rightarrow> None | Some ns \<Rightarrow> Current schemaID ns) of
        None \<Rightarrow> Inl (Errorf (''schema '' @ schemaID @ '' has no current version''))
      | Some snap \<Rightarrow> libE (lib_FindMessageByName L (snap_types snap) name))"

definition sr_NewMessage :: "lib \<Rightarrow> memory \<Rightarrow> string \<Rightarrow> string \<Rightarrow> string \<Rightarrow> message_desc result" where
  "sr_NewMessage L mem nid schemaID name =
     wrapE (''message '' @ name @ '' not found in schema '' @ schemaID @ '': '') (sr_FindMessageByName L mem nid schemaID name)"

section \<open>What a lookup returns\<close>

lemma found_iff [simp]: "found r = Some a \<longleftrightarrow> r = Inr a" "found r = None \<longleftrightarrow> isl r"
  by (auto simp: found_def split: sum.splits)

lemma found_libE [simp]: "isl (libE m) \<longleftrightarrow> isl m"
  by (auto simp: libE_def split: sum.splits)

definition tier_misses :: "(snapshot \<Rightarrow> 'a result) \<Rightarrow> memory \<Rightarrow> string \<Rightarrow> bool" where
  "tier_misses look mem n \<longleftrightarrow> list_all (\<lambda>(_, snap). isl (look snap)) (currents mem n)"

definition tier_has :: "(snapshot \<Rightarrow> 'a result) \<Rightarrow> memory \<Rightarrow> string \<Rightarrow> 'a \<Rightarrow> bool" where
  "tier_has look mem n a \<longleftrightarrow> list_ex (\<lambda>(_, snap). look snap = Inr a) (currents mem n)"

lemma in_tier_None: "in_tier look mem n = None \<longleftrightarrow> tier_misses look mem n"
  by (auto simp: in_tier_def tier_misses_def first_some_None_iff list_all_iff)

lemma in_tier_Some: "in_tier look mem n = Some (a, m) \<Longrightarrow> m = n \<and> tier_has look mem n a"
  by (fastforce simp: in_tier_def tier_has_def first_some_Some_iff list_ex_iff)

text \<open>A lookup answers from the nearest namespace of the chain that has an answer, and fails only when none has one.\<close>

lemma walk_chain_spec:
  "walk_chain look mem nid = Inr (a, n) \<Longrightarrow>
     \<exists>nearer farther. Chain mem nid = nearer @ n # farther \<and> list_all (tier_misses look mem) nearer \<and> tier_has look mem n a"
  "walk_chain look mem nid = Inl e \<longleftrightarrow> e = NotFound \<and> list_all (tier_misses look mem) (Chain mem nid)"
proof -
  assume "walk_chain look mem nid = Inr (a, n)"
  then have "first_some (in_tier look mem) (Chain mem nid) = Some (a, n)" by (simp add: walk_chain_def split: option.splits)
  then obtain nearer m farther where c: "Chain mem nid = nearer @ m # farther" "in_tier look mem m = Some (a, n)"
    "\<forall>z \<in> set nearer. in_tier look mem z = None" by (auto simp: first_some_Some_iff)
  with in_tier_Some [OF c(2)] show "\<exists>nearer farther. Chain mem nid = nearer @ n # farther \<and> list_all (tier_misses look mem) nearer \<and>
      tier_has look mem n a" by (auto simp: in_tier_None list_all_iff)
next
  show "walk_chain look mem nid = Inl e \<longleftrightarrow> e = NotFound \<and> list_all (tier_misses look mem) (Chain mem nid)"
  proof -
    have "first_some (in_tier look mem) (Chain mem nid) = None \<longleftrightarrow> list_all (tier_misses look mem) (Chain mem nid)"
      by (simp add: first_some_None_iff in_tier_None list_all_iff)
    then show ?thesis by (auto simp: walk_chain_def split: option.splits)
  qed
qed

lemma walk_chain_here:
  assumes "(sid, snap) \<in> set (currents mem nid)" and "look snap = Inr a"
  shows "\<exists>b. walk_chain look mem nid = Inr (b, nid) \<and> tier_has look mem nid b"
proof -
  from assms have "\<not> tier_misses look mem nid" by (force simp: tier_misses_def list_all_iff)
  then obtain r where r: "in_tier look mem nid = Some r" by (metis in_tier_None not_None_eq)
  moreover obtain b m where "r = (b, m)" by (cases r)
  ultimately have "in_tier look mem nid = Some (b, nid)" "tier_has look mem nid b" using in_tier_Some [of look mem nid b m] by auto
  moreover obtain c where "Chain mem nid = nid # c" using Chain_spec(4,5) [of mem nid] by (metis list.collapse)
  ultimately show ?thesis by (simp add: walk_chain_def)
qed

lemma Current_in_currents:
  "reg_Current mem nid sid = Some snap \<Longrightarrow> (sid, snap) \<in> set (currents mem nid)"
  by (force simp: reg_Current_def Current_def getSlot_def currents_def AllCurrent_def dest!: map_of_SomeD split: option.splits)

section \<open>Properties\<close>

abbreviation message_in :: "lib \<Rightarrow> string \<Rightarrow> snapshot \<Rightarrow> message_desc result" where
  "message_in L name snap \<equiv> libE (lib_FindMessageByName L (snap_types snap) name)"


text \<open>
  Property C33 (promoted_types_resolve). As soon as a promotion of a namespace has succeeded, every message of every
  snapshot that was staged there can be found without a new resolver: the lookup over the chain answers from the
  namespace itself, and the lookup in the schema returns the type of the promoted snapshot.
\<close>

theorem promoted_types_resolve:
  assumes "Promote env nid r = (Inr ps, r')" and "reg_Staged (reg_mem r) nid sid = Some snap"
    and "lib_FindMessageByName L (snap_types snap) name = Inr m"
  shows "(\<exists>m'. res_FindMessageByNameWithOrigin L (reg_mem r') nid name = Inr (m', nid) \<and>
      tier_has (message_in L name) (reg_mem r') nid m') \<and>
    sr_FindMessageByName L (reg_mem r') nid sid name = Inr m"
proof -
  from Promote_result [OF assms(1)] obtain ns where ns: "Get (reg_mem r) nid = Some ns"
    and mem: "reg_mem r' = on_namespace nid (\<lambda>ns. snd (ns_Promote ns)) (reg_mem r)" by auto
  with assms(2) have cur: "reg_Current (reg_mem r') nid sid = Some snap"
    by (simp add: reg_Current_def reg_Staged_def memory_area.current_promote)
  from walk_chain_here [OF Current_in_currents [OF cur], of "message_in L name" m] assms(3)
  have "\<exists>m'. res_FindMessageByNameWithOrigin L (reg_mem r') nid name = Inr (m', nid) \<and>
      tier_has (message_in L name) (reg_mem r') nid m'" by (simp add: res_FindMessageByNameWithOrigin_def)
  moreover from cur assms(3) have "sr_FindMessageByName L (reg_mem r') nid sid name = Inr m"
    by (simp add: sr_FindMessageByName_def reg_Current_def split: option.splits)
  ultimately show ?thesis by blast
qed

definition typed_snapshot :: snapshot where
  "typed_snapshot = (bare_snapshot 1)\<lparr>snap_types := [MessageType (Message ''M'' ''p.M'' [] [] [] [] [])]\<rparr>"

definition typed_registry :: registry where
  "typed_registry = published\<lparr>reg_mem := on_namespace ''n'' (SetStaged ''s'' typed_snapshot) (reg_mem published)\<rparr>"

theorem promoted_types_resolve_witness:
  "isl (res_FindMessageByName list_lib (reg_mem typed_registry) ''n'' ''p.M'') \<and>
   sr_FindMessageByName list_lib (reg_mem (snd (Promote (demo_env AllowAll) ''n'' typed_registry))) ''n'' ''s'' ''p.M''
     = Inr (Message ''M'' ''p.M'' [] [] [] [] [])"
proof -
  let ?p = "Promote (demo_env AllowAll) ''n'' typed_registry"
  have "\<not> isl (fst ?p)" by code_simp
  then obtain ps where "fst ?p = Inr ps" by (cases "fst ?p") auto
  then have run: "?p = (Inr ps, snd ?p)" by (metis prod.collapse)
  have staged: "reg_Staged (reg_mem typed_registry) ''n'' ''s'' = Some typed_snapshot" by code_simp
  have "lib_FindMessageByName list_lib (snap_types typed_snapshot) ''p.M'' = Inr (Message ''M'' ''p.M'' [] [] [] [] [])" by code_simp
  from promoted_types_resolve [OF run staged this]
  have "sr_FindMessageByName list_lib (reg_mem (snd ?p)) ''n'' ''s'' ''p.M'' = Inr (Message ''M'' ''p.M'' [] [] [] [] [])" by blast
  moreover have "isl (res_FindMessageByName list_lib (reg_mem typed_registry) ''n'' ''p.M'')" by code_simp
  ultimately show ?thesis by blast
qed

end
