(* ===== verification/Ns_Files.thy ===== *)
theory Ns_Files
  imports Resolve "HOL-Library.AList"
begin

text \<open>
  \<^verbatim>\<open>nsregistry/namespace.go\<close> and \<^verbatim>\<open>nsregistry/helpers.go\<close>, the file half: the registry of files and their
  top-level descriptors with a fallback to a parent. A registry is seen as the list of its own state and the
  states of its parents at the time of the call, nearest first; the last one may be the read-only wrapper of
  the global registry, whose answers are a parameter. Go's maps are association lists, whose order is the
  order of iteration, and a loop over a map with a callback is the list of what the callback is given.
\<close>

section \<open>Names\<close>

text \<open>\<^verbatim>\<open>FullName.Parent\<close>: everything before the last dot, nothing if there is none.\<close>

definition name_Parent :: "string \<Rightarrow> string" where
  "name_Parent s = rev (drop 1 (dropWhile (\<lambda>c. c \<noteq> CHR ''.'') (rev s)))"

lemma name_Parent_shorter: "s \<noteq> '''' \<Longrightarrow> length (name_Parent s) < length s"
proof -
  assume "s \<noteq> ''''"
  have "length (drop 1 (dropWhile (\<lambda>c. c \<noteq> CHR ''.'') (rev s))) \<le> length (dropWhile (\<lambda>c. c \<noteq> CHR ''.'') (rev s)) - 1" by simp
  moreover have "length (dropWhile (\<lambda>c. c \<noteq> CHR ''.'') (rev s)) \<le> length s" using length_dropWhile_le [of _ "rev s"] by simp
  ultimately show ?thesis using \<open>s \<noteq> ''''\<close> unfolding name_Parent_def length_rev by (cases s) auto
qed

text \<open>The names a loop from a package up to the root passes.\<close>

function package_chain :: "string \<Rightarrow> string list" where
  "package_chain name = (if name = '''' then [] else name # package_chain (name_Parent name))"
  by pat_completeness auto
termination by (relation "measure length") (simp_all add: name_Parent_shorter)

declare package_chain.simps [simp del]

definition Pop :: "string \<Rightarrow> string \<times> string" where
  "Pop s = (if CHR ''.'' \<in> set s then (takeWhile (\<lambda>c. c \<noteq> CHR ''.'') s, drop 1 (dropWhile (\<lambda>c. c \<noteq> CHR ''.'') s)) else (s, ''''))"

lemma Pop_shorter: "Pop s = (n, rest) \<Longrightarrow> rest \<noteq> '''' \<Longrightarrow> length rest < length s"
  using length_dropWhile_le [of "\<lambda>c. c \<noteq> CHR ''.''" s] by (cases s) (auto simp: Pop_def split: if_splits)

section \<open>Descriptors inside a file\<close>

definition topLevelDescriptors :: "file_desc \<Rightarrow> descriptor list" where
  "topLevelDescriptors fd =
     concat (map (\<lambda>e. EnumD e # map EnumValueD (rev (en_values e))) (rev (file_enums fd)))
     @ map MessageD (rev (file_messages fd)) @ map ExtensionD (rev (file_exts fd)) @ map ServiceD (rev (file_services fd))"

definition top_names :: "file_desc \<Rightarrow> string list" where
  "top_names fd = map desc_full_name (topLevelDescriptors fd)"

definition valueByName :: "enum_value_desc list \<Rightarrow> string \<Rightarrow> enum_value_desc option" where
  "valueByName vs n = find (\<lambda>v. ev_name v = n) vs"

definition extByName :: "ext_desc list \<Rightarrow> string \<Rightarrow> ext_desc option" where
  "extByName xs n = find (\<lambda>x. ext_name x = n) xs"

definition fieldByName :: "field_desc list \<Rightarrow> string \<Rightarrow> field_desc option" where
  "fieldByName fs n = find (\<lambda>f. fld_name f = n) fs"

text \<open>The members of a message in the order the search tries them.\<close>

definition member_of_message :: "message_desc \<Rightarrow> string \<Rightarrow> descriptor option" where
  "member_of_message md name = first_some (\<lambda>r. r)
     [map_option EnumD (enumByName (msg_enums md) name),
      map_option EnumValueD (first_some (\<lambda>e. valueByName (en_values e) name) (rev (msg_enums md))),
      map_option ExtensionD (extByName (msg_exts md) name),
      map_option FieldD (fieldByName (msg_fields md) name),
      map_option OneofD (oneofByName (msg_oneofs md) name)]"

function findDescriptorInMessage :: "message_desc \<Rightarrow> string \<Rightarrow> descriptor option" where
  "findDescriptorInMessage md rem =
     (case Pop rem of (name, rest) \<Rightarrow>
        (case (if rest = '''' then member_of_message md name else None) of
           Some d \<Rightarrow> Some d
         | None \<Rightarrow>
             (case msgByName (msg_messages md) name of
                None \<Rightarrow> None
              | Some md' \<Rightarrow> if rest = '''' then Some (MessageD md') else findDescriptorInMessage md' rest)))"
  by pat_completeness auto
termination by (relation "measure (\<lambda>(_, s). length s)") (auto dest: Pop_shorter [OF sym])

declare findDescriptorInMessage.simps [simp del]

section \<open>State\<close>

text \<open>What \<^verbatim>\<open>descsByName\<close> holds: a package with its files, or a descriptor.\<close>

datatype name_entry = PackageD "file_desc list" | TopD descriptor

record file_record =
  fr_pkg :: string
  fr_names :: "string list"

record files_state =
  descsByName :: "(string \<times> name_entry) list"
  filesByPath :: "(string \<times> file_desc list) list"
  numFiles :: int
  fileDescs :: "(string \<times> file_record) list"

text \<open>The functions of the global file registry that the wrapper delegates to.\<close>

record global_files =
  gf_FindDescriptorByName :: "string \<Rightarrow> descriptor result"
  gf_FindFileByPath :: "string \<Rightarrow> file_desc result"
  gf_NumFiles :: int
  gf_RangeFiles :: "file_desc list"
  gf_RangeFilesByPackage :: "string \<Rightarrow> file_desc list"

datatype files_tier = LocalFiles files_state | GlobalFiles global_files

type_synonym files_chain = "files_tier list"

definition empty_files :: files_state where
  "empty_files = \<lparr>descsByName = [('''', PackageD [])], filesByPath = [], numFiles = 0, fileDescs = []\<rparr>"

definition NewNamespacedFiles :: "files_chain \<Rightarrow> files_chain" where
  "NewNamespacedFiles parent = LocalFiles empty_files # parent"

section \<open>Writing\<close>

text \<open>A write method: refused on the wrapper of the global registry.\<close>

definition writing :: "string \<Rightarrow> (files_state, unit) act \<Rightarrow> (files_tier, unit) act" where
  "writing verb m tier =
     (case tier of
        GlobalFiles g \<Rightarrow> (Inl (Errorf (''nsregistry: cannot '' @ verb @ '' files on read-only global namespace'')), tier)
      | LocalFiles st \<Rightarrow> (case m st of (x, st') \<Rightarrow> (x, LocalFiles st')))"

definition set_desc :: "string \<Rightarrow> name_entry \<Rightarrow> files_state \<Rightarrow> files_state" where
  "set_desc name e st = st\<lparr>descsByName := AList.update name e (descsByName st)\<rparr>"

definition delete_desc :: "string \<Rightarrow> files_state \<Rightarrow> files_state" where
  "delete_desc name st = st\<lparr>descsByName := AList.delete name (descsByName st)\<rparr>"

definition ensure_package :: "string \<Rightarrow> files_state \<Rightarrow> files_state" where
  "ensure_package name st = (if map_of (descsByName st) name = None then set_desc name (PackageD []) st else st)"

definition insertFileLocked :: "file_desc \<Rightarrow> (files_state, unit) act" where
  "insertFileLocked file st0 =
     (let st = fold ensure_package (package_chain (file_package file)) st0 in
      case map_of (descsByName st) (file_package file) of
        Some (PackageD files) \<Rightarrow>
          (let st = set_desc (file_package file) (PackageD (files @ [file])) st;
               st = fold (\<lambda>d. set_desc (desc_full_name d) (TopD d)) (topLevelDescriptors file) st
           in (Inr (), st\<lparr>filesByPath := AList.update (file_path file) [file] (filesByPath st),
                fileDescs := AList.update (file_path file) \<lparr>fr_pkg = file_package file, fr_names = top_names file\<rparr> (fileDescs st),
                numFiles := numFiles st + 1\<rparr>))
      | _ \<Rightarrow> (Inl (Errorf ''panic: interface conversion''), st))"

definition package_conflict :: "files_state \<Rightarrow> file_desc \<Rightarrow> string option" where
  "package_conflict st file =
     find (\<lambda>name. case map_of (descsByName st) name of Some (TopD _) \<Rightarrow> True | _ \<Rightarrow> False) (package_chain (file_package file))"

definition name_conflict :: "files_state \<Rightarrow> file_desc \<Rightarrow> string option" where
  "name_conflict st file = find (\<lambda>name. map_of (descsByName st) name \<noteq> None) (top_names file)"

definition register_file :: "file_desc \<Rightarrow> (files_state, unit) act" where
  "register_file file st =
     (let quoted = fmt_q (file_path file) in
      if (case map_of (filesByPath st) (file_path file) of Some prev \<Rightarrow> prev \<noteq> [] | None \<Rightarrow> False)
      then (Inl (Errorf (''nsregistry: file '' @ quoted @ '' is already registered'')), st)
      else case package_conflict st file of
        Some name \<Rightarrow> (Inl (Errorf (''nsregistry: file '' @ quoted @ '' has a package name conflict over '' @ name)), st)
      | None \<Rightarrow>
         (case name_conflict st file of
            Some name \<Rightarrow> (Inl (Errorf (''nsregistry: file '' @ quoted @ '' has a name conflict over '' @ name)), st)
          | None \<Rightarrow> insertFileLocked file st))"

definition RegisterFile :: "file_desc \<Rightarrow> (files_tier, unit) act" where
  "RegisterFile file = writing ''register'' (register_file file)"

fun removeFileByPath :: "file_desc list \<Rightarrow> string \<Rightarrow> file_desc list" where
  "removeFileByPath [] path = []"
| "removeFileByPath (f # fs) path = (if file_path f = path then fs else f # removeFileByPath fs path)"

text \<open>The loop stops at the first name that is not an empty package.\<close>

fun cleanup_names :: "string list \<Rightarrow> files_state \<Rightarrow> files_state" where
  "cleanup_names [] st = st"
| "cleanup_names (name # names) st =
     (case map_of (descsByName st) name of
        Some (PackageD []) \<Rightarrow> cleanup_names names (delete_desc name st)
      | _ \<Rightarrow> st)"

definition cleanupPackageChain :: "string \<Rightarrow> files_state \<Rightarrow> files_state" where
  "cleanupPackageChain pkg st = cleanup_names (package_chain pkg) st"

definition remove_from_package :: "string \<Rightarrow> string \<Rightarrow> (files_state \<Rightarrow> files_state) \<Rightarrow> files_state \<Rightarrow> files_state" where
  "remove_from_package pkg path cleanup st =
     (case map_of (descsByName st) pkg of
        Some (PackageD files) \<Rightarrow> cleanup (set_desc pkg (PackageD (removeFileByPath files path)) st)
      | _ \<Rightarrow> st)"

text \<open>The block of \<^verbatim>\<open>UpdateFile\<close> for a path that is registered already.\<close>

definition drop_previous :: "file_desc \<Rightarrow> file_record \<Rightarrow> files_state \<Rightarrow> files_state" where
  "drop_previous file old st =
     (let path = file_path file;
          st = fold (\<lambda>name st. if name \<in> set (top_names file) then st else delete_desc name st) (fr_names old) st;
          st = (if fr_pkg old \<noteq> file_package file then remove_from_package (fr_pkg old) path (cleanupPackageChain (fr_pkg old)) st else st);
          st = st\<lparr>filesByPath := AList.delete path (filesByPath st), fileDescs := AList.delete path (fileDescs st)\<rparr>;
          st = (if fr_pkg old = file_package file then remove_from_package (file_package file) path (\<lambda>st. st) st else st)
      in st\<lparr>numFiles := numFiles st - 1\<rparr>)"

definition update_file :: "file_desc \<Rightarrow> (files_state, unit) act" where
  "update_file file st =
     insertFileLocked file (case map_of (fileDescs st) (file_path file) of None \<Rightarrow> st | Some old \<Rightarrow> drop_previous file old st)"

definition UpdateFile :: "file_desc \<Rightarrow> (files_tier, unit) act" where
  "UpdateFile file = writing ''update'' (update_file file)"

definition unregister_file :: "string \<Rightarrow> (files_state, unit) act" where
  "unregister_file path st =
     (case map_of (fileDescs st) path of
        None \<Rightarrow> (Inl NotFound, st)
      | Some old \<Rightarrow>
         (let st = fold delete_desc (fr_names old) st;
              st = remove_from_package (fr_pkg old) path (cleanupPackageChain (fr_pkg old)) st
          in (Inr (), st\<lparr>filesByPath := AList.delete path (filesByPath st), fileDescs := AList.delete path (fileDescs st),
               numFiles := numFiles st - 1\<rparr>)))"

definition UnregisterFile :: "string \<Rightarrow> (files_tier, unit) act" where
  "UnregisterFile path = writing ''unregister'' (unregister_file path)"

section \<open>Reading\<close>

text \<open>One round of the search for a descriptor: what the entry at a prefix of the name answers.\<close>

definition at_prefix :: "string \<Rightarrow> string \<Rightarrow> name_entry \<Rightarrow> descriptor option" where
  "at_prefix name rem e =
     (let named = (\<lambda>r. case r of Some d \<Rightarrow> if desc_full_name d = name then Some d else None | None \<Rightarrow> None) in
      case e of
        PackageD _ \<Rightarrow> None
      | TopD d \<Rightarrow>
         (case named (Some d) of
            Some d \<Rightarrow> Some d
          | None \<Rightarrow>
             (case d of
                MessageD m \<Rightarrow> named (findDescriptorInMessage m rem)
              | ServiceD s \<Rightarrow> named (map_option MethodD (methodByName (svc_methods s) (fst (Pop rem))))
              | _ \<Rightarrow> None)))"

function find_from :: "files_state \<Rightarrow> string \<Rightarrow> string \<Rightarrow> string \<Rightarrow> descriptor option" where
  "find_from st name pre rem =
     (if pre = '''' then None
      else case map_of (descsByName st) pre of
        Some e \<Rightarrow> at_prefix name rem e
      | None \<Rightarrow> find_from st name (name_Parent pre) (drop (length (name_Parent pre) + 1) name))"
  by pat_completeness auto
termination by (relation "measure (\<lambda>(_, _, pre, _). length pre)") (simp_all add: name_Parent_shorter)

declare find_from.simps [simp del]

definition findDescriptorByNameLocal :: "files_state \<Rightarrow> string \<Rightarrow> descriptor option" where
  "findDescriptorByNameLocal st name = find_from st name name ''''"

fun FindDescriptorByName :: "files_chain \<Rightarrow> string \<Rightarrow> descriptor result" where
  "FindDescriptorByName [] name = Inl NotFound"
| "FindDescriptorByName (GlobalFiles g # parents) name = gf_FindDescriptorByName g name"
| "FindDescriptorByName (LocalFiles st # parents) name =
     (case findDescriptorByNameLocal st name of Some d \<Rightarrow> Inr d | None \<Rightarrow> FindDescriptorByName parents name)"

fun FindFileByPath :: "files_chain \<Rightarrow> string \<Rightarrow> file_desc result" where
  "FindFileByPath [] path = Inl NotFound"
| "FindFileByPath (GlobalFiles g # parents) path = gf_FindFileByPath g path"
| "FindFileByPath (LocalFiles st # parents) path =
     (case (case map_of (filesByPath st) path of None \<Rightarrow> [] | Some fds \<Rightarrow> fds) of
        [fd] \<Rightarrow> Inr fd
      | _ # _ \<Rightarrow> Inl (Errorf (''nsregistry: multiple files named '' @ fmt_q path))
      | [] \<Rightarrow> FindFileByPath parents path)"

fun NumFiles :: "files_chain \<Rightarrow> int" where
  "NumFiles [] = 0"
| "NumFiles (GlobalFiles g # parents) = gf_NumFiles g"
| "NumFiles (LocalFiles st # parents) = numFiles st"

fun RangeFiles :: "files_chain \<Rightarrow> file_desc list" where
  "RangeFiles [] = []"
| "RangeFiles (GlobalFiles g # parents) = gf_RangeFiles g"
| "RangeFiles (LocalFiles st # parents) = concat (map snd (filesByPath st))"

text \<open>The files at paths not seen before, and the paths seen after them.\<close>

fun unseen_files :: "(string \<times> file_desc list) list \<Rightarrow> string list \<Rightarrow> file_desc list \<times> string list" where
  "unseen_files [] seen = ([], seen)"
| "unseen_files ((path, files) # rest) seen =
     (if path \<in> set seen then unseen_files rest seen
      else case unseen_files rest (path # seen) of (out, seen') \<Rightarrow> (files @ out, seen'))"

fun rangeFilesAll :: "files_chain \<Rightarrow> string list \<Rightarrow> file_desc list" where
  "rangeFilesAll [] seen = []"
| "rangeFilesAll (GlobalFiles g # parents) seen = fst (unseen_files (map (\<lambda>fd. (file_path fd, [fd])) (gf_RangeFiles g)) seen)"
| "rangeFilesAll (LocalFiles st # parents) seen =
     (case unseen_files (filesByPath st) seen of (out, seen') \<Rightarrow> out @ rangeFilesAll parents seen')"

definition RangeFilesAll :: "files_chain \<Rightarrow> file_desc list" where
  "RangeFilesAll chain = rangeFilesAll chain []"

fun RangeFilesByPackage :: "files_chain \<Rightarrow> string \<Rightarrow> file_desc list" where
  "RangeFilesByPackage [] name = []"
| "RangeFilesByPackage (GlobalFiles g # parents) name = gf_RangeFilesByPackage g name"
| "RangeFilesByPackage (LocalFiles st # parents) name =
     (case map_of (descsByName st) name of Some (PackageD files) \<Rightarrow> files | _ \<Rightarrow> [])"

fun NumFilesByPackage :: "files_chain \<Rightarrow> string \<Rightarrow> int" where
  "NumFilesByPackage [] name = 0"
| "NumFilesByPackage (GlobalFiles g # parents) name = int (length (gf_RangeFilesByPackage g name))"
| "NumFilesByPackage (LocalFiles st # parents) name =
     (case map_of (descsByName st) name of Some (PackageD files) \<Rightarrow> int (length files) | _ \<Rightarrow> 0)"

end
