(* ===== verification/Ns_Files_Facts.thy ===== *)
theory Ns_Files_Facts
  imports Ns_Files
begin

text \<open>
  The representation invariant of the file registry and that its operations keep it: the four maps describe
  one set of files, every declared top-level name belongs to one file, and every view of the registry -
  by path, by name, by package, the count and the iterations - shows that set.
\<close>

section \<open>The maps as functions\<close>

lemma length_AList_update: "length (AList.update k v al) = (if k \<in> fst ` set al then length al else Suc (length al))"
  by (induction al) auto

lemma length_AList_delete:
  "distinct (map fst al) \<Longrightarrow> length (AList.delete k al) = (if k \<in> fst ` set al then length al - 1 else length al)"
proof -
  assume d: "distinct (map fst al)"
  have "length (AList.delete k al) = length (removeAll k (map fst al))" by (metis delete_keys length_map)
  also have "\<dots> = length (remove1 k (map fst al))" using d by (simp add: distinct_remove1_removeAll)
  finally show ?thesis by (simp add: length_remove1)
qed

abbreviation desc_at :: "files_state \<Rightarrow> string \<Rightarrow> name_entry option" where
  "desc_at st \<equiv> map_of (descsByName st)"

abbreviation files_at :: "files_state \<Rightarrow> string \<Rightarrow> file_desc list option" where
  "files_at st \<equiv> map_of (filesByPath st)"

abbreviation record_at :: "files_state \<Rightarrow> string \<Rightarrow> file_record option" where
  "record_at st \<equiv> map_of (fileDescs st)"

definition record_of :: "file_desc \<Rightarrow> file_record" where
  "record_of f = \<lparr>fr_pkg = file_package f, fr_names = top_names f\<rparr>"

lemma desc_at_set_desc [simp]: "desc_at (set_desc n e st) = (desc_at st)(n \<mapsto> e)"
  by (simp add: set_desc_def update_conv')

lemma desc_at_delete_desc [simp]: "desc_at (delete_desc n st) = (desc_at st)(n := None)"
  by (simp add: delete_desc_def delete_conv')

lemma same_other_maps [simp]:
  "filesByPath (set_desc n e st) = filesByPath st" "fileDescs (set_desc n e st) = fileDescs st" "numFiles (set_desc n e st) = numFiles st"
  "filesByPath (delete_desc n st) = filesByPath st" "fileDescs (delete_desc n st) = fileDescs st" "numFiles (delete_desc n st) = numFiles st"
  by (simp_all add: set_desc_def delete_desc_def)

definition same_files :: "files_state \<Rightarrow> files_state \<Rightarrow> bool" where
  "same_files st st' \<longleftrightarrow> filesByPath st' = filesByPath st \<and> fileDescs st' = fileDescs st \<and> numFiles st' = numFiles st"

lemma same_files_fold: "(\<And>x st. same_files st (f x st)) \<Longrightarrow> same_files st (fold f xs st)"
  by (induction xs arbitrary: st) (fastforce simp: same_files_def)+

lemma desc_at_ensure: "desc_at (fold ensure_package names st) n =
    (if n \<in> set names \<and> desc_at st n = None then Some (PackageD []) else desc_at st n)"
proof (induction names arbitrary: st)
  case (Cons m names)
  then show ?case by (auto simp: ensure_package_def)
qed simp

lemma same_files_ensure: "same_files st (fold ensure_package names st)"
  by (rule same_files_fold) (simp add: same_files_def ensure_package_def)

lemma desc_at_declare: "desc_at (fold (\<lambda>d. set_desc (desc_full_name d) (TopD d)) ds st) n =
    (case map_of (rev (map (\<lambda>d. (desc_full_name d, d)) ds)) n of Some d \<Rightarrow> Some (TopD d) | None \<Rightarrow> desc_at st n)"
  by (induction ds arbitrary: st) (auto simp: map_add_def split: option.splits)

lemma same_files_declare: "same_files st (fold (\<lambda>d. set_desc (desc_full_name d) (TopD d)) ds st)"
  by (rule same_files_fold) (simp add: same_files_def)

lemma desc_at_drop: "desc_at (fold (\<lambda>n st. if P n then st else delete_desc n st) names st) n =
    (if n \<in> set names \<and> \<not> P n then None else desc_at st n)"
  by (induction names arbitrary: st) auto

lemma desc_at_drop_all: "desc_at (fold delete_desc names st) n = (if n \<in> set names then None else desc_at st n)"
  using desc_at_drop [of "\<lambda>_. False" names st n] by simp

lemma same_files_drop: "same_files st (fold (\<lambda>n st. if P n then st else delete_desc n st) names st)"
  by (rule same_files_fold) (simp add: same_files_def)

lemma same_files_drop_all: "same_files st (fold delete_desc names st)"
  by (rule same_files_fold) (simp add: same_files_def)

lemma desc_at_cleanup:
  "desc_at (cleanup_names names st) n = desc_at st n \<or>
   (desc_at (cleanup_names names st) n = None \<and> desc_at st n = Some (PackageD []) \<and> n \<in> set names)"
proof (induction names arbitrary: st)
  case (Cons m names)
  show ?case
  proof (cases "desc_at st m = Some (PackageD [])")
    case True
    then show ?thesis using Cons [of "delete_desc m st"] by (auto split: if_splits)
  next
    case False
    then show ?thesis by (auto split: option.splits name_entry.splits list.splits)
  qed
qed simp

lemma same_files_cleanup: "same_files st (cleanup_names names st)"
proof (induction names arbitrary: st)
  case (Cons m names)
  from Cons [of "delete_desc m st"] have "same_files st (cleanup_names names (delete_desc m st))" by (simp add: same_files_def)
  then show ?case by (auto simp: same_files_def split: option.splits name_entry.splits list.splits)
qed (simp add: same_files_def)

lemma package_chain_nonempty: "'''' \<notin> set (package_chain pkg)"
  by (induction pkg rule: package_chain.induct) (subst package_chain.simps, auto)

lemma package_chain_self: "pkg \<noteq> '''' \<Longrightarrow> pkg \<in> set (package_chain pkg)"
  by (subst package_chain.simps) simp

lemma removeFileByPath_filter:
  "distinct (map file_path fs) \<Longrightarrow> removeFileByPath fs p = filter (\<lambda>f. file_path f \<noteq> p) fs"
proof (induction fs)
  case (Cons f fs)
  then show ?case by (auto intro!: filter_True [symmetric]) (metis image_eqI)
qed simp

section \<open>The invariant\<close>

text \<open>
  A file as the descriptor builder of protobuf makes it: its top-level names are distinct, and none is the name of a
  package above it.
\<close>

definition wf_file :: "file_desc \<Rightarrow> bool" where
  "wf_file f \<longleftrightarrow> distinct (top_names f) \<and> list_all (\<lambda>n. n \<noteq> '''' \<and> n \<notin> set (package_chain (file_package f))) (top_names f)"

text \<open>The four maps describe the same files, one per path.\<close>

definition paths_ok :: "files_state \<Rightarrow> bool" where
  "paths_ok st \<longleftrightarrow> distinct (map fst (filesByPath st)) \<and>
     (\<forall>p fs. files_at st p = Some fs \<longrightarrow> (\<exists>f. fs = [f] \<and> file_path f = p \<and> wf_file f)) \<and>
     (\<forall>p. record_at st p = map_option (\<lambda>fs. record_of (hd fs)) (files_at st p)) \<and>
     numFiles st = int (length (filesByPath st))"

text \<open>Every top-level descriptor of a registered file is found under its name, and no name belongs to two files.\<close>

definition names_ok :: "files_state \<Rightarrow> bool" where
  "names_ok st \<longleftrightarrow>
     (\<forall>p f d. files_at st p = Some [f] \<and> d \<in> set (topLevelDescriptors f) \<longrightarrow> desc_at st (desc_full_name d) = Some (TopD d)) \<and>
     (\<forall>p f q g. files_at st p = Some [f] \<and> files_at st q = Some [g] \<and> set (top_names f) \<inter> set (top_names g) \<noteq> {} \<longrightarrow> p = q)"

text \<open>Every registered file is listed in its package, and a package lists only registered files.\<close>

definition packages_ok :: "files_state \<Rightarrow> bool" where
  "packages_ok st \<longleftrightarrow>
     (\<forall>n fs. desc_at st n = Some (PackageD fs) \<longrightarrow> distinct (map file_path fs) \<and>
        (\<forall>f. f \<in> set fs \<longleftrightarrow> files_at st (file_path f) = Some [f] \<and> file_package f = n)) \<and>
     (\<forall>p f. files_at st p = Some [f] \<longrightarrow> (\<exists>fs. desc_at st (file_package f) = Some (PackageD fs))) \<and>
     (\<exists>fs. desc_at st '''' = Some (PackageD fs))"

text \<open>No name is left over from a file that is gone; the names of the list are excepted.\<close>

definition no_stale_but :: "string list \<Rightarrow> files_state \<Rightarrow> bool" where
  "no_stale_but names st \<longleftrightarrow>
     (\<forall>n d. desc_at st n = Some (TopD d) \<longrightarrow> n \<in> set names \<or> (\<exists>p f. files_at st p = Some [f] \<and> n \<in> set (top_names f)))"

definition files_ok :: "files_state \<Rightarrow> bool" where
  "files_ok st \<longleftrightarrow> paths_ok st \<and> names_ok st \<and> packages_ok st \<and> no_stale_but [] st"

lemma files_ok_empty: "files_ok empty_files"
  by (simp add: files_ok_def paths_ok_def names_ok_def packages_ok_def no_stale_but_def empty_files_def)

lemma paths_okD: "paths_ok st \<Longrightarrow> files_at st p = Some fs \<Longrightarrow> \<exists>f. fs = [f] \<and> file_path f = p \<and> wf_file f"
  by (simp add: paths_ok_def)

text \<open>A state in which the path of a file is free and none of its names or packages is in use by another file.\<close>

definition ready :: "file_desc \<Rightarrow> files_state \<Rightarrow> bool" where
  "ready file st \<longleftrightarrow> wf_file file \<and> paths_ok st \<and> names_ok st \<and> packages_ok st \<and> no_stale_but (top_names file) st \<and>
     files_at st (file_path file) = None \<and>
     (\<forall>p f. files_at st p = Some [f] \<longrightarrow> set (top_names f) \<inter> set (top_names file) = {}) \<and>
     (\<forall>n fs. n \<in> set (top_names file) \<longrightarrow> desc_at st n \<noteq> Some (PackageD fs)) \<and>
     (\<forall>n d. n \<in> set (package_chain (file_package file)) \<longrightarrow> desc_at st n \<noteq> Some (TopD d))"

lemma readyD:
  assumes "ready file st"
  shows "wf_file file" and "paths_ok st" and "names_ok st" and "packages_ok st" and "no_stale_but (top_names file) st"
    and "files_at st (file_path file) = None"
    and "files_at st p = Some [f] \<Longrightarrow> set (top_names f) \<inter> set (top_names file) = {}"
    and "n \<in> set (top_names file) \<Longrightarrow> desc_at st n \<noteq> Some (PackageD fs)"
    and "n \<in> set (package_chain (file_package file)) \<Longrightarrow> desc_at st n \<noteq> Some (TopD d)"
    and "desc_at st (file_package file) \<noteq> Some (TopD d)"
    and "file_package file \<notin> set (top_names file)" and "'''' \<notin> set (top_names file)"
proof -
  let ?pkg = "file_package file"
  show a: "wf_file file" "paths_ok st" "names_ok st" "packages_ok st" "no_stale_but (top_names file) st"
    "files_at st (file_path file) = None" using assms by (simp_all add: ready_def)
  show "files_at st p = Some [f] \<Longrightarrow> set (top_names f) \<inter> set (top_names file) = {}"
    "n \<in> set (top_names file) \<Longrightarrow> desc_at st n \<noteq> Some (PackageD fs)" using assms by (auto simp: ready_def)
  have chain: "\<And>n d. n \<in> set (package_chain ?pkg) \<Longrightarrow> desc_at st n \<noteq> Some (TopD d)" using assms by (simp add: ready_def)
  then show "n \<in> set (package_chain ?pkg) \<Longrightarrow> desc_at st n \<noteq> Some (TopD d)" .
  show "desc_at st ?pkg \<noteq> Some (TopD d)"
    using chain [OF package_chain_self] a(4) by (cases "?pkg = ''''") (auto simp: packages_ok_def)
  show empty: "'''' \<notin> set (top_names file)" using a(1) by (auto simp: wf_file_def list_all_iff)
  then show "?pkg \<notin> set (top_names file)"
    using a(1) package_chain_self [of ?pkg] by (cases "?pkg = ''''") (auto simp: wf_file_def list_all_iff)
qed

lemma top_names_mem: "n \<in> set (top_names f) \<longleftrightarrow> (\<exists>d \<in> set (topLevelDescriptors f). desc_full_name d = n)"
  by (auto simp: top_names_def)

lemma files_at_update: "filesByPath st' = AList.update p fs (filesByPath st) \<Longrightarrow> files_at st' = (files_at st)(p \<mapsto> fs)"
  by (simp add: update_conv')

lemma packages_okD: "packages_ok st \<Longrightarrow> files_at st p = Some [f] \<Longrightarrow> \<exists>fs. desc_at st (file_package f) = Some (PackageD fs)"
  unfolding packages_ok_def by blast

text \<open>The files listed under a name.\<close>

definition listed :: "files_state \<Rightarrow> string \<Rightarrow> file_desc list" where
  "listed st n = (case desc_at st n of Some (PackageD fs) \<Rightarrow> fs | _ \<Rightarrow> [])"

lemma listed_iff:
  assumes "packages_ok st" and "\<nexists>d. desc_at st n = Some (TopD d)"
  shows "f \<in> set (listed st n) \<longleftrightarrow> files_at st (file_path f) = Some [f] \<and> file_package f = n"
proof (cases "desc_at st n")
  case None
  moreover have "files_at st (file_path f) = Some [f] \<Longrightarrow> file_package f \<noteq> n" using packages_okD [OF assms(1)] None by fastforce
  ultimately show ?thesis by (auto simp: listed_def)
next
  case (Some e)
  with assms show ?thesis by (cases e) (auto simp: listed_def packages_ok_def)
qed

lemma listed_distinct: "packages_ok st \<Longrightarrow> distinct (map file_path (listed st n))"
  by (auto simp: listed_def packages_ok_def split: option.splits name_entry.splits)

text \<open>What an insertion leaves in the maps.\<close>

definition inserted :: "file_desc \<Rightarrow> files_state \<Rightarrow> files_state \<Rightarrow> bool" where
  "inserted file st st' \<longleftrightarrow>
     filesByPath st' = AList.update (file_path file) [file] (filesByPath st) \<and>
     fileDescs st' = AList.update (file_path file) (record_of file) (fileDescs st) \<and>
     numFiles st' = numFiles st + 1 \<and>
     (\<forall>d \<in> set (topLevelDescriptors file). desc_at st' (desc_full_name d) = Some (TopD d)) \<and>
     (\<forall>n. n \<notin> set (top_names file) \<longrightarrow> desc_at st' n =
        (if n = file_package file then Some (PackageD (listed st n @ [file]))
         else if n \<in> set (package_chain (file_package file)) \<and> desc_at st n = None then Some (PackageD [])
         else desc_at st n))"

lemma insertedD:
  assumes "inserted file st st'"
  shows "files_at st' = (files_at st)(file_path file \<mapsto> [file])"
    and "d \<in> set (topLevelDescriptors file) \<Longrightarrow> desc_at st' (desc_full_name d) = Some (TopD d)"
    and "n \<notin> set (top_names file) \<Longrightarrow> desc_at st' n =
        (if n = file_package file then Some (PackageD (listed st n @ [file]))
         else if n \<in> set (package_chain (file_package file)) \<and> desc_at st n = None then Some (PackageD [])
         else desc_at st n)"
  using assms by (simp_all add: inserted_def update_conv')

lemma insert_inserted:
  assumes "ready file st"
  shows "\<exists>st'. insertFileLocked file st = (Inr (), st') \<and> inserted file st st'"
proof -
  let ?pkg = "file_package file" and ?ds = "topLevelDescriptors file"
  let ?st1 = "fold ensure_package (package_chain ?pkg) st"
  note r = readyD [OF assms]
  have pkg1: "desc_at ?st1 ?pkg = Some (PackageD (listed st ?pkg))"
  proof (cases "desc_at st ?pkg")
    case None
    with r(4) have "?pkg \<noteq> ''''" by (auto simp: packages_ok_def)
    with None package_chain_self show ?thesis by (simp add: desc_at_ensure listed_def)
  next
    case (Some e)
    with r(10) show ?thesis by (cases e) (auto simp: desc_at_ensure listed_def)
  qed
  let ?st2 = "set_desc ?pkg (PackageD (listed st ?pkg @ [file])) ?st1"
  let ?st3 = "fold (\<lambda>d. set_desc (desc_full_name d) (TopD d)) ?ds ?st2"
  let ?st' = "?st3\<lparr>filesByPath := AList.update (file_path file) [file] (filesByPath ?st3),
      fileDescs := AList.update (file_path file) (record_of file) (fileDescs ?st3), numFiles := numFiles ?st3 + 1\<rparr>"
  have run: "insertFileLocked file st = (Inr (), ?st')"
    unfolding insertFileLocked_def Let_def pkg1 by (simp add: record_of_def)
  have "same_files st ?st1" "same_files ?st2 ?st3" by (rule same_files_ensure same_files_declare)+
  then have same: "same_files st ?st3" by (simp add: same_files_def)
  have keys: "distinct (map fst (rev (map (\<lambda>d. (desc_full_name d, d)) ?ds)))"
    using r(1) by (simp add: wf_file_def top_names_def o_def flip: rev_map)
  have top: "desc_at ?st3 (desc_full_name d) = Some (TopD d)" if "d \<in> set ?ds" for d
    using that map_of_is_SomeI [OF keys, of "desc_full_name d" d] by (simp add: desc_at_declare)
  have rest: "desc_at ?st3 n = desc_at ?st2 n" if "n \<notin> set (top_names file)" for n
  proof -
    have "map_of (rev (map (\<lambda>d. (desc_full_name d, d)) ?ds)) n = None"
      unfolding map_of_eq_None_iff using that by (force simp: top_names_def)
    then show ?thesis by (simp add: desc_at_declare)
  qed
  have "inserted file st ?st'" using same top rest unfolding inserted_def by (auto simp: same_files_def desc_at_ensure)
  with run show ?thesis by blast
qed

lemma inserted_paths_ok:
  assumes "ready file st" and "inserted file st st'"
  shows "paths_ok st'"
proof -
  note r = readyD [OF assms(1)] and i = insertedD [OF assms(2)]
  have "file_path file \<notin> fst ` set (filesByPath st)" using r(6) by (simp add: map_of_eq_None_iff)
  then have "length (filesByPath st') = Suc (length (filesByPath st))" "distinct (map fst (filesByPath st'))"
    using r(2) assms(2) by (simp_all add: length_AList_update distinct_update paths_ok_def inserted_def)
  moreover have "record_at st' = (record_at st)(file_path file \<mapsto> record_of file)" "numFiles st' = numFiles st + 1"
    using assms(2) by (simp_all add: inserted_def update_conv')
  ultimately show ?thesis using r(1,2) unfolding paths_ok_def i(1) by auto
qed

lemma inserted_names_ok:
  assumes "ready file st" and "inserted file st st'"
  shows "names_ok st'"
proof -
  note r = readyD [OF assms(1)] and i = insertedD [OF assms(2)]
  let ?path = "file_path file"
  have "desc_at st' (desc_full_name d) = Some (TopD d)" if a: "files_at st' p = Some [f]" "d \<in> set (topLevelDescriptors f)" for p f d
  proof (cases "p = ?path")
    case True
    with a i(1,2) show ?thesis by simp
  next
    case False
    with a i(1) have f: "files_at st p = Some [f]" by simp
    with a r(3) have d: "desc_at st (desc_full_name d) = Some (TopD d)" by (auto simp: names_ok_def)
    have "desc_full_name d \<in> set (top_names f)" using a by (auto simp: top_names_mem)
    with r(7) [OF f] have "desc_full_name d \<notin> set (top_names file)" by blast
    with i(3) d r(9,10) show ?thesis by (auto split: if_splits)
  qed
  moreover have "p = q" if a: "files_at st' p = Some [f]" "files_at st' q = Some [g]" "set (top_names f) \<inter> set (top_names g) \<noteq> {}" for p q f g
  proof -
    from r(3) have "files_at st p = Some [f] \<Longrightarrow> files_at st q = Some [g] \<Longrightarrow> p = q" using a(3) unfolding names_ok_def by blast
    with a r(7) [of p f] r(7) [of q g] i(1) show ?thesis by (cases "p = ?path"; cases "q = ?path") (auto simp: Int_commute)
  qed
  ultimately show ?thesis unfolding names_ok_def by blast
qed

lemma inserted_packages_ok:
  assumes "ready file st" and "inserted file st st'"
  shows "packages_ok st'"
proof -
  note r = readyD [OF assms(1)] and i = insertedD [OF assms(2)]
  have "distinct (map file_path fs) \<and> (\<forall>f. f \<in> set fs \<longleftrightarrow> files_at st' (file_path f) = Some [f] \<and> file_package f = n)"
    if a: "desc_at st' n = Some (PackageD fs)" for n fs
  proof -
    have n: "n \<notin> set (top_names file)" using a i(2) by (auto simp: top_names_mem)
    have entry: "\<nexists>d. desc_at st n = Some (TopD d)" using a i(3) [OF n] r(10) by (auto split: if_splits)
    have fs: "fs = listed st n @ (if n = file_package file then [file] else [])"
      using a i(3) [OF n] entry by (auto simp: listed_def split: if_splits option.splits name_entry.splits)
    show ?thesis using listed_iff [OF r(4) entry] listed_distinct [OF r(4), of n] r(6) by (auto simp: fs i(1))
  qed
  moreover have "\<exists>fs. desc_at st' (file_package f) = Some (PackageD fs)" if a: "files_at st' p = Some [f]" for p f
  proof (cases "p = file_path file")
    case True
    with a i(3) [OF r(11)] show ?thesis by (simp add: i(1))
  next
    case False
    with a have "files_at st p = Some [f]" by (simp add: i(1))
    from packages_okD [OF r(4) this] obtain fs where fs: "desc_at st (file_package f) = Some (PackageD fs)" ..
    then have "file_package f \<notin> set (top_names file)" using r(8) by blast
    with i(3) fs show ?thesis by auto
  qed
  moreover have "\<exists>fs. desc_at st' '''' = Some (PackageD fs)" using r(4) i(3) [OF r(12)] by (auto simp: packages_ok_def)
  ultimately show ?thesis unfolding packages_ok_def by blast
qed

lemma inserted_no_stale:
  assumes "ready file st" and "inserted file st st'"
  shows "no_stale_but [] st'"
  unfolding no_stale_but_def
proof (intro allI impI disjI2)
  note r = readyD [OF assms(1)] and i = insertedD [OF assms(2)]
  fix n d assume a: "desc_at st' n = Some (TopD d)"
  show "\<exists>p f. files_at st' p = Some [f] \<and> n \<in> set (top_names f)"
  proof (cases "n \<in> set (top_names file)")
    case True
    then show ?thesis by (auto simp: i(1))
  next
    case False
    with a i(3) have "desc_at st n = Some (TopD d)" by (auto split: if_splits)
    with r(5) False obtain p f where p: "files_at st p = Some [f]" "n \<in> set (top_names f)" by (auto simp: no_stale_but_def)
    with r(6) have "p \<noteq> file_path file" by auto
    with p show ?thesis by (auto simp: i(1))
  qed
qed

lemma insert_ok:
  assumes "ready file st"
  shows "\<exists>st'. insertFileLocked file st = (Inr (), st') \<and> files_ok st' \<and> files_at st' = (files_at st)(file_path file \<mapsto> [file])"
  using insert_inserted [OF assms] inserted_paths_ok [OF assms] inserted_names_ok [OF assms] inserted_packages_ok [OF assms]
    inserted_no_stale [OF assms] insertedD(1) unfolding files_ok_def by metis

section \<open>Register\<close>

lemma no_package_conflict: "package_conflict st file = None \<Longrightarrow> n \<in> set (package_chain (file_package file)) \<Longrightarrow> desc_at st n \<noteq> Some (TopD d)"
  by (auto simp: package_conflict_def find_None_iff)

lemma no_stale_but_mono: "no_stale_but [] st \<Longrightarrow> no_stale_but names st"
  by (auto simp: no_stale_but_def)

lemma declared: "names_ok st \<Longrightarrow> files_at st p = Some [f] \<Longrightarrow> n \<in> set (top_names f) \<Longrightarrow> \<exists>d. desc_at st n = Some (TopD d)"
  by (auto simp: names_ok_def top_names_mem)

lemma one_owner: "names_ok st \<Longrightarrow> files_at st p = Some [f] \<Longrightarrow> files_at st q = Some [g] \<Longrightarrow> n \<in> set (top_names f) \<Longrightarrow>
    n \<in> set (top_names g) \<Longrightarrow> p = q"
  unfolding names_ok_def by blast

lemma register_ready:
  assumes "files_ok st" and "wf_file file" and "files_at st (file_path file) = None" and "package_conflict st file = None"
    and "name_conflict st file = None"
  shows "ready file st"
proof -
  have "desc_at st n = None" if "n \<in> set (top_names file)" for n using assms(5) that by (auto simp: name_conflict_def find_None_iff)
  moreover then have "set (top_names f) \<inter> set (top_names file) = {}" if "files_at st p = Some [f]" for p f
    using declared [OF _ that] assms(1) by (fastforce simp: files_ok_def)
  ultimately show ?thesis using assms no_package_conflict [OF assms(4)] unfolding ready_def files_ok_def by (auto intro: no_stale_but_mono)
qed

lemma register_file_ok:
  assumes "files_ok st" and "wf_file file" and "register_file file st = (x, st')"
  shows "files_ok st'" and "x = Inr () \<Longrightarrow> files_at st (file_path file) = None \<and> files_at st' = (files_at st)(file_path file \<mapsto> [file])"
    and "x \<noteq> Inr () \<Longrightarrow> st' = st"
proof -
  have none: "files_at st (file_path file) = None"
    if "\<not> (case files_at st (file_path file) of Some prev \<Rightarrow> prev \<noteq> [] | None \<Rightarrow> False)"
    using that assms(1) by (auto simp: files_ok_def dest: paths_okD split: option.splits)
  have rdy: "ready file st" if "st' \<noteq> st \<or> x = Inr ()"
    using assms(3) that by (intro register_ready [OF assms(1,2)] none) (auto simp: register_file_def Let_def split: if_splits option.splits)
  have run: "insertFileLocked file st = (x, st')" if "st' \<noteq> st \<or> x = Inr ()"
    using assms(3) that by (auto simp: register_file_def Let_def split: if_splits option.splits)
  have ins: "x = Inr () \<and> files_ok st' \<and> files_at st' = (files_at st)(file_path file \<mapsto> [file]) \<and> files_at st (file_path file) = None"
    if "st' \<noteq> st \<or> x = Inr ()" using insert_ok [OF rdy [OF that]] run [OF that] readyD(6) [OF rdy [OF that]] by auto
  from ins assms(1) show "files_ok st'" by blast
  from ins show "x = Inr () \<Longrightarrow> files_at st (file_path file) = None \<and> files_at st' = (files_at st)(file_path file \<mapsto> [file])" by blast
  from ins show "x \<noteq> Inr () \<Longrightarrow> st' = st" by blast
qed

section \<open>Remove\<close>

text \<open>What removing a file and some of its names leaves in the maps; empty packages may go.\<close>

definition without :: "file_desc \<Rightarrow> files_state \<Rightarrow> string \<Rightarrow> name_entry option" where
  "without f st n = (if n = file_package f then Some (PackageD (filter (\<lambda>g. file_path g \<noteq> file_path f) (listed st n))) else desc_at st n)"

definition removed :: "file_desc \<Rightarrow> string list \<Rightarrow> files_state \<Rightarrow> files_state \<Rightarrow> bool" where
  "removed f names st st' \<longleftrightarrow>
     filesByPath st' = AList.delete (file_path f) (filesByPath st) \<and>
     fileDescs st' = AList.delete (file_path f) (fileDescs st) \<and>
     numFiles st' = numFiles st - 1 \<and>
     (\<forall>n. if n \<in> set names then desc_at st' n = None
        else desc_at st' n = without f st n \<or> desc_at st' n = None \<and> without f st n = Some (PackageD []) \<and> n \<noteq> '''')"

lemma removedD:
  assumes "removed f names st st'"
  shows "files_at st' = (files_at st)(file_path f := None)"
    and "n \<in> set names \<Longrightarrow> desc_at st' n = None"
    and "n \<notin> set names \<Longrightarrow> desc_at st' n = without f st n \<or> desc_at st' n = None \<and> without f st n = Some (PackageD []) \<and> n \<noteq> ''''"
    and "desc_at st' n = Some e \<Longrightarrow> n \<notin> set names \<and> without f st n = Some e"
proof -
  have all: "if n \<in> set names then desc_at st' n = None
      else desc_at st' n = without f st n \<or> desc_at st' n = None \<and> without f st n = Some (PackageD []) \<and> n \<noteq> ''''" for n
    using assms by (simp add: removed_def)
  show "files_at st' = (files_at st)(file_path f := None)" using assms by (simp add: removed_def delete_conv')
  show "n \<in> set names \<Longrightarrow> desc_at st' n = None" using all [of n] by simp
  show "n \<notin> set names \<Longrightarrow> desc_at st' n = without f st n \<or> desc_at st' n = None \<and> without f st n = Some (PackageD []) \<and> n \<noteq> ''''"
    using all [of n] by simp
  show "desc_at st' n = Some e \<Longrightarrow> n \<notin> set names \<and> without f st n = Some e" using all [of n] by (auto split: if_splits)
qed

text \<open>The hypotheses of the following lemmas: a registered file is removed with some of its own names.\<close>

definition removing :: "file_desc \<Rightarrow> string list \<Rightarrow> files_state \<Rightarrow> files_state \<Rightarrow> bool" where
  "removing f names st st' \<longleftrightarrow> files_ok st \<and> files_at st (file_path f) = Some [f] \<and> set names \<subseteq> set (top_names f) \<and> removed f names st st'"

lemma removing_paths_ok:
  assumes "removing f names st st'"
  shows "paths_ok st'"
proof -
  from assms have p: "paths_ok st" and f: "files_at st (file_path f) = Some [f]" and r: "removed f names st st'"
    by (simp_all add: removing_def files_ok_def)
  have mem: "file_path f \<in> fst ` set (filesByPath st)" using f by (metis domI dom_map_of_conv_image_fst)
  then have "filesByPath st \<noteq> []" by auto
  then have "length (filesByPath st') + 1 = length (filesByPath st)" "distinct (map fst (filesByPath st'))"
    using p r mem by (simp_all add: length_AList_delete distinct_delete paths_ok_def removed_def)
  moreover have "record_at st' = (record_at st)(file_path f := None)" "numFiles st' = numFiles st - 1"
    using r by (simp_all add: removed_def delete_conv')
  ultimately show ?thesis using p unfolding paths_ok_def removedD(1) [OF r] by auto
qed

lemma removing_names_ok:
  assumes "removing f names st st'"
  shows "names_ok st'"
proof -
  from assms have n: "names_ok st" and packs: "packages_ok st" and f: "files_at st (file_path f) = Some [f]"
    and sub: "set names \<subseteq> set (top_names f)" and r: "removed f names st st'" by (simp_all add: removing_def files_ok_def)
  have "desc_at st' (desc_full_name d) = Some (TopD d)" if a: "files_at st' p = Some [g]" "d \<in> set (topLevelDescriptors g)" for p g d
  proof -
    from a(1) have g: "files_at st p = Some [g]" "p \<noteq> file_path f" by (auto simp: removedD(1) [OF r] split: if_splits)
    have mem: "desc_full_name d \<in> set (top_names g)" using a(2) by (auto simp: top_names_mem)
    with one_owner [OF n g(1) f] g(2) sub have "desc_full_name d \<notin> set names" by blast
    moreover have d: "desc_at st (desc_full_name d) = Some (TopD d)" using n g(1) a(2) by (auto simp: names_ok_def)
    moreover from d have "desc_full_name d \<noteq> file_package f" using packages_okD [OF packs f] by auto
    ultimately show ?thesis using removedD(3) [OF r, of "desc_full_name d"] by (auto simp: without_def)
  qed
  moreover have "p = q" if a: "files_at st' p = Some [g]" "files_at st' q = Some [h]" "set (top_names g) \<inter> set (top_names h) \<noteq> {}" for p q g h
  proof -
    have "files_at st p = Some [g]" "files_at st q = Some [h]" using a by (auto simp: removedD(1) [OF r] split: if_splits)
    with one_owner [OF n this] a(3) show ?thesis by blast
  qed
  ultimately show ?thesis unfolding names_ok_def by blast
qed

lemma removing_packages_ok:
  assumes "removing f names st st'"
  shows "packages_ok st'"
proof -
  from assms have n: "names_ok st" and packs: "packages_ok st" and f: "files_at st (file_path f) = Some [f]"
    and sub: "set names \<subseteq> set (top_names f)" and r: "removed f names st st'" by (simp_all add: removing_def files_ok_def)
  have pkg: "\<nexists>d. desc_at st (file_package f) = Some (TopD d)" using packages_okD [OF packs f] by auto
  have "distinct (map file_path fs) \<and> (\<forall>g. g \<in> set fs \<longleftrightarrow> files_at st' (file_path g) = Some [g] \<and> file_package g = m)"
    if "desc_at st' m = Some (PackageD fs)" for m fs
  proof -
    from removedD(4) [OF r that] have w: "without f st m = Some (PackageD fs)" by simp
    have entry: "\<nexists>d. desc_at st m = Some (TopD d)" using w pkg by (auto simp: without_def split: if_splits)
    have fs: "fs = filter (\<lambda>g. file_path g \<noteq> file_path f) (listed st m)"
    proof (cases "m = file_package f")
      case False
      with w have "fs = listed st m" by (simp add: without_def listed_def)
      moreover have "file_path g \<noteq> file_path f" if "g \<in> set (listed st m)" for g
        using listed_iff [OF packs entry, of g] that f False by auto
      ultimately show ?thesis by (simp add: filter_id_conv)
    qed (use w in \<open>simp add: without_def\<close>)
    show ?thesis using listed_iff [OF packs entry] listed_distinct [OF packs, of m]
      by (auto simp: fs removedD(1) [OF r] distinct_map_filter)
  qed
  moreover have "\<exists>fs. desc_at st' (file_package g) = Some (PackageD fs)" if "files_at st' p = Some [g]" for p g
  proof -
    from that have g: "files_at st p = Some [g]" "p \<noteq> file_path f" by (auto simp: removedD(1) [OF r] split: if_splits)
    have path: "file_path g = p" using g(1) assms by (auto simp: removing_def files_ok_def dest: paths_okD)
    from packages_okD [OF packs g(1)] obtain gs where gs: "desc_at st (file_package g) = Some (PackageD gs)" ..
    with declared [OF n f] sub have "file_package g \<notin> set names" by fastforce
    moreover have "g \<in> set (listed st (file_package g))" using listed_iff [OF packs] gs g(1) path by auto
    then have "\<exists>fs. without f st (file_package g) = Some (PackageD fs) \<and> g \<in> set fs"
      using gs g(2) path by (auto simp: without_def listed_def)
    ultimately show ?thesis using removedD(3) [OF r, of "file_package g"] by auto
  qed
  moreover have "\<exists>fs. desc_at st' '''' = Some (PackageD fs)"
  proof -
    obtain fs where e: "desc_at st '''' = Some (PackageD fs)" using packs by (auto simp: packages_ok_def)
    with declared [OF n f] sub have "'''' \<notin> set names" by fastforce
    then show ?thesis using removedD(3) [OF r, of "''''"] e by (auto simp: without_def)
  qed
  ultimately show ?thesis unfolding packages_ok_def by blast
qed

lemma removing_no_stale:
  assumes "removing f names st st'"
  shows "no_stale_but (filter (\<lambda>n. n \<notin> set names) (top_names f)) st'"
  unfolding no_stale_but_def
proof (intro allI impI)
  from assms have f: "files_at st (file_path f) = Some [f]" and stale: "no_stale_but [] st" and r: "removed f names st st'"
    by (simp_all add: removing_def files_ok_def)
  fix n d assume "desc_at st' n = Some (TopD d)"
  from removedD(4) [OF r this] have n: "n \<notin> set names" "desc_at st n = Some (TopD d)" by (auto simp: without_def split: if_splits)
  with stale obtain p g where g: "files_at st p = Some [g]" "n \<in> set (top_names g)" by (auto simp: no_stale_but_def)
  show "n \<in> set (filter (\<lambda>n. n \<notin> set names) (top_names f)) \<or> (\<exists>p f. files_at st' p = Some [f] \<and> n \<in> set (top_names f))"
  proof (cases "p = file_path f")
    case True
    with g f n(1) show ?thesis by simp
  next
    case False
    with g show ?thesis by (auto simp: removedD(1) [OF r])
  qed
qed

lemma remove_from_package_effect:
  assumes "desc_at st pkg = Some (PackageD fs)" and "distinct (map file_path fs)" and "cleanup = (\<lambda>st. st) \<or> cleanup = cleanupPackageChain pkg"
  shows "same_files st (remove_from_package pkg path cleanup st)"
    and "let w = (desc_at st)(pkg \<mapsto> PackageD (filter (\<lambda>g. file_path g \<noteq> path) fs)); st' = remove_from_package pkg path cleanup st
      in desc_at st' n = w n \<or> desc_at st' n = None \<and> w n = Some (PackageD []) \<and> n \<noteq> ''''"
proof -
  let ?st1 = "set_desc pkg (PackageD (filter (\<lambda>g. file_path g \<noteq> path) fs)) st"
  have eq: "remove_from_package pkg path cleanup st = cleanup ?st1"
    using assms(1) removeFileByPath_filter [OF assms(2)] by (simp add: remove_from_package_def)
  show "same_files st (remove_from_package pkg path cleanup st)"
    using assms(3) same_files_cleanup [of ?st1] unfolding eq by (auto simp: same_files_def cleanupPackageChain_def)
  show "let w = (desc_at st)(pkg \<mapsto> PackageD (filter (\<lambda>g. file_path g \<noteq> path) fs)); st' = remove_from_package pkg path cleanup st
      in desc_at st' n = w n \<or> desc_at st' n = None \<and> w n = Some (PackageD []) \<and> n \<noteq> ''''"
    using assms(3) desc_at_cleanup [of "package_chain pkg" ?st1 n] package_chain_nonempty [of pkg]
    unfolding eq Let_def by (auto simp: cleanupPackageChain_def simp del: fun_upd_apply)
qed

text \<open>Dropping names, then the file from its package, then its path, is a removal.\<close>

lemma removing_steps:
  assumes ok: "files_ok st" and f: "files_at st (file_path f) = Some [f]" and sub: "set names \<subseteq> set (top_names f)"
    and st1: "\<forall>n. desc_at st1 n = (if n \<in> set names then None else desc_at st n)" "same_files st st1"
    and cleanup: "cleanup = (\<lambda>st. st) \<or> cleanup = cleanupPackageChain (file_package f)"
    and st2: "st2 = remove_from_package (file_package f) (file_path f) cleanup st1"
    and st': "filesByPath st' = AList.delete (file_path f) (filesByPath st2)" "fileDescs st' = AList.delete (file_path f) (fileDescs st2)"
      "numFiles st' = numFiles st2 - 1" "descsByName st' = descsByName st2"
  shows "removing f names st st'"
proof -
  from ok have n: "names_ok st" and packs: "packages_ok st" by (simp_all add: files_ok_def)
  from packages_okD [OF packs f] obtain fs where fs: "desc_at st (file_package f) = Some (PackageD fs)" ..
  with declared [OF n f] sub have notin: "file_package f \<notin> set names" by fastforce
  with fs st1(1) have fs1: "desc_at st1 (file_package f) = Some (PackageD fs)" by simp
  have dist: "distinct (map file_path fs)" and listed: "listed st (file_package f) = fs"
    using fs packs by (auto simp: packages_ok_def listed_def)
  note eff = remove_from_package_effect [OF fs1 dist cleanup]
  have "same_files st1 st2" using eff(1) by (simp add: st2)
  moreover have "if m \<in> set names then desc_at st' m = None
      else desc_at st' m = without f st m \<or> desc_at st' m = None \<and> without f st m = Some (PackageD []) \<and> m \<noteq> ''''" for m
    using eff(2) [of "file_path f" m] st1(1) notin unfolding st2 [symmetric] Let_def st'(4) without_def listed
    by (cases "m = file_package f") (auto simp: listed split: if_splits)
  ultimately have "removed f names st st'" using st1(2) st'(1-3) unfolding removed_def same_files_def by simp
  with ok f sub show ?thesis by (simp add: removing_def)
qed

lemma record_file:
  assumes "files_ok st" and "record_at st p = Some old"
  shows "\<exists>f. files_at st p = Some [f] \<and> file_path f = p \<and> wf_file f \<and> old = record_of f"
  using assms by (fastforce simp: files_ok_def paths_ok_def)

lemma removing_all_ok: "removing f (top_names f) st st' \<Longrightarrow> files_ok st'"
  using removing_paths_ok removing_names_ok removing_packages_ok removing_no_stale [of f "top_names f" st st'] by (simp add: files_ok_def)

lemma unregister_file_ok:
  assumes "files_ok st" and "unregister_file p st = (x, st')"
  shows "files_ok st'" and "files_at st p = None \<Longrightarrow> x = Inl NotFound \<and> st' = st"
    and "files_at st p \<noteq> None \<Longrightarrow> x = Inr () \<and> files_at st' = (files_at st)(p := None)"
proof -
  have rec: "record_at st p = None \<longleftrightarrow> files_at st p = None" using assms(1) by (simp add: files_ok_def paths_ok_def)
  then show "files_at st p = None \<Longrightarrow> x = Inl NotFound \<and> st' = st" using assms(2) by (simp add: unregister_file_def)
  have main: "x = Inr () \<and> files_ok st' \<and> files_at st' = (files_at st)(p := None)" if "record_at st p = Some old" for old
  proof -
    from record_file [OF assms(1) that] obtain f where f: "files_at st p = Some [f]" "file_path f = p" "old = record_of f" by blast
    let ?st1 = "fold delete_desc (top_names f) st"
    let ?st2 = "remove_from_package (file_package f) (file_path f) (cleanupPackageChain (file_package f)) ?st1"
    let ?st' = "?st2\<lparr>filesByPath := AList.delete p (filesByPath ?st2), fileDescs := AList.delete p (fileDescs ?st2), numFiles := numFiles ?st2 - 1\<rparr>"
    have run: "x = Inr ()" "st' = ?st'" using assms(2) that f by (simp_all add: unregister_file_def Let_def record_of_def)
    have r: "removing f (top_names f) st st'"
      by (rule removing_steps [OF assms(1) _ _ _ same_files_drop_all _ refl]) (use f in \<open>simp_all add: run(2) desc_at_drop_all\<close>)
    then have "removed f (top_names f) st st'" by (simp add: removing_def)
    from removing_all_ok [OF r] removedD(1) [OF this] run(1) f(2) show ?thesis by simp
  qed
  then show "files_at st p \<noteq> None \<Longrightarrow> x = Inr () \<and> files_at st' = (files_at st)(p := None)" using rec by auto
  show "files_ok st'"
  proof (cases "record_at st p")
    case None
    with assms show ?thesis by (simp add: unregister_file_def)
  qed (use main in blast)
qed

section \<open>Update\<close>

text \<open>An update that takes no name or package of another file.\<close>

definition update_conflict_free :: "files_state \<Rightarrow> file_desc \<Rightarrow> bool" where
  "update_conflict_free st file \<longleftrightarrow> package_conflict st file = None \<and>
     list_all (\<lambda>n. case desc_at st n of
         None \<Rightarrow> True
       | Some (PackageD _) \<Rightarrow> False
       | Some (TopD _) \<Rightarrow> (case record_at st (file_path file) of Some old \<Rightarrow> n \<in> set (fr_names old) | None \<Rightarrow> False)) (top_names file)"

lemma removing_ready:
  assumes "removing f names st st'" and "wf_file file" and "file_path file = file_path f" and "update_conflict_free st file"
    and "set (top_names f) - set names \<subseteq> set (top_names file)"
  shows "ready file st'"
proof -
  from assms(1) have r: "removed f names st st'" and n: "names_ok st" and p: "paths_ok st"
    and f: "files_at st (file_path f) = Some [f]" by (simp_all add: removing_def files_ok_def)
  have rec: "record_at st (file_path file) = Some (record_of f)" using p f assms(3) by (simp add: paths_ok_def)
  have clean: "\<nexists>fs. desc_at st n = Some (PackageD fs)" "desc_at st n = Some (TopD d) \<Longrightarrow> n \<in> set (top_names f)"
    if "n \<in> set (top_names file)" for n d
    using assms(4) that rec by (force simp: update_conflict_free_def list_all_iff record_of_def split: option.splits name_entry.splits)+
  have "set (top_names g) \<inter> set (top_names file) = {}" if "files_at st' q = Some [g]" for q g
  proof -
    from that have g: "files_at st q = Some [g]" "q \<noteq> file_path f" by (auto simp: removedD(1) [OF r] split: if_splits)
    with declared [OF n g(1)] clean(2) one_owner [OF n g(1) f] show ?thesis by blast
  qed
  moreover have "desc_at st' n \<noteq> Some (PackageD fs)" if "n \<in> set (top_names file)" for n fs
    using removedD(4) [OF r, of n] clean(1) [OF that] packages_okD [OF _ f] assms(1)
    by (auto simp: without_def removing_def files_ok_def split: if_splits)
  moreover have "desc_at st' n \<noteq> Some (TopD d)" if "n \<in> set (package_chain (file_package file))" for n d
    using removedD(4) [OF r, of n] no_package_conflict [of st "file" n d] that assms(4)
    by (auto simp: without_def update_conflict_free_def split: if_splits)
  moreover have "no_stale_but (top_names file) st'"
    using removing_no_stale [OF assms(1)] assms(5) unfolding no_stale_but_def by fastforce
  ultimately show ?thesis using assms(2,3) removing_paths_ok [OF assms(1)] removing_names_ok [OF assms(1)] removing_packages_ok [OF assms(1)]
    unfolding ready_def by (simp add: removedD(1) [OF r])
qed

lemma drop_previous_removing:
  assumes "files_ok st" and "files_at st (file_path file) = Some [f]" and "file_path f = file_path file"
  shows "removing f (filter (\<lambda>n. n \<notin> set (top_names file)) (top_names f)) st (drop_previous file (record_of f) st)"
proof -
  let ?names = "filter (\<lambda>n. n \<notin> set (top_names file)) (top_names f)"
  let ?st1 = "fold (\<lambda>n st. if n \<in> set (top_names file) then st else delete_desc n st) (top_names f) st"
  let ?cleanup = "if file_package f = file_package file then (\<lambda>st. st) else cleanupPackageChain (file_package f)"
  let ?st2 = "remove_from_package (file_package f) (file_path f) ?cleanup ?st1"
  have d: "\<forall>n. desc_at ?st1 n = (if n \<in> set ?names then None else desc_at st n)" by (simp add: desc_at_drop)
  have swap: "remove_from_package pkg p (\<lambda>st. st) (st\<lparr>filesByPath := a, fileDescs := b\<rparr>) =
      (remove_from_package pkg p (\<lambda>st. st) st)\<lparr>filesByPath := a, fileDescs := b\<rparr>" for pkg p st a b
    by (simp add: remove_from_package_def set_desc_def split: option.splits name_entry.splits)
  have eff: "same_files st (remove_from_package pkg p (\<lambda>st. st) st)" for pkg p st
    by (simp add: remove_from_package_def same_files_def split: option.splits name_entry.splits)
  have e: "drop_previous file (record_of f) st = ?st2\<lparr>filesByPath := AList.delete (file_path f) (filesByPath ?st2),
      fileDescs := AList.delete (file_path f) (fileDescs ?st2), numFiles := numFiles ?st2 - 1\<rparr>"
    using eff [of ?st1 "file_package f" "file_path f"] assms(3)
    by (cases "file_package f = file_package file") (simp_all add: drop_previous_def record_of_def Let_def swap same_files_def)
  show ?thesis by (rule removing_steps [OF assms(1) _ _ d same_files_drop _ refl]) (use assms in \<open>auto simp: e\<close>)
qed

lemma update_file_ok:
  assumes "files_ok st" and "wf_file file" and "update_conflict_free st file" and "update_file file st = (x, st')"
  shows "x = Inr ()" and "files_ok st'" and "files_at st' = (files_at st)(file_path file \<mapsto> [file])"
proof -
  have "x = Inr () \<and> files_ok st' \<and> files_at st' = (files_at st)(file_path file \<mapsto> [file])"
  proof (cases "record_at st (file_path file)")
    case None
    with assms(1) have "files_at st (file_path file) = None" by (simp add: files_ok_def paths_ok_def)
    moreover from assms(3) None have "name_conflict st file = None" "package_conflict st file = None"
      by (auto simp: update_conflict_free_def name_conflict_def find_None_iff list_all_iff split: option.splits name_entry.splits)
        (metis name_entry.exhaust not_None_eq)
    ultimately have "ready file st" by (intro register_ready assms)
    from insert_ok [OF this] assms(4) None show ?thesis by (auto simp: update_file_def)
  next
    case (Some old)
    from record_file [OF assms(1) Some] obtain f where f: "files_at st (file_path file) = Some [f]" "file_path f = file_path file"
      "old = record_of f" by blast
    let ?st1 = "drop_previous file old st"
    note r = drop_previous_removing [OF assms(1) f(1,2), folded f(3)]
    have "ready file ?st1" by (rule removing_ready [OF r assms(2) _ assms(3)]) (use f in auto)
    moreover have "files_at ?st1 = (files_at st)(file_path f := None)" using r unfolding removing_def by (blast dest: removedD(1))
    ultimately show ?thesis using insert_ok [of "file" ?st1] assms(4) Some f(2) by (auto simp: update_file_def)
  qed
  then show "x = Inr ()" "files_ok st'" "files_at st' = (files_at st)(file_path file \<mapsto> [file])" by simp_all
qed

section \<open>The views\<close>

lemma ranged_iff:
  assumes "paths_ok st"
  shows "(p, fs) \<in> set (filesByPath st) \<longleftrightarrow> files_at st p = Some fs"
    and "f \<in> set (concat (map snd (filesByPath st))) \<longleftrightarrow> files_at st (file_path f) = Some [f]"
proof -
  have d: "distinct (map fst (filesByPath st))" using assms by (simp add: paths_ok_def)
  show e: "(p, fs) \<in> set (filesByPath st) \<longleftrightarrow> files_at st p = Some fs" for p fs by (metis d map_of_SomeD map_of_is_SomeI)
  show "f \<in> set (concat (map snd (filesByPath st))) \<longleftrightarrow> files_at st (file_path f) = Some [f]"
  proof
    assume "f \<in> set (concat (map snd (filesByPath st)))"
    then obtain p fs where p: "files_at st p = Some fs" "f \<in> set fs" by (auto simp: e)
    with paths_okD [OF assms p(1)] show "files_at st (file_path f) = Some [f]" by auto
  next
    assume "files_at st (file_path f) = Some [f]"
    with e [of "file_path f" "[f]"] show "f \<in> set (concat (map snd (filesByPath st)))" by force
  qed
qed

lemma ranged_paths:
  assumes "paths_ok st"
  shows "map file_path (concat (map snd (filesByPath st))) = map fst (filesByPath st)"
proof -
  have "map file_path (concat (map snd al)) = map fst al" if "\<forall>(p, fs) \<in> set al. \<exists>f. fs = [f] \<and> file_path f = p" for al :: "(string \<times> file_desc list) list"
    using that by (induction al) auto
  moreover have "\<forall>(p, fs) \<in> set (filesByPath st). \<exists>f. fs = [f] \<and> file_path f = p"
    using ranged_iff(1) [OF assms] paths_okD [OF assms] by fastforce
  ultimately show ?thesis by blast
qed

lemma unseen_files_seen: "set (snd (unseen_files al seen)) = set seen \<union> fst ` set al"
  by (induction al seen rule: unseen_files.induct) (auto split: prod.splits, metis fst_conv image_eqI)

lemma unseen_files_out:
  "distinct (map fst al) \<Longrightarrow> fst (unseen_files al seen) = concat (map snd (filter (\<lambda>(p, _). p \<notin> set seen) al))"
proof (induction al arbitrary: seen)
  case (Cons a al)
  obtain p fs where a: "a = (p, fs)" by (cases a)
  with Cons.prems have "filter (\<lambda>(q, _). q \<notin> set (p # seen)) al = filter (\<lambda>(q, _). q \<notin> set seen) al"
    by (intro filter_cong) force+
  with Cons.IH [of "p # seen"] Cons.IH [of seen] Cons.prems a show ?case
    by (cases "unseen_files al (p # seen)") simp
qed simp

lemma FindFileByPath_local:
  assumes "paths_ok st"
  shows "FindFileByPath (LocalFiles st # chain) p = (case files_at st p of Some fs \<Rightarrow> Inr (hd fs) | None \<Rightarrow> FindFileByPath chain p)"
  by (auto split: option.splits dest: paths_okD [OF assms])

lemma rangeFilesAll_iff:
  assumes "list_all paths_ok sts"
  shows "f \<in> set (rangeFilesAll (map LocalFiles sts) seen) \<longleftrightarrow>
    FindFileByPath (map LocalFiles sts) (file_path f) = Inr f \<and> file_path f \<notin> set seen"
  using assms
proof (induction sts arbitrary: seen)
  case (Cons st sts)
  then have ok: "paths_ok st" and d: "distinct (map fst (filesByPath st))" by (simp_all add: paths_ok_def)
  obtain out seen' where u: "unseen_files (filesByPath st) seen = (out, seen')" by (cases "unseen_files (filesByPath st) seen")
  from unseen_files_out [OF d, of seen] u have "f \<in> set out \<longleftrightarrow> file_path f \<notin> set seen \<and> files_at st (file_path f) = Some [f]"
    using ranged_iff(1) [OF ok] paths_okD [OF ok] by fastforce
  moreover from unseen_files_seen [of "filesByPath st" seen] u
  have "file_path f \<notin> set seen' \<longleftrightarrow> file_path f \<notin> set seen \<and> files_at st (file_path f) = None" by (auto simp: map_of_eq_None_iff)
  ultimately show ?case using Cons.IH [of seen'] Cons.prems paths_okD [OF ok, of "file_path f"]
    by (auto simp: u FindFileByPath_local [OF ok] split: option.splits)
qed simp

lemma FindDescriptorByName_top:
  assumes "files_ok st" and "files_at st p = Some [f]" and "d \<in> set (topLevelDescriptors f)"
  shows "FindDescriptorByName (LocalFiles st # chain) (desc_full_name d) = Inr d"
proof -
  have e: "desc_at st (desc_full_name d) = Some (TopD d)" using assms by (auto simp: files_ok_def names_ok_def)
  moreover have "desc_full_name d \<noteq> ''''" using e assms(1) by (auto simp: files_ok_def packages_ok_def)
  ultimately have "findDescriptorByNameLocal st (desc_full_name d) = Some d"
    unfolding findDescriptorByNameLocal_def by (subst find_from.simps) (simp add: at_prefix_def)
  then show ?thesis by simp
qed

lemma listed_all:
  assumes "files_ok st"
  shows "set (RangeFilesByPackage (LocalFiles st # chain) pkg) = {f \<in> set (RangeFiles (LocalFiles st # chain)). file_package f = pkg}"
proof -
  from assms have packs: "packages_ok st" and paths: "paths_ok st" by (simp_all add: files_ok_def)
  have "RangeFilesByPackage (LocalFiles st # chain) pkg = listed st pkg" by (simp add: listed_def)
  moreover have "f \<in> set (listed st pkg) \<longleftrightarrow> files_at st (file_path f) = Some [f] \<and> file_package f = pkg" for f
  proof (cases "\<exists>d. desc_at st pkg = Some (TopD d)")
    case True
    then show ?thesis using packages_okD [OF packs, of "file_path f" f] by (auto simp: listed_def)
  qed (rule listed_iff [OF packs])
  ultimately show ?thesis using ranged_iff(2) [OF paths] by auto
qed

section \<open>Properties\<close>

text \<open>The states that registrations, updates without conflicts and removals of well-formed files lead to.\<close>

inductive files_run :: "files_state \<Rightarrow> bool" where
  new: "files_run empty_files"
| register: "files_run st \<Longrightarrow> wf_file f \<Longrightarrow> files_run (snd (register_file f st))"
| update: "files_run st \<Longrightarrow> wf_file f \<Longrightarrow> update_conflict_free st f \<Longrightarrow> files_run (snd (update_file f st))"
| unregister: "files_run st \<Longrightarrow> files_run (snd (unregister_file p st))"

lemma files_run_ok: "files_run st \<Longrightarrow> files_ok st"
proof (induction rule: files_run.induct)
  case (register st f)
  then show ?case using register_file_ok(1) by (metis prod.collapse)
next
  case (update st f)
  then show ?case using update_file_ok(2) by (metis prod.collapse)
next
  case (unregister st p)
  then show ?case using unregister_file_ok(1) by (metis prod.collapse)
qed (rule files_ok_empty)


definition file_ab :: file_desc where
  "file_ab = File ''x.proto'' ''a.b'' [] [Message ''M'' ''a.b.M'' [] [] [] [] []] [] [] []"

definition file_a :: file_desc where
  "file_a = File ''y.proto'' ''a'' [] [Message ''N'' ''a.N'' [] [] [] [] []] [] [] []"

definition file_root :: file_desc where
  "file_root = File ''z.proto'' '''' [] [Message ''a'' ''a'' [] [] [] [] []] [] [] []"

definition two_packages :: files_state where
  "two_packages = snd (register_file file_a (snd (register_file file_ab empty_files)))"

lemma two_packages_run: "files_run two_packages"
proof -
  have "wf_file file_ab" "wf_file file_a" by code_simp+
  then show ?thesis unfolding two_packages_def by (intro files_run.register files_run.new)
qed


text \<open>
  Removing the last file of a package drops its entry even if a package below it has files: afterwards a file may declare
  a message of the name of that package, which was refused before, and an update of a file of the package
  then runs into a failing type assertion.
\<close>

lemma package_guard_lost:
  "isl (fst (register_file file_root two_packages)) \<and>
   (let st = snd (unregister_file ''y.proto'' two_packages) in
    fst (register_file file_root st) = Inr () \<and>
    fst (update_file file_a (snd (register_file file_root st))) = Inl (Errorf ''panic: interface conversion''))"
  by code_simp

end
