(* ===== verification/Ns_Types.thy ===== *)
theory Ns_Types
  imports Ns_Files
begin

text \<open>
  \<^verbatim>\<open>nsregistry/namespace.go\<close>, the type half: the registry of message, enum and extension types by name, and of
  extensions by the message and number they extend, with a fallback to a parent; and the pairs of registries
  that make a namespace.
\<close>

section \<open>State\<close>

record types_state =
  typesByName :: "(string \<times> pbtype) list"
  extensionsByMessage :: "(string \<times> (int \<times> ext_desc) list) list"
  numEnums :: int
  numMessages :: int
  numExtensions :: int

text \<open>The functions of the global type registry that the wrapper delegates to.\<close>

record global_types =
  gt_FindEnumByName :: "string \<Rightarrow> enum_desc result"
  gt_FindMessageByName :: "string \<Rightarrow> message_desc result"
  gt_FindMessageByURL :: "string \<Rightarrow> message_desc result"
  gt_FindExtensionByName :: "string \<Rightarrow> ext_desc result"
  gt_FindExtensionByNumber :: "string \<Rightarrow> int \<Rightarrow> ext_desc result"
  gt_RangeEnums :: "enum_desc list"
  gt_RangeMessages :: "message_desc list"
  gt_RangeExtensions :: "ext_desc list"
  gt_RangeExtensionsByMessage :: "string \<Rightarrow> ext_desc list"

datatype types_tier = LocalTypes types_state | GlobalTypes global_types

type_synonym types_chain = "types_tier list"

definition empty_types :: types_state where
  "empty_types = \<lparr>typesByName = [], extensionsByMessage = [], numEnums = 0, numMessages = 0, numExtensions = 0\<rparr>"

definition NewNamespacedTypes :: "types_chain \<Rightarrow> types_chain" where
  "NewNamespacedTypes parent = LocalTypes empty_types # parent"

record ns_pair =
  np_Files :: files_chain
  np_Types :: types_chain

definition NewNamespace :: "ns_pair option \<Rightarrow> ns_pair" where
  "NewNamespace parent =
     (case parent of
        None \<Rightarrow> \<lparr>np_Files = NewNamespacedFiles [], np_Types = NewNamespacedTypes []\<rparr>
      | Some p \<Rightarrow> \<lparr>np_Files = NewNamespacedFiles (np_Files p), np_Types = NewNamespacedTypes (np_Types p)\<rparr>)"

definition NewRootNamespace :: ns_pair where
  "NewRootNamespace = NewNamespace None"

definition NewNamespaceOverGlobal :: "global_files \<Rightarrow> global_types \<Rightarrow> ns_pair" where
  "NewNamespaceOverGlobal gf gt =
     \<lparr>np_Files = NewNamespacedFiles [GlobalFiles gf], np_Types = NewNamespacedTypes [GlobalTypes gt]\<rparr>"

section \<open>Writing\<close>

definition writing_types :: "string \<Rightarrow> (types_state, unit) act \<Rightarrow> (types_tier, unit) act" where
  "writing_types verb m tier =
     (case tier of
        GlobalTypes g \<Rightarrow> (Inl (Errorf (''nsregistry: cannot '' @ verb @ '' types on read-only global namespace'')), tier)
      | LocalTypes st \<Rightarrow> (case m st of (x, st') \<Rightarrow> (x, LocalTypes st')))"

definition set_type :: "string \<Rightarrow> pbtype \<Rightarrow> types_state \<Rightarrow> types_state" where
  "set_type name t st = st\<lparr>typesByName := AList.update name t (typesByName st)\<rparr>"

definition delete_type :: "string \<Rightarrow> types_state \<Rightarrow> types_state" where
  "delete_type name st = st\<lparr>typesByName := AList.delete name (typesByName st)\<rparr>"

definition exts_of :: "types_state \<Rightarrow> string \<Rightarrow> (int \<times> ext_desc) list" where
  "exts_of st message = (case map_of (extensionsByMessage st) message of None \<Rightarrow> [] | Some exts \<Rightarrow> exts)"

definition set_extension :: "ext_desc \<Rightarrow> types_state \<Rightarrow> types_state" where
  "set_extension x st = st\<lparr>extensionsByMessage :=
     AList.update (ext_message x) (AList.update (ext_number x) x (exts_of st (ext_message x))) (extensionsByMessage st)\<rparr>"

definition delete_extension :: "ext_desc \<Rightarrow> types_state \<Rightarrow> types_state" where
  "delete_extension x st =
     (case map_of (extensionsByMessage st) (ext_message x) of
        None \<Rightarrow> st
      | Some exts \<Rightarrow>
         (let exts = AList.delete (ext_number x) exts
          in if exts = [] then st\<lparr>extensionsByMessage := AList.delete (ext_message x) (extensionsByMessage st)\<rparr>
             else st\<lparr>extensionsByMessage := AList.update (ext_message x) exts (extensionsByMessage st)\<rparr>))"

definition register_message :: "message_desc \<Rightarrow> (types_state, unit) act" where
  "register_message md st =
     (let name = msg_full_name md in
      if map_of (typesByName st) name \<noteq> None then (Inl (Errorf (''nsregistry: message '' @ name @ '' is already registered'')), st)
      else (Inr (), (set_type name (MessageType md) st)\<lparr>numMessages := numMessages st + 1\<rparr>))"

definition RegisterMessage :: "message_desc \<Rightarrow> (types_tier, unit) act" where
  "RegisterMessage md = writing_types ''register'' (register_message md)"

definition update_message :: "message_desc \<Rightarrow> (types_state, unit) act" where
  "update_message md st =
     (let name = msg_full_name md;
          st = (if map_of (typesByName st) name = None then st\<lparr>numMessages := numMessages st + 1\<rparr> else st)
      in (Inr (), set_type name (MessageType md) st))"

definition UpdateMessage :: "message_desc \<Rightarrow> (types_tier, unit) act" where
  "UpdateMessage md = writing_types ''update'' (update_message md)"

definition unregister_message :: "string \<Rightarrow> (types_state, unit) act" where
  "unregister_message name st =
     (case map_of (typesByName st) name of
        Some (MessageType _) \<Rightarrow> (Inr (), (delete_type name st)\<lparr>numMessages := numMessages st - 1\<rparr>)
      | _ \<Rightarrow> (Inl NotFound, st))"

definition UnregisterMessage :: "string \<Rightarrow> (types_tier, unit) act" where
  "UnregisterMessage name = writing_types ''unregister'' (unregister_message name)"

definition register_enum :: "enum_desc \<Rightarrow> (types_state, unit) act" where
  "register_enum ed st =
     (let name = en_full_name ed in
      if map_of (typesByName st) name \<noteq> None then (Inl (Errorf (''nsregistry: enum '' @ name @ '' is already registered'')), st)
      else (Inr (), (set_type name (EnumType ed) st)\<lparr>numEnums := numEnums st + 1\<rparr>))"

definition RegisterEnum :: "enum_desc \<Rightarrow> (types_tier, unit) act" where
  "RegisterEnum ed = writing_types ''register'' (register_enum ed)"

definition update_enum :: "enum_desc \<Rightarrow> (types_state, unit) act" where
  "update_enum ed st =
     (let name = en_full_name ed;
          st = (if map_of (typesByName st) name = None then st\<lparr>numEnums := numEnums st + 1\<rparr> else st)
      in (Inr (), set_type name (EnumType ed) st))"

definition UpdateEnum :: "enum_desc \<Rightarrow> (types_tier, unit) act" where
  "UpdateEnum ed = writing_types ''update'' (update_enum ed)"

definition unregister_enum :: "string \<Rightarrow> (types_state, unit) act" where
  "unregister_enum name st =
     (case map_of (typesByName st) name of
        Some (EnumType _) \<Rightarrow> (Inr (), (delete_type name st)\<lparr>numEnums := numEnums st - 1\<rparr>)
      | _ \<Rightarrow> (Inl NotFound, st))"

definition UnregisterEnum :: "string \<Rightarrow> (types_tier, unit) act" where
  "UnregisterEnum name = writing_types ''unregister'' (unregister_enum name)"

definition register_extension :: "ext_desc \<Rightarrow> (types_state, unit) act" where
  "register_extension xd st =
     (let name = ext_full_name xd in
      if map_of (typesByName st) name \<noteq> None then (Inl (Errorf (''nsregistry: extension '' @ name @ '' is already registered'')), st)
      else if map_of (exts_of st (ext_message xd)) (ext_number xd) \<noteq> None
      then (Inl (Errorf (''nsregistry: extension number '' @ fmt_int (ext_number xd) @ '' is already registered on message '' @ ext_message xd)), st)
      else (Inr (), (set_extension xd (set_type name (ExtensionType xd) st))\<lparr>numExtensions := numExtensions st + 1\<rparr>))"

definition RegisterExtension :: "ext_desc \<Rightarrow> (types_tier, unit) act" where
  "RegisterExtension xd = writing_types ''register'' (register_extension xd)"

definition update_extension :: "ext_desc \<Rightarrow> (types_state, unit) act" where
  "update_extension xd st =
     (let name = ext_full_name xd;
          st = (if map_of (typesByName st) name = None then st\<lparr>numExtensions := numExtensions st + 1\<rparr> else st)
      in (Inr (), set_extension xd (set_type name (ExtensionType xd) st)))"

definition UpdateExtension :: "ext_desc \<Rightarrow> (types_tier, unit) act" where
  "UpdateExtension xd = writing_types ''update'' (update_extension xd)"

definition unregister_extension :: "string \<Rightarrow> (types_state, unit) act" where
  "unregister_extension name st =
     (case map_of (typesByName st) name of
        Some (ExtensionType xd) \<Rightarrow> (Inr (), (delete_extension xd (delete_type name st))\<lparr>numExtensions := numExtensions st - 1\<rparr>)
      | _ \<Rightarrow> (Inl NotFound, st))"

definition UnregisterExtension :: "string \<Rightarrow> (types_tier, unit) act" where
  "UnregisterExtension name = writing_types ''unregister'' (unregister_extension name)"

section \<open>Reading\<close>

fun typeName :: "pbtype \<Rightarrow> string" where
  "typeName (EnumType _) = ''enum''"
| "typeName (MessageType _) = ''message''"
| "typeName (ExtensionType _) = ''extension''"

definition wrong_type :: "pbtype \<Rightarrow> string \<Rightarrow> error" where
  "wrong_type v want = Errorf (''nsregistry: found wrong type: got '' @ typeName v @ '', want '' @ want)"

fun FindEnumByName :: "types_chain \<Rightarrow> string \<Rightarrow> enum_desc result" where
  "FindEnumByName [] name = Inl NotFound"
| "FindEnumByName (GlobalTypes g # parents) name = gt_FindEnumByName g name"
| "FindEnumByName (LocalTypes st # parents) name =
     (case map_of (typesByName st) name of
        Some (EnumType e) \<Rightarrow> Inr e
      | Some v \<Rightarrow> Inl (wrong_type v ''enum'')
      | None \<Rightarrow> FindEnumByName parents name)"

fun FindMessageByName :: "types_chain \<Rightarrow> string \<Rightarrow> message_desc result" where
  "FindMessageByName [] name = Inl NotFound"
| "FindMessageByName (GlobalTypes g # parents) name = gt_FindMessageByName g name"
| "FindMessageByName (LocalTypes st # parents) name =
     (case map_of (typesByName st) name of
        Some (MessageType m) \<Rightarrow> Inr m
      | Some v \<Rightarrow> Inl (wrong_type v ''message'')
      | None \<Rightarrow> FindMessageByName parents name)"

text \<open>What follows the last slash of a type URL, the whole text if there is none.\<close>

definition url_name :: "string \<Rightarrow> string" where
  "url_name url = rev (takeWhile (\<lambda>c. c \<noteq> CHR ''/'') (rev url))"

fun FindMessageByURL :: "types_chain \<Rightarrow> string \<Rightarrow> message_desc result" where
  "FindMessageByURL [] url = Inl NotFound"
| "FindMessageByURL (GlobalTypes g # parents) url = gt_FindMessageByURL g url"
| "FindMessageByURL (LocalTypes st # parents) url =
     (case map_of (typesByName st) (url_name url) of
        Some (MessageType m) \<Rightarrow> Inr m
      | Some v \<Rightarrow> Inl (wrong_type v ''message'')
      | None \<Rightarrow> FindMessageByURL parents url)"

fun FindExtensionByName :: "types_chain \<Rightarrow> string \<Rightarrow> ext_desc result" where
  "FindExtensionByName [] name = Inl NotFound"
| "FindExtensionByName (GlobalTypes g # parents) name = gt_FindExtensionByName g name"
| "FindExtensionByName (LocalTypes st # parents) name =
     (case map_of (typesByName st) name of
        Some (ExtensionType x) \<Rightarrow> Inr x
      | Some v \<Rightarrow> Inl (wrong_type v ''extension'')
      | None \<Rightarrow> FindExtensionByName parents name)"

fun FindExtensionByNumber :: "types_chain \<Rightarrow> string \<Rightarrow> int \<Rightarrow> ext_desc result" where
  "FindExtensionByNumber [] message number = Inl NotFound"
| "FindExtensionByNumber (GlobalTypes g # parents) message number = gt_FindExtensionByNumber g message number"
| "FindExtensionByNumber (LocalTypes st # parents) message number =
     (case map_of (exts_of st message) number of Some x \<Rightarrow> Inr x | None \<Rightarrow> FindExtensionByNumber parents message number)"

fun RangeMessages :: "types_chain \<Rightarrow> message_desc list" where
  "RangeMessages [] = []"
| "RangeMessages (GlobalTypes g # parents) = gt_RangeMessages g"
| "RangeMessages (LocalTypes st # parents) = concat (map (\<lambda>(_, t). case t of MessageType m \<Rightarrow> [m] | _ \<Rightarrow> []) (typesByName st))"

fun RangeEnums :: "types_chain \<Rightarrow> enum_desc list" where
  "RangeEnums [] = []"
| "RangeEnums (GlobalTypes g # parents) = gt_RangeEnums g"
| "RangeEnums (LocalTypes st # parents) = concat (map (\<lambda>(_, t). case t of EnumType e \<Rightarrow> [e] | _ \<Rightarrow> []) (typesByName st))"

fun RangeExtensions :: "types_chain \<Rightarrow> ext_desc list" where
  "RangeExtensions [] = []"
| "RangeExtensions (GlobalTypes g # parents) = gt_RangeExtensions g"
| "RangeExtensions (LocalTypes st # parents) = concat (map (\<lambda>(_, t). case t of ExtensionType x \<Rightarrow> [x] | _ \<Rightarrow> []) (typesByName st))"

fun RangeExtensionsByMessage :: "types_chain \<Rightarrow> string \<Rightarrow> ext_desc list" where
  "RangeExtensionsByMessage [] message = []"
| "RangeExtensionsByMessage (GlobalTypes g # parents) message = gt_RangeExtensionsByMessage g message"
| "RangeExtensionsByMessage (LocalTypes st # parents) message = map snd (exts_of st message)"

fun NumEnums :: "types_chain \<Rightarrow> int" where
  "NumEnums [] = 0"
| "NumEnums (GlobalTypes g # parents) = int (length (gt_RangeEnums g))"
| "NumEnums (LocalTypes st # parents) = numEnums st"

fun NumMessages :: "types_chain \<Rightarrow> int" where
  "NumMessages [] = 0"
| "NumMessages (GlobalTypes g # parents) = int (length (gt_RangeMessages g))"
| "NumMessages (LocalTypes st # parents) = numMessages st"

fun NumExtensions :: "types_chain \<Rightarrow> int" where
  "NumExtensions [] = 0"
| "NumExtensions (GlobalTypes g # parents) = int (length (gt_RangeExtensions g))"
| "NumExtensions (LocalTypes st # parents) = numExtensions st"

fun NumExtensionsByMessage :: "types_chain \<Rightarrow> string \<Rightarrow> int" where
  "NumExtensionsByMessage [] message = 0"
| "NumExtensionsByMessage (GlobalTypes g # parents) message = int (length (gt_RangeExtensionsByMessage g message))"
| "NumExtensionsByMessage (LocalTypes st # parents) message = int (length (exts_of st message))"

end
