(* ===== verification/Ns_Types_Facts.thy ===== *)
theory Ns_Types_Facts
  imports Ns_Types
begin

text \<open>
  The representation invariant of the type registry: every type is stored under its own name, the extension table is
  the extensions among the types, and the counters count. Registration and removal keep it; an update
  keeps it if it replaces a type by one of the same kind and, for an extension, the same message and number.
\<close>

section \<open>Picking from an association list\<close>

definition pick :: "('v \<Rightarrow> 'a list) \<Rightarrow> ('k \<times> 'v) list \<Rightarrow> 'a list" where
  "pick p al = concat (map (\<lambda>(_, v). p v) al)"

lemma pick_simps [simp]: "pick p [] = []" "pick p ((k, v) # al) = p v @ pick p al"
  by (simp_all add: pick_def)

lemma pick_update_new: "k \<notin> fst ` set al \<Longrightarrow> pick p (AList.update k v al) = pick p al @ p v"
  by (induction al) auto

lemma length_pick_replace:
  "map_of al k = Some u \<Longrightarrow> length (pick p (AList.update k v al)) + length (p u) = length (pick p al) + length (p v)"
  by (induction al) (auto split: if_splits)

lemma length_pick_delete:
  "distinct (map fst al) \<Longrightarrow> map_of al k = Some u \<Longrightarrow> length (pick p (AList.delete k al)) + length (p u) = length (pick p al)"
  by (induction al) (auto simp: delete_id split: if_splits)

lemma pick_mem: "distinct (map fst al) \<Longrightarrow> x \<in> set (pick p al) \<longleftrightarrow> (\<exists>k v. map_of al k = Some v \<and> x \<in> set (p v))"
  by (force simp: pick_def)

section \<open>The invariant\<close>

abbreviation type_at :: "types_state \<Rightarrow> string \<Rightarrow> pbtype option" where
  "type_at st \<equiv> map_of (typesByName st)"

abbreviation ext_at :: "types_state \<Rightarrow> string \<Rightarrow> int \<Rightarrow> ext_desc option" where
  "ext_at st m \<equiv> map_of (exts_of st m)"

fun message_list :: "pbtype \<Rightarrow> message_desc list" where
  "message_list (MessageType m) = [m]" | "message_list (EnumType e) = []" | "message_list (ExtensionType x) = []"

fun enum_list :: "pbtype \<Rightarrow> enum_desc list" where
  "enum_list (MessageType m) = []" | "enum_list (EnumType e) = [e]" | "enum_list (ExtensionType x) = []"

fun ext_list :: "pbtype \<Rightarrow> ext_desc list" where
  "ext_list (MessageType m) = []" | "ext_list (EnumType e) = []" | "ext_list (ExtensionType x) = [x]"

definition keyed :: "types_state \<Rightarrow> bool" where
  "keyed st \<longleftrightarrow> distinct (map fst (typesByName st)) \<and> (\<forall>n t. type_at st n = Some t \<longrightarrow> type_full_name t = n)"

definition counted :: "types_state \<Rightarrow> bool" where
  "counted st \<longleftrightarrow> numMessages st = int (length (pick message_list (typesByName st))) \<and>
     numEnums st = int (length (pick enum_list (typesByName st))) \<and>
     numExtensions st = int (length (pick ext_list (typesByName st)))"

definition numbered :: "types_state \<Rightarrow> bool" where
  "numbered st \<longleftrightarrow> (\<forall>m. distinct (map fst (exts_of st m))) \<and>
     (\<forall>m i x. ext_at st m i = Some x \<longleftrightarrow> type_at st (ext_full_name x) = Some (ExtensionType x) \<and> ext_message x = m \<and> ext_number x = i)"

definition types_ok :: "types_state \<Rightarrow> bool" where
  "types_ok st \<longleftrightarrow> keyed st \<and> counted st \<and> numbered st"

lemma types_ok_empty: "types_ok empty_types"
  by (simp add: types_ok_def keyed_def counted_def numbered_def empty_types_def exts_of_def)

section \<open>The elementary changes\<close>

lemma set_type_maps [simp]:
  "typesByName (set_type n t st) = AList.update n t (typesByName st)" "exts_of (set_type n t st) = exts_of st"
  "typesByName (set_extension x st) = typesByName st"
  "typesByName (delete_type n st) = AList.delete n (typesByName st)" "exts_of (delete_type n st) = exts_of st"
  "typesByName (delete_extension x st) = typesByName st"
  by (simp_all add: set_type_def delete_type_def set_extension_def delete_extension_def exts_of_def fun_eq_iff Let_def split: option.splits)

lemma set_type_counters [simp]:
  "numMessages (set_type n t st) = numMessages st" "numEnums (set_type n t st) = numEnums st" "numExtensions (set_type n t st) = numExtensions st"
  "numMessages (delete_type n st) = numMessages st" "numEnums (delete_type n st) = numEnums st" "numExtensions (delete_type n st) = numExtensions st"
  "numMessages (set_extension x st) = numMessages st" "numEnums (set_extension x st) = numEnums st"
  "numExtensions (set_extension x st) = numExtensions st" "numMessages (delete_extension x st) = numMessages st"
  "numEnums (delete_extension x st) = numEnums st" "numExtensions (delete_extension x st) = numExtensions st"
  by (simp_all add: set_type_def delete_type_def set_extension_def delete_extension_def Let_def split: option.splits)

lemma exts_of_set_extension:
  "exts_of (set_extension x st) m = (if m = ext_message x then AList.update (ext_number x) x (exts_of st m) else exts_of st m)"
  by (simp add: set_extension_def exts_of_def update_conv')

lemma exts_of_delete_extension:
  "exts_of (delete_extension x st) m = (if m = ext_message x then AList.delete (ext_number x) (exts_of st m) else exts_of st m)"
  by (auto simp: delete_extension_def exts_of_def update_conv' delete_conv' Let_def split: option.splits)

lemma exts_of_counters [simp]:
  "exts_of (st\<lparr>numMessages := a\<rparr>) = exts_of st" "exts_of (st\<lparr>numEnums := a\<rparr>) = exts_of st" "exts_of (st\<lparr>numExtensions := a\<rparr>) = exts_of st"
  by (simp_all add: exts_of_def fun_eq_iff)

lemma keyed_put: "keyed st \<Longrightarrow> typesByName st' = AList.update (type_full_name t) t (typesByName st) \<Longrightarrow> keyed st'"
  by (auto simp: keyed_def distinct_update update_conv')

lemma keyed_delete: "keyed st \<Longrightarrow> typesByName st' = AList.delete n (typesByName st) \<Longrightarrow> keyed st'"
  by (auto simp: keyed_def distinct_delete delete_conv')

text \<open>The extension table after a change to types that are no extensions.\<close>

lemma numbered_others:
  assumes "numbered st" and "exts_of st' = exts_of st"
    and "\<And>x. type_at st' (ext_full_name x) = Some (ExtensionType x) \<longleftrightarrow> type_at st (ext_full_name x) = Some (ExtensionType x)"
  shows "numbered st'"
  using assms unfolding numbered_def by simp

lemma numbered_put:
  assumes "numbered st" and "exts_of st' = exts_of (set_extension x st)" and "type_at st' = (type_at st)(ext_full_name x \<mapsto> ExtensionType x)"
    and "\<forall>y. type_at st (ext_full_name x) = Some (ExtensionType y) \<longrightarrow>
       ext_full_name y = ext_full_name x \<and> ext_message y = ext_message x \<and> ext_number y = ext_number x"
    and "\<forall>y. ext_at st (ext_message x) (ext_number x) = Some y \<longrightarrow> ext_full_name y = ext_full_name x"
  shows "numbered st'"
proof -
  have "ext_at st' m i = Some y \<longleftrightarrow> type_at st' (ext_full_name y) = Some (ExtensionType y) \<and> ext_message y = m \<and> ext_number y = i" for m i y
  proof (cases "m = ext_message x \<and> i = ext_number x")
    case True
    have "ext_full_name y = ext_full_name x" if "type_at st (ext_full_name y) = Some (ExtensionType y)" "ext_message y = m" "ext_number y = i"
      using assms(1,5) that True by (auto simp: numbered_def)
    with True show ?thesis by (auto simp: assms(2,3) exts_of_set_extension update_conv')
  next
    case False
    then have "ext_at st' m i = ext_at st m i" by (auto simp: assms(2) exts_of_set_extension update_conv')
    moreover have "ext_full_name y \<noteq> ext_full_name x" if "type_at st (ext_full_name y) = Some (ExtensionType y)" "ext_message y = m" "ext_number y = i"
      using that False assms(4) by auto
    ultimately show ?thesis using assms(1) False by (auto simp: numbered_def assms(3))
  qed
  moreover have "distinct (map fst (exts_of st' m))" for m
    using assms(1) by (simp add: numbered_def assms(2) exts_of_set_extension distinct_update)
  ultimately show ?thesis by (simp add: numbered_def)
qed

lemma numbered_delete:
  assumes "numbered st" and "exts_of st' = exts_of (delete_extension x st)" and "type_at st' = (type_at st)(ext_full_name x := None)"
    and "type_at st (ext_full_name x) = Some (ExtensionType x)"
  shows "numbered st'"
proof -
  have at: "ext_at st m i = Some y \<longleftrightarrow> type_at st (ext_full_name y) = Some (ExtensionType y) \<and> ext_message y = m \<and> ext_number y = i" for m i y
    using assms(1) by (simp add: numbered_def)
  have "ext_at st' m i = Some y \<longleftrightarrow> type_at st' (ext_full_name y) = Some (ExtensionType y) \<and> ext_message y = m \<and> ext_number y = i" for m i y
  proof (cases "m = ext_message x \<and> i = ext_number x")
    case True
    with at [of "ext_message x" "ext_number x" x] assms(4) have "ext_at st m i = Some x" by simp
    then have "y = x" if "type_at st (ext_full_name y) = Some (ExtensionType y)" "ext_message y = m" "ext_number y = i"
      using at [of m i y] that by (metis option.inject)
    then have "\<not> (type_at st' (ext_full_name y) = Some (ExtensionType y) \<and> ext_message y = m \<and> ext_number y = i)"
      unfolding assms(3) by (cases "ext_full_name y = ext_full_name x") auto
    moreover have "ext_at st' m i = None" using True unfolding assms(2) by (simp add: exts_of_delete_extension delete_conv')
    ultimately show ?thesis by simp
  next
    case False
    then have "ext_at st' m i = ext_at st m i" unfolding assms(2) by (auto simp: exts_of_delete_extension delete_conv')
    moreover have "ext_full_name y \<noteq> ext_full_name x" if "type_at st (ext_full_name y) = Some (ExtensionType y)" "ext_message y = m" "ext_number y = i"
      using that False assms(4) by (metis option.inject pbtype.inject(3))
    ultimately show ?thesis using at [of m i y] unfolding assms(3) by (cases "ext_full_name y = ext_full_name x") auto
  qed
  moreover have "distinct (map fst (exts_of st' m))" for m
    using assms(1) by (simp add: numbered_def assms(2) exts_of_delete_extension distinct_delete)
  ultimately show ?thesis by (simp add: numbered_def)
qed

section \<open>The operations\<close>

lemma fresh_key: "type_at st n = None \<longleftrightarrow> n \<notin> fst ` set (typesByName st)"
  by (simp add: map_of_eq_None_iff)

lemma counted_new:
  assumes "counted st" and "type_at st (type_full_name t) = None" and "typesByName st' = AList.update (type_full_name t) t (typesByName st)"
    and "numMessages st' = numMessages st + int (length (message_list t))" "numEnums st' = numEnums st + int (length (enum_list t))"
      "numExtensions st' = numExtensions st + int (length (ext_list t))"
  shows "counted st'"
  using assms unfolding counted_def fresh_key by (simp add: pick_update_new)

lemma counted_replace:
  assumes "counted st" and "type_at st (type_full_name t) = Some u" and "typesByName st' = AList.update (type_full_name t) t (typesByName st)"
    and "length (message_list t) = length (message_list u)" "length (enum_list t) = length (enum_list u)" "length (ext_list t) = length (ext_list u)"
    and "numMessages st' = numMessages st" "numEnums st' = numEnums st" "numExtensions st' = numExtensions st"
  shows "counted st'"
proof -
  note r = length_pick_replace [OF assms(2)]
  show ?thesis using assms r [of message_list t] r [of enum_list t] r [of ext_list t] unfolding counted_def by simp
qed

lemma counted_delete:
  assumes "keyed st" and "counted st" and "type_at st n = Some u" and "typesByName st' = AList.delete n (typesByName st)"
    and "numMessages st' = numMessages st - int (length (message_list u))" "numEnums st' = numEnums st - int (length (enum_list u))"
      "numExtensions st' = numExtensions st - int (length (ext_list u))"
  shows "counted st'"
proof -
  from assms(1) have "distinct (map fst (typesByName st))" by (simp add: keyed_def)
  note d = length_pick_delete [OF this assms(3)]
  show ?thesis using assms d [of message_list] d [of enum_list] d [of ext_list] unfolding counted_def by simp
qed

lemma numbered_plain:
  assumes "numbered st" and "exts_of st' = exts_of st" and "type_at st' = (type_at st)(n := r)"
    and "\<And>x. r \<noteq> Some (ExtensionType x)" and "\<And>x. type_at st n \<noteq> Some (ExtensionType x)"
  shows "numbered st'"
  by (rule numbered_others [OF assms(1,2)]) (use assms(4,5) in \<open>auto simp: assms(3)\<close>)

text \<open>A type may take a name that is free, or replace a type of its kind; an extension must keep message and number.\<close>

fun replaceable :: "types_state \<Rightarrow> pbtype \<Rightarrow> bool" where
  "replaceable st (MessageType m) = (case type_at st (msg_full_name m) of None \<Rightarrow> True | Some (MessageType _) \<Rightarrow> True | _ \<Rightarrow> False)"
| "replaceable st (EnumType e) = (case type_at st (en_full_name e) of None \<Rightarrow> True | Some (EnumType _) \<Rightarrow> True | _ \<Rightarrow> False)"
| "replaceable st (ExtensionType x) =
     ((case type_at st (ext_full_name x) of None \<Rightarrow> True
       | Some (ExtensionType y) \<Rightarrow> ext_message y = ext_message x \<and> ext_number y = ext_number x | _ \<Rightarrow> False) \<and>
      (case ext_at st (ext_message x) (ext_number x) of None \<Rightarrow> True | Some y \<Rightarrow> ext_full_name y = ext_full_name x))"

fun update_type :: "pbtype \<Rightarrow> (types_state, unit) act" where
  "update_type (MessageType m) = update_message m"
| "update_type (EnumType e) = update_enum e"
| "update_type (ExtensionType x) = update_extension x"

fun register_type :: "pbtype \<Rightarrow> (types_state, unit) act" where
  "register_type (MessageType m) = register_message m"
| "register_type (EnumType e) = register_enum e"
| "register_type (ExtensionType x) = register_extension x"

lemmas update_defs = update_message_def update_enum_def update_extension_def
lemmas register_defs = register_message_def register_enum_def register_extension_def
lemmas unregister_defs = unregister_message_def unregister_enum_def unregister_extension_def

lemma update_type_maps:
  "fst (update_type t st) = Inr ()"
  "typesByName (snd (update_type t st)) = AList.update (type_full_name t) t (typesByName st)"
  by (cases t; simp add: update_defs Let_def)+

lemma update_type_counted:
  assumes "counted st" and "replaceable st t"
  shows "counted (snd (update_type t st))"
proof (cases "type_at st (type_full_name t)")
  case None
  show ?thesis by (rule counted_new [OF assms(1) None update_type_maps(2)]) (use None in \<open>cases t; simp add: update_defs Let_def\<close>)+
next
  case (Some u)
  show ?thesis by (rule counted_replace [OF assms(1) Some update_type_maps(2)])
      (use Some assms(2) in \<open>cases t; cases u; simp add: update_defs Let_def\<close>)+
qed

lemma update_type_ok:
  assumes "types_ok st" and "replaceable st t"
  shows "types_ok (snd (update_type t st))"
proof -
  from assms(1) have k: "keyed st" and c: "counted st" and nb: "numbered st" by (simp_all add: types_ok_def)
  have at: "type_at (snd (update_type t st)) = (type_at st)(type_full_name t \<mapsto> t)" by (simp add: update_type_maps update_conv')
  have "numbered (snd (update_type t st))"
  proof (cases t)
    case (ExtensionType x)
    have u: "\<forall>y. type_at st (ext_full_name x) = Some (ExtensionType y) \<longrightarrow>
        ext_full_name y = ext_full_name x \<and> ext_message y = ext_message x \<and> ext_number y = ext_number x"
    proof (intro allI impI)
      fix y assume y: "type_at st (ext_full_name x) = Some (ExtensionType y)"
      with k have "type_full_name (ExtensionType y) = ext_full_name x" unfolding keyed_def by blast
      with y assms(2) ExtensionType show "ext_full_name y = ext_full_name x \<and> ext_message y = ext_message x \<and> ext_number y = ext_number x"
        by simp
    qed
    have v: "\<forall>y. ext_at st (ext_message x) (ext_number x) = Some y \<longrightarrow> ext_full_name y = ext_full_name x"
      using assms(2) ExtensionType by (cases "ext_at st (ext_message x) (ext_number x)") simp_all
    have e: "exts_of (snd (update_type t st)) = exts_of (set_extension x st)"
      by (simp add: ExtensionType update_defs Let_def fun_eq_iff exts_of_set_extension)
    from at show ?thesis by (intro numbered_put [OF nb e _ u v]) (simp only: ExtensionType type_full_name.simps)
  next
    case (MessageType m)
    have "type_at st (type_full_name t) \<noteq> Some (ExtensionType x)" for x using assms(2) by (auto simp: MessageType)
    moreover have "exts_of (snd (update_type t st)) = exts_of st" by (simp add: MessageType update_defs Let_def)
    ultimately show ?thesis by (intro numbered_plain [OF nb _ at]) (simp_all add: MessageType)
  next
    case (EnumType e)
    have "type_at st (type_full_name t) \<noteq> Some (ExtensionType x)" for x using assms(2) by (auto simp: EnumType)
    moreover have "exts_of (snd (update_type t st)) = exts_of st" by (simp add: EnumType update_defs Let_def)
    ultimately show ?thesis by (intro numbered_plain [OF nb _ at]) (simp_all add: EnumType)
  qed
  with keyed_put [OF k update_type_maps(2)] update_type_counted [OF c assms(2)] show ?thesis by (simp add: types_ok_def)
qed

text \<open>A registration that succeeds is an update of a free name, and one that fails changes nothing.\<close>

lemma register_type_cases:
  "(\<exists>e. register_type t st = (Inl e, st)) \<or>
   (register_type t st = update_type t st \<and> type_at st (type_full_name t) = None \<and> replaceable st t)"
  by (cases t) (auto simp: register_defs update_defs Let_def set_type_def set_extension_def exts_of_def split: option.splits)

lemma register_type_ok:
  assumes "types_ok st"
  shows "types_ok (snd (register_type t st))"
  using register_type_cases [of t st] update_type_ok [OF assms, of t] assms by auto

lemma unregister_message_ok:
  assumes "types_ok st"
  shows "types_ok (snd (unregister_message n st))"
proof (cases "\<exists>m. type_at st n = Some (MessageType m)")
  case True
  then obtain m where m: "type_at st n = Some (MessageType m)" ..
  let ?st = "(delete_type n st)\<lparr>numMessages := numMessages st - 1\<rparr>"
  from assms have k: "keyed st" and c: "counted st" and nb: "numbered st" by (simp_all add: types_ok_def)
  have "keyed ?st" by (rule keyed_delete [OF k, of _ n]) simp
  moreover have "counted ?st" by (rule counted_delete [OF k c m]) simp_all
  moreover have "numbered ?st" by (rule numbered_plain [OF nb, of _ n None]) (simp_all add: delete_conv' m)
  ultimately show ?thesis using m by (simp add: unregister_message_def types_ok_def)
qed (use assms in \<open>auto simp: unregister_message_def split: option.splits pbtype.splits\<close>)

lemma unregister_enum_ok:
  assumes "types_ok st"
  shows "types_ok (snd (unregister_enum n st))"
proof (cases "\<exists>e. type_at st n = Some (EnumType e)")
  case True
  then obtain e where e: "type_at st n = Some (EnumType e)" ..
  let ?st = "(delete_type n st)\<lparr>numEnums := numEnums st - 1\<rparr>"
  from assms have k: "keyed st" and c: "counted st" and nb: "numbered st" by (simp_all add: types_ok_def)
  have "keyed ?st" by (rule keyed_delete [OF k, of _ n]) simp
  moreover have "counted ?st" by (rule counted_delete [OF k c e]) simp_all
  moreover have "numbered ?st" by (rule numbered_plain [OF nb, of _ n None]) (simp_all add: delete_conv' e)
  ultimately show ?thesis using e by (simp add: unregister_enum_def types_ok_def)
qed (use assms in \<open>auto simp: unregister_enum_def split: option.splits pbtype.splits\<close>)

lemma unregister_extension_ok:
  assumes "types_ok st"
  shows "types_ok (snd (unregister_extension n st))"
proof (cases "\<exists>x. type_at st n = Some (ExtensionType x)")
  case True
  then obtain x where x: "type_at st n = Some (ExtensionType x)" ..
  let ?st = "(delete_extension x (delete_type n st))\<lparr>numExtensions := numExtensions st - 1\<rparr>"
  from assms have k: "keyed st" and c: "counted st" and nb: "numbered st" by (simp_all add: types_ok_def)
  from k x have n: "ext_full_name x = n" unfolding keyed_def by (metis type_full_name.simps(3))
  have "keyed ?st" by (rule keyed_delete [OF k, of _ n]) simp
  moreover have "counted ?st" by (rule counted_delete [OF k c x]) simp_all
  moreover have "numbered ?st"
    by (rule numbered_delete [OF nb, of _ x]) (use x n in \<open>simp_all add: delete_conv' fun_eq_iff exts_of_delete_extension\<close>)
  ultimately show ?thesis using x by (simp add: unregister_extension_def types_ok_def)
qed (use assms in \<open>auto simp: unregister_extension_def split: option.splits pbtype.splits\<close>)

section \<open>Properties\<close>

inductive types_run :: "types_state \<Rightarrow> bool" where
  new: "types_run empty_types"
| register: "types_run st \<Longrightarrow> types_run (snd (register_type t st))"
| update: "types_run st \<Longrightarrow> replaceable st t \<Longrightarrow> types_run (snd (update_type t st))"
| unregister_message: "types_run st \<Longrightarrow> types_run (snd (unregister_message n st))"
| unregister_enum: "types_run st \<Longrightarrow> types_run (snd (unregister_enum n st))"
| unregister_extension: "types_run st \<Longrightarrow> types_run (snd (unregister_extension n st))"

lemma types_run_ok: "types_run st \<Longrightarrow> types_ok st"
  by (induction rule: types_run.induct)
    (simp_all add: types_ok_empty register_type_ok update_type_ok unregister_message_ok unregister_enum_ok unregister_extension_ok)

lemma range_pick:
  "RangeMessages (LocalTypes st # c) = pick message_list (typesByName st)" "RangeEnums (LocalTypes st # c) = pick enum_list (typesByName st)"
  "RangeExtensions (LocalTypes st # c) = pick ext_list (typesByName st)"
  by (auto simp: pick_def intro!: arg_cong [where f = concat] map_cong split: pbtype.splits)

lemma range_mem:
  assumes "keyed st"
  shows "m \<in> set (RangeMessages (LocalTypes st # c)) \<longleftrightarrow> type_at st (msg_full_name m) = Some (MessageType m)"
    and "e \<in> set (RangeEnums (LocalTypes st # c)) \<longleftrightarrow> type_at st (en_full_name e) = Some (EnumType e)"
    and "x \<in> set (RangeExtensions (LocalTypes st # c)) \<longleftrightarrow> type_at st (ext_full_name x) = Some (ExtensionType x)"
proof -
  have d: "distinct (map fst (typesByName st))" and k: "\<And>n t. type_at st n = Some t \<Longrightarrow> type_full_name t = n"
    using assms unfolding keyed_def by blast+
  have kinds: "m \<in> set (message_list t) \<longleftrightarrow> t = MessageType m" "e \<in> set (enum_list t) \<longleftrightarrow> t = EnumType e"
    "x \<in> set (ext_list t) \<longleftrightarrow> t = ExtensionType x" for t by (cases t; auto)+
  show "m \<in> set (RangeMessages (LocalTypes st # c)) \<longleftrightarrow> type_at st (msg_full_name m) = Some (MessageType m)"
    unfolding range_pick pick_mem [OF d] kinds using k by (metis type_full_name.simps(1))
  show "e \<in> set (RangeEnums (LocalTypes st # c)) \<longleftrightarrow> type_at st (en_full_name e) = Some (EnumType e)"
    unfolding range_pick pick_mem [OF d] kinds using k by (metis type_full_name.simps(2))
  show "x \<in> set (RangeExtensions (LocalTypes st # c)) \<longleftrightarrow> type_at st (ext_full_name x) = Some (ExtensionType x)"
    unfolding range_pick pick_mem [OF d] kinds using k by (metis type_full_name.simps(3))
qed

lemma find_local:
  "FindMessageByName [LocalTypes st] n = Inr m \<longleftrightarrow> type_at st n = Some (MessageType m)"
  "FindEnumByName [LocalTypes st] n = Inr e \<longleftrightarrow> type_at st n = Some (EnumType e)"
  "FindExtensionByName [LocalTypes st] n = Inr x \<longleftrightarrow> type_at st n = Some (ExtensionType x)"
  "FindExtensionByNumber [LocalTypes st] mn i = Inr x \<longleftrightarrow> ext_at st mn i = Some x"
  by (auto split: option.splits pbtype.splits)

text \<open>
  Property C35 (type_registry_consistent). In a type registry that was built by registering, removing and replacing types
  (by one of the same kind, an extension with the same message and number), the lookups by name of each kind
  find exactly the types the iterations of that kind yield, the counters count them, no two extensions share
  a message and number, and the lookup by number finds exactly the extensions that the lookup by name finds.
\<close>

theorem type_registry_consistent:
  assumes "types_run st"
  shows "(FindMessageByName [LocalTypes st] n = Inr m \<longleftrightarrow> m \<in> set (RangeMessages [LocalTypes st]) \<and> msg_full_name m = n) \<and>
    (FindEnumByName [LocalTypes st] n = Inr e \<longleftrightarrow> e \<in> set (RangeEnums [LocalTypes st]) \<and> en_full_name e = n) \<and>
    (FindExtensionByName [LocalTypes st] n = Inr x \<longleftrightarrow> x \<in> set (RangeExtensions [LocalTypes st]) \<and> ext_full_name x = n) \<and>
    (FindExtensionByNumber [LocalTypes st] message number = Inr x \<longleftrightarrow>
       FindExtensionByName [LocalTypes st] (ext_full_name x) = Inr x \<and> ext_message x = message \<and> ext_number x = number) \<and>
    NumMessages [LocalTypes st] = int (length (RangeMessages [LocalTypes st])) \<and>
    NumEnums [LocalTypes st] = int (length (RangeEnums [LocalTypes st])) \<and>
    NumExtensions [LocalTypes st] = int (length (RangeExtensions [LocalTypes st]))"
proof -
  from types_run_ok [OF assms] have k: "keyed st" and c: "counted st" and nb: "numbered st" by (simp_all add: types_ok_def)
  have own: "type_at st n = Some t \<Longrightarrow> type_full_name t = n" for n t using k unfolding keyed_def by blast
  have "FindMessageByName [LocalTypes st] n = Inr m \<longleftrightarrow> m \<in> set (RangeMessages [LocalTypes st]) \<and> msg_full_name m = n"
    unfolding find_local range_mem(1) [OF k] by (metis own type_full_name.simps(1))
  moreover have "FindEnumByName [LocalTypes st] n = Inr e \<longleftrightarrow> e \<in> set (RangeEnums [LocalTypes st]) \<and> en_full_name e = n"
    unfolding find_local range_mem(2) [OF k] by (metis own type_full_name.simps(2))
  moreover have "FindExtensionByName [LocalTypes st] n = Inr x \<longleftrightarrow> x \<in> set (RangeExtensions [LocalTypes st]) \<and> ext_full_name x = n"
    unfolding find_local range_mem(3) [OF k] by (metis own type_full_name.simps(3))
  moreover have "FindExtensionByNumber [LocalTypes st] message number = Inr x \<longleftrightarrow>
      FindExtensionByName [LocalTypes st] (ext_full_name x) = Inr x \<and> ext_message x = message \<and> ext_number x = number"
    unfolding find_local using nb by (simp add: numbered_def)
  ultimately show ?thesis using c unfolding counted_def range_pick NumMessages.simps NumEnums.simps NumExtensions.simps by blast
qed

definition demo_ext :: "string \<Rightarrow> int \<Rightarrow> ext_desc" where
  "demo_ext n i = \<lparr>ext_name = n, ext_full_name = n, ext_number = i, ext_message = ''M''\<rparr>"

definition demo_types :: types_state where
  "demo_types = snd (register_type (ExtensionType (demo_ext ''x'' 7)) (snd (register_type (MessageType (Message ''M'' ''M'' [] [] [] [] [])) empty_types)))"

theorem type_registry_consistent_witness:
  "FindExtensionByNumber [LocalTypes demo_types] ''M'' 7 = Inr (demo_ext ''x'' 7) \<and> NumExtensions [LocalTypes demo_types] = 1"
proof -
  have "types_run demo_types" unfolding demo_types_def by (intro types_run.intros)
  note c = type_registry_consistent [OF this, of "''x''" _ _ "demo_ext ''x'' 7" "''M''" 7]
  have "demo_ext ''x'' 7 \<in> set (RangeExtensions [LocalTypes demo_types])" "length (RangeExtensions [LocalTypes demo_types]) = 1" by code_simp+
  with c show ?thesis by (simp add: demo_ext_def)
qed

text \<open>
  An update that gives an extension another number leaves the old number in the table, where it still answers with the
  old type, also after the extension is removed.
\<close>

lemma update_leaves_stale_number:
  "let st = snd (update_extension (demo_ext ''x'' 8) demo_types) in
   FindExtensionByNumber [LocalTypes st] ''M'' 7 = Inr (demo_ext ''x'' 7) \<and>
   FindExtensionByNumber [LocalTypes (snd (unregister_extension ''x'' st))] ''M'' 7 = Inr (demo_ext ''x'' 7)"
  by code_simp

end
