(* ===== verification/Client_Snapshot.thy ===== *)
theory Client_Snapshot
  imports Ns_Types Server
begin

text \<open>
  \<^verbatim>\<open>client/snapshot.go\<close>: what the client keeps of a namespace. Each schema has a file and a type registry of its
  own, compiled from the descriptors the server sent; the namespace has an index of all names, and a pair of
  aggregate registries that every schema is folded into and taken out of. The parents of all these
  registries are the same, and are given to the lookups; here they do not matter.
\<close>

section \<open>Calls of the service\<close>

text \<open>The stub of the service: actions on the state of whatever is behind it.\<close>

record 'w conn =
  rpc_ListSchemas :: "string \<Rightarrow> string \<Rightarrow> ('w, schema_info list \<times> string) act"
  rpc_GetDescriptor :: "string \<Rightarrow> string \<Rightarrow> u64 \<Rightarrow> ('w, u64 \<times> fdproto list) act"
  rpc_GetSource :: "string \<Rightarrow> string \<Rightarrow> u64 \<Rightarrow> ('w, u64 \<times> (string \<times> bytes) list) act"
  rpc_GetNamespaceChain :: "string \<Rightarrow> ('w, string list) act"

text \<open>The stub of a client whose calls the server of this repository answers; a page size of 0 is no page size.\<close>

definition server_conn :: "server_env \<Rightarrow> authenticator \<Rightarrow> rpc_ctx \<Rightarrow> server conn" where
  "server_conn env a ctx = \<lparr>
     rpc_ListSchemas = (\<lambda>nid token. UnaryAuthInterceptor a (\<lambda>ctx. srv_ListSchemas env ctx nid 0 token) ctx ''ListSchemas''),
     rpc_GetDescriptor = (\<lambda>nid sid v. UnaryAuthInterceptor a (\<lambda>ctx. srv_GetDescriptor env ctx nid sid v) ctx ''GetDescriptor''),
     rpc_GetSource = (\<lambda>nid sid v. UnaryAuthInterceptor a (\<lambda>ctx. srv_GetSource env ctx nid sid v) ctx ''GetSource''),
     rpc_GetNamespaceChain = (\<lambda>nid. UnaryAuthInterceptor a (\<lambda>ctx. srv_GetNamespaceChain env ctx nid) ctx ''GetNamespaceChain'')\<rparr>"

section \<open>Loops\<close>

text \<open>A loop over a list whose body may fail.\<close>

fun eachA :: "('a \<Rightarrow> ('s, unit) act) \<Rightarrow> 'a list \<Rightarrow> ('s, unit) act" where
  "eachA f [] = retA ()"
| "eachA f (x # xs) = thenA (f x) (eachA f xs)"

lemma eachA_cong [fundef_cong]:
  assumes "xs = ys" and "\<And>x. x \<in> set ys \<Longrightarrow> f x = g x"
  shows "eachA f xs = eachA g ys"
  using assms by (induction ys arbitrary: xs) auto

text \<open>An action on local state, which is dropped if it fails.\<close>

definition runE :: "('s, unit) act \<Rightarrow> 's \<Rightarrow> 's result" where
  "runE m s = (case m s of (Inl e, _) \<Rightarrow> Inl e | (Inr _, s') \<Rightarrow> Inr s')"

section \<open>State\<close>

record agg_fingerprint =
  ag_filePaths :: "string list"
  ag_messages :: "string list"
  ag_enums :: "string list"
  ag_extensions :: "string list"

definition empty_fingerprint :: agg_fingerprint where
  "empty_fingerprint = \<lparr>ag_filePaths = [], ag_messages = [], ag_enums = [], ag_extensions = []\<rparr>"

record schema_snapshot =
  cs_schemaID :: string
  cs_version :: u64
  cs_files :: files_state
  cs_types :: types_state
  cs_fingerprint :: agg_fingerprint
  cs_raw :: bytes

record ns_snapshot =
  nss_schemas :: "(string \<times> schema_snapshot) list"
  nss_nameIndex :: "(string \<times> string) list"

definition newSnapshot :: ns_snapshot where
  "newSnapshot = \<lparr>nss_schemas = [], nss_nameIndex = []\<rparr>"

text \<open>The aggregate registries of a namespace.\<close>

type_synonym aggregate = "files_state \<times> types_state"

abbreviation on_files :: "(files_state, 'a) act \<Rightarrow> (aggregate, 'a) act" where
  "on_files \<equiv> zoomA fst (\<lambda>f (_, t). (f, t))"

abbreviation on_types :: "(types_state, 'a) act \<Rightarrow> (aggregate, 'a) act" where
  "on_types \<equiv> zoomA snd (\<lambda>t (f, _). (f, t))"

definition snapshot_files :: "schema_snapshot \<Rightarrow> file_desc list" where
  "snapshot_files ss = RangeFiles [LocalFiles (cs_files ss)]"

section \<open>The aggregate\<close>

fun registerMessageTypesUpdate :: "message_desc \<Rightarrow> (types_state, unit) act" where
  "registerMessageTypesUpdate (Message n fn fs ms es xs os) =
     thenA (update_message (Message n fn fs ms es xs os))
     (thenA (eachA registerMessageTypesUpdate ms)
     (thenA (eachA update_enum es) (eachA update_extension xs)))"

definition registerFileTypesUpdate :: "file_desc \<Rightarrow> (types_state, unit) act" where
  "registerFileTypesUpdate fd =
     thenA (eachA registerMessageTypesUpdate (file_messages fd))
     (thenA (eachA update_enum (file_enums fd)) (eachA update_extension (file_exts fd)))"

definition applyToAggregate :: "schema_snapshot \<Rightarrow> (aggregate, unit) act" where
  "applyToAggregate ss =
     eachA (\<lambda>fd.
       thenA (wrapA (''aggregating file '' @ file_path fd @ '' from schema '' @ cs_schemaID ss @ '': '') (on_files (update_file fd)))
       (wrapA (''aggregating types from '' @ file_path fd @ '' in schema '' @ cs_schemaID ss @ '': '') (on_types (registerFileTypesUpdate fd))))
     (snapshot_files ss)"

definition removeFromAggregate :: "schema_snapshot \<Rightarrow> (aggregate, unit) act" where
  "removeFromAggregate ss =
     (let fp = cs_fingerprint ss; gone = (\<lambda>what name. ''unregister '' @ what @ '' '' @ name @ '' (schema '' @ cs_schemaID ss @ ''): '') in
      thenA (eachA (\<lambda>path. wrapA (gone ''file'' path) (on_files (unregister_file path))) (ag_filePaths fp))
      (thenA (eachA (\<lambda>name. wrapA (gone ''message'' name) (on_types (unregister_message name))) (ag_messages fp))
      (thenA (eachA (\<lambda>name. wrapA (gone ''enum'' name) (on_types (unregister_enum name))) (ag_enums fp))
      (eachA (\<lambda>name. wrapA (gone ''extension'' name) (on_types (unregister_extension name))) (ag_extensions fp)))))"

section \<open>The name index\<close>

definition schemaFor :: "ns_snapshot \<Rightarrow> string \<Rightarrow> schema_snapshot option" where
  "schemaFor snap name = (case map_of (nss_nameIndex snap) name of None \<Rightarrow> None | Some sid \<Rightarrow> map_of (nss_schemas snap) sid)"

fun rangeMessageDescriptors :: "message_desc \<Rightarrow> string list" where
  "rangeMessageDescriptors (Message n fn fs ms es xs os) =
     fn # concat (map rangeMessageDescriptors ms) @ map en_full_name es @ map ext_full_name xs"

definition rangeFileDescriptors :: "file_desc \<Rightarrow> string list" where
  "rangeFileDescriptors fd = concat (map rangeMessageDescriptors (file_messages fd)) @ map en_full_name (file_enums fd)
     @ map ext_full_name (file_exts fd) @ concat (map (\<lambda>s. svc_full_name s # map mtd_full_name (svc_methods s)) (file_services fd))"

text \<open>The index and the conflicts found so far, per name the schemas that declare it.\<close>

type_synonym index_state = "(string \<times> string) list \<times> (string \<times> string list) list"

definition index_name :: "string \<Rightarrow> string \<Rightarrow> index_state \<Rightarrow> index_state" where
  "index_name sid name = (\<lambda>(idx, conflicts).
     case map_of idx name of
       Some existing \<Rightarrow>
         if existing = sid then (idx, conflicts)
         else (idx, AList.update name ((case map_of conflicts name of None \<Rightarrow> [existing] | Some ids \<Rightarrow> ids) @ [sid]) conflicts)
     | None \<Rightarrow> (AList.update name sid idx, conflicts))"

fun join_comma :: "string list \<Rightarrow> string" where
  "join_comma [] = ''''"
| "join_comma [s] = s"
| "join_comma (s # ss) = s @ '', '' @ join_comma ss"

definition trim_semicolon :: "string \<Rightarrow> string" where
  "trim_semicolon s = (if s \<noteq> '''' \<and> last s = CHR '';'' then butlast s else s)"

definition collision_error :: "(string \<times> string list) list \<Rightarrow> error" where
  "collision_error conflicts = Errorf (trim_semicolon (''protoregistry/client: name collisions across schemas:'' @
     concat (map (\<lambda>n. '' '' @ n @ '' in ['' @ join_comma (the (map_of conflicts n)) @ ''];'') (sort (map fst conflicts)))))"

definition schema_names :: "schema_snapshot \<Rightarrow> string list" where
  "schema_names ss = concat (map rangeFileDescriptors (snapshot_files ss))"

definition build_index :: "ns_snapshot \<Rightarrow> index_state" where
  "build_index snap = fold (\<lambda>sid st. fold (index_name sid) (schema_names (the (map_of (nss_schemas snap) sid))) st)
     (sort (map fst (nss_schemas snap))) (nss_nameIndex snap, [])"

definition buildNameIndex :: "ns_snapshot \<Rightarrow> ns_snapshot result" where
  "buildNameIndex snap =
     (case build_index snap of (idx, conflicts) \<Rightarrow>
        if conflicts = [] then Inr (snap\<lparr>nss_nameIndex := idx\<rparr>) else Inl (collision_error conflicts))"

section \<open>Compiling a schema\<close>

fun collectMessage :: "message_desc \<Rightarrow> agg_fingerprint \<Rightarrow> agg_fingerprint" where
  "collectMessage (Message n fn fs ms es xs os) fp =
     (let fp = fp\<lparr>ag_messages := ag_messages fp @ [fn]\<rparr>;
          fp = fold collectMessage ms fp;
          fp = fp\<lparr>ag_enums := ag_enums fp @ map en_full_name es\<rparr>
      in fp\<lparr>ag_extensions := ag_extensions fp @ map ext_full_name xs\<rparr>)"

definition collect_file :: "file_desc \<Rightarrow> agg_fingerprint \<Rightarrow> agg_fingerprint" where
  "collect_file fd fp =
     (let fp = fp\<lparr>ag_filePaths := ag_filePaths fp @ [file_path fd]\<rparr>;
          fp = fold collectMessage (file_messages fd) fp;
          fp = fp\<lparr>ag_enums := ag_enums fp @ map en_full_name (file_enums fd)\<rparr>
      in fp\<lparr>ag_extensions := ag_extensions fp @ map ext_full_name (file_exts fd)\<rparr>)"

fun registerMessageTypes :: "message_desc \<Rightarrow> (types_state, unit) act" where
  "registerMessageTypes (Message n fn fs ms es xs os) =
     thenA (register_message (Message n fn fs ms es xs os))
     (thenA (eachA registerMessageTypes ms)
     (thenA (eachA register_enum es) (eachA register_extension xs)))"

definition registerFileTypes :: "file_desc \<Rightarrow> (types_state, unit) act" where
  "registerFileTypes fd =
     thenA (eachA registerMessageTypes (file_messages fd))
     (thenA (eachA register_enum (file_enums fd)) (eachA register_extension (file_exts fd)))"

definition compile_file :: "file_desc \<Rightarrow> files_state \<times> types_state \<times> agg_fingerprint \<Rightarrow> (files_state \<times> types_state \<times> agg_fingerprint) result" where
  "compile_file fd = (\<lambda>(files, types, fp).
     bindE (wrapE (''register file '' @ file_path fd @ '': '') (runE (register_file fd) files)) (\<lambda>files.
     bindE (wrapE (''register types in '' @ file_path fd @ '': '') (runE (registerFileTypes fd) types)) (\<lambda>types.
     Inr (files, types, collect_file fd fp))))"

definition version_text :: "string \<Rightarrow> string \<Rightarrow> u64 \<Rightarrow> string" where
  "version_text ns sid v = ns @ ''/'' @ sid @ ''@'' @ fmt_u64 v"

definition compileSchema :: "lib \<Rightarrow> string \<Rightarrow> string \<Rightarrow> u64 \<Rightarrow> fdproto list \<Rightarrow> bytes \<Rightarrow> schema_snapshot result" where
  "compileSchema L ns sid version fdset raw =
     bindE (wrapE (''compiling descriptors for '' @ version_text ns sid version @ '': '') (libE (lib_NewFiles L fdset))) (\<lambda>compiled.
     bindE (wrapE (''populating registries for '' @ version_text ns sid version @ '': '')
       (foldE compile_file compiled (empty_files, empty_types, empty_fingerprint))) (\<lambda>(files, types, fp).
     Inr \<lparr>cs_schemaID = sid, cs_version = version, cs_files = files, cs_types = types, cs_fingerprint = fp, cs_raw = raw\<rparr>))"

definition fetchSchema :: "lib \<Rightarrow> 'w conn \<Rightarrow> string \<Rightarrow> string \<Rightarrow> u64 \<Rightarrow> ('w, schema_snapshot) act" where
  "fetchSchema L conn ns sid version =
     bindA (wrapA (''get_descriptor '' @ version_text ns sid version @ '': '') (rpc_GetDescriptor conn ns sid version)) (\<lambda>(got, fdset).
     bindA (pureA (wrapE (''remarshal FileDescriptorSet for '' @ version_text ns sid version @ '': '') (libE (lib_Marshal L fdset)))) (\<lambda>raw.
     pureA (compileSchema L ns sid got fdset raw)))"

section \<open>Populating\<close>

text \<open>Folding every schema into the aggregate, in the order of their identifiers.\<close>

definition applyAll :: "ns_snapshot \<Rightarrow> (aggregate, unit) act" where
  "applyAll snap = eachA (\<lambda>sid. applyToAggregate (the (map_of (nss_schemas snap) sid))) (sort (map fst (nss_schemas snap)))"

definition fetch_current :: "lib \<Rightarrow> 'w conn \<Rightarrow> string \<Rightarrow> schema_info \<Rightarrow> ('w \<times> ns_snapshot, unit) act" where
  "fetch_current L conn ns info =
     (case si_CurrentVersion info of
        None \<Rightarrow> retA ()
      | Some v \<Rightarrow>
          bindA (zoomA fst (\<lambda>w (_, snap). (w, snap)) (fetchSchema L conn ns (si_SchemaId info) v)) (\<lambda>ss.
          modifyA (\<lambda>(w, snap). (w, snap\<lparr>nss_schemas := AList.update (si_SchemaId info) ss (nss_schemas snap)\<rparr>))))"

end
