(* ===== verification/Client_Resolver.thy ===== *)
theory Client_Resolver
  imports Client_Snapshot
begin

text \<open>
  \<^verbatim>\<open>client/client.go\<close> and the listing of \<^verbatim>\<open>client/refresh.go\<close>: configuration, the resolver of a namespace, how it is
  populated, and the lookups. A client is the resolver of its namespace with the resolvers of the ancestors
  it was built with; the registries of an ancestor are the parents of the registries of the resolvers built
  after it, and the lookups read them as they are at the call.
\<close>

section \<open>Calls that may not return\<close>

text \<open>Only the listing of the schemas is a loop without a bound; what contains it returns an option.\<close>

type_synonym ('s, 'a) pact = "'s \<Rightarrow> ('a result \<times> 's) option"

definition liftP :: "('s, 'a) act \<Rightarrow> ('s, 'a) pact" where
  "liftP m s = Some (m s)"

definition bindP :: "('s, 'a) pact \<Rightarrow> ('a \<Rightarrow> ('s, 'b) pact) \<Rightarrow> ('s, 'b) pact" where
  "bindP m f s = (case m s of None \<Rightarrow> None | Some (Inl e, t) \<Rightarrow> Some (Inl e, t) | Some (Inr a, t) \<Rightarrow> f a t)"

definition wrapP :: "string \<Rightarrow> ('s, 'a) pact \<Rightarrow> ('s, 'a) pact" where
  "wrapP p m s = map_option (\<lambda>(r, t). (wrapE p r, t)) (m s)"

section \<open>Configuration\<close>

record config =
  cfg_refresh :: int
  cfg_schemas :: "string list"
  cfg_logger :: "string option"
  cfg_token :: string
  cfg_transportCreds :: "string option"
  cfg_useServerChain :: bool
  cfg_parentFiles :: files_chain
  cfg_parentTypes :: types_chain
  cfg_cacheDir :: string

text \<open>Nanoseconds, as \<^verbatim>\<open>time.Duration\<close> has them.\<close>

definition DefaultRefreshInterval :: int where
  "DefaultRefreshInterval = 30 * 1000000000"

definition defaultConfig :: config where
  "defaultConfig = \<lparr>cfg_refresh = DefaultRefreshInterval, cfg_schemas = [], cfg_logger = None, cfg_token = '''', cfg_transportCreds = None,
     cfg_useServerChain = False, cfg_parentFiles = [], cfg_parentTypes = [], cfg_cacheDir = ''''\<rparr>"

section \<open>The resolver\<close>

record resolver =
  rs_ns :: string
  rs_cfg :: config
  rs_snapshot :: "ns_snapshot option"
  rs_agg :: aggregate
  rs_fromCache :: bool
  rs_refreshing :: bool

record client =
  cl_main :: resolver
  cl_ancestors :: "resolver list"
  cl_ownsConn :: bool

datatype client_option =
    WithRefreshInterval int
  | WithSchemas "string list"
  | WithClientLogger "string option"
  | WithToken string
  | WithTransportCredentials "string option"
  | WithFallback files_chain types_chain
  | WithParent "client option"
  | WithGlobalFallback global_files global_types
  | WithServerChain
  | WithDiskCache string

text \<open>The registries a client offers as a parent: its own aggregate over those of its ancestors, nearest first.\<close>

definition parent_files :: "resolver list \<Rightarrow> config \<Rightarrow> files_chain" where
  "parent_files ancestors cfg = map (\<lambda>a. LocalFiles (fst (rs_agg a))) (rev ancestors) @ cfg_parentFiles cfg"

definition parent_types :: "resolver list \<Rightarrow> config \<Rightarrow> types_chain" where
  "parent_types ancestors cfg = map (\<lambda>a. LocalTypes (snd (rs_agg a))) (rev ancestors) @ cfg_parentTypes cfg"

definition nsFiles :: "client \<Rightarrow> files_chain" where
  "nsFiles c = LocalFiles (fst (rs_agg (cl_main c))) # parent_files (cl_ancestors c) (rs_cfg (cl_main c))"

definition nsTypes :: "client \<Rightarrow> types_chain" where
  "nsTypes c = LocalTypes (snd (rs_agg (cl_main c))) # parent_types (cl_ancestors c) (rs_cfg (cl_main c))"

fun apply_client_option :: "client_option \<Rightarrow> config \<Rightarrow> config" where
  "apply_client_option (WithRefreshInterval d) c = c\<lparr>cfg_refresh := d\<rparr>"
| "apply_client_option (WithSchemas ids) c = c\<lparr>cfg_schemas := ids\<rparr>"
| "apply_client_option (WithClientLogger l) c = c\<lparr>cfg_logger := l\<rparr>"
| "apply_client_option (WithToken t) c = c\<lparr>cfg_token := t\<rparr>"
| "apply_client_option (WithTransportCredentials t) c = c\<lparr>cfg_transportCreds := t\<rparr>"
| "apply_client_option (WithFallback files types) c = c\<lparr>cfg_parentFiles := files, cfg_parentTypes := types\<rparr>"
| "apply_client_option (WithParent None) c = c"
| "apply_client_option (WithParent (Some p)) c = c\<lparr>cfg_parentFiles := nsFiles p, cfg_parentTypes := nsTypes p\<rparr>"
| "apply_client_option (WithGlobalFallback gf gt) c =
     (let ns = NewNamespaceOverGlobal gf gt in c\<lparr>cfg_parentFiles := np_Files ns, cfg_parentTypes := np_Types ns\<rparr>)"
| "apply_client_option WithServerChain c = c\<lparr>cfg_useServerChain := True\<rparr>"
| "apply_client_option (WithDiskCache d) c = c\<lparr>cfg_cacheDir := d\<rparr>"

definition tracksSchema :: "config \<Rightarrow> string \<Rightarrow> bool" where
  "tracksSchema cfg sid = (if cfg_schemas cfg = [] then True else sid \<in> set (cfg_schemas cfg))"

definition bearer_metadata :: "string \<Rightarrow> (string \<times> string) list" where
  "bearer_metadata token = [(''authorization'', ''Bearer '' @ token)]"

section \<open>Listing and populating\<close>

partial_function (option) list_pages :: "'w conn \<Rightarrow> string \<Rightarrow> config \<Rightarrow> string \<Rightarrow> schema_info list \<Rightarrow> ('w, schema_info list) pact" where
  "list_pages conn ns cfg page infos w =
     (case rpc_ListSchemas conn ns page w of
        (Inl e, w') \<Rightarrow> Some (Inl e, w')
      | (Inr (schemas, nextToken), w') \<Rightarrow>
          (let infos = infos @ filter (\<lambda>s. tracksSchema cfg (si_SchemaId s)) schemas in
           if nextToken = '''' then Some (Inr infos, w') else list_pages conn ns cfg nextToken infos w'))"

declare list_pages.simps [code]

definition listAllSchemas :: "'w conn \<Rightarrow> resolver \<Rightarrow> ('w, schema_info list) pact" where
  "listAllSchemas conn r = list_pages conn (rs_ns r) (rs_cfg r) '''' []"

text \<open>What \<^verbatim>\<open>populate\<close> does with the listing.\<close>

definition populate_from :: "lib \<Rightarrow> 'w conn \<Rightarrow> schema_info list \<Rightarrow> ('w \<times> resolver, unit) act" where
  "populate_from L conn infos = (\<lambda>(w, r).
     case eachA (fetch_current L conn (rs_ns r)) infos (w, newSnapshot) of
       (Inl e, (w', _)) \<Rightarrow> (Inl e, (w', r))
     | (Inr _, (w', snap)) \<Rightarrow>
        (case buildNameIndex snap of
           Inl e \<Rightarrow> (Inl e, (w', r))
         | Inr snap \<Rightarrow>
            (case applyAll snap (rs_agg r) of
               (Inl e, agg) \<Rightarrow> (Inl e, (w', r\<lparr>rs_agg := agg\<rparr>))
             | (Inr _, agg) \<Rightarrow> (Inr (), (w', r\<lparr>rs_agg := agg, rs_snapshot := Some snap\<rparr>)))))"

definition populate :: "lib \<Rightarrow> 'w conn \<Rightarrow> ('w \<times> resolver, unit) pact" where
  "populate L conn = (\<lambda>(w, r).
     case wrapP (''populating namespace '' @ fmt_q (rs_ns r) @ '': '') (listAllSchemas conn r) w of
       None \<Rightarrow> None
     | Some (Inl e, w') \<Rightarrow> Some (Inl e, (w', r))
     | Some (Inr infos, w') \<Rightarrow> Some (populate_from L conn infos (w', r)))"

definition new_resolver :: "string \<Rightarrow> config \<Rightarrow> resolver" where
  "new_resolver ns cfg = \<lparr>rs_ns = ns, rs_cfg = cfg, rs_snapshot = None, rs_agg = (empty_files, empty_types),
     rs_fromCache = False, rs_refreshing = False\<rparr>"

definition newSingleNamespace :: "lib \<Rightarrow> 'w conn \<Rightarrow> string \<Rightarrow> config \<Rightarrow> ('w, resolver) pact" where
  "newSingleNamespace L conn ns cfg w =
     (case populate L conn (w, new_resolver ns cfg) of
        None \<Rightarrow> None
      | Some (Inl e, (w', _)) \<Rightarrow> Some (Inl e, w')
      | Some (Inr _, (w', r)) \<Rightarrow> Some (Inr (r\<lparr>rs_refreshing := 0 < cfg_refresh cfg\<rparr>), w'))"

section \<open>Lookups\<close>

text \<open>The registries of one schema, over the parents of its resolver.\<close>

definition schema_types :: "client \<Rightarrow> schema_snapshot \<Rightarrow> types_chain" where
  "schema_types c ss = LocalTypes (cs_types ss) # parent_types (cl_ancestors c) (rs_cfg (cl_main c))"

definition schema_files :: "client \<Rightarrow> schema_snapshot \<Rightarrow> files_chain" where
  "schema_files c ss = LocalFiles (cs_files ss) # parent_files (cl_ancestors c) (rs_cfg (cl_main c))"

definition owning_schema :: "client \<Rightarrow> string \<Rightarrow> schema_snapshot option" where
  "owning_schema c name = (case rs_snapshot (cl_main c) of None \<Rightarrow> None | Some snap \<Rightarrow> schemaFor snap name)"

definition cl_FindMessageByName :: "client \<Rightarrow> string \<Rightarrow> message_desc result" where
  "cl_FindMessageByName c name =
     (case owning_schema c name of Some ss \<Rightarrow> FindMessageByName (schema_types c ss) name | None \<Rightarrow> FindMessageByName (nsTypes c) name)"

definition cl_FindMessageByURL :: "client \<Rightarrow> string \<Rightarrow> message_desc result" where
  "cl_FindMessageByURL c url = cl_FindMessageByName c (url_name url)"

definition cl_FindExtensionByName :: "client \<Rightarrow> string \<Rightarrow> ext_desc result" where
  "cl_FindExtensionByName c name =
     (case owning_schema c name of Some ss \<Rightarrow> FindExtensionByName (schema_types c ss) name | None \<Rightarrow> FindExtensionByName (nsTypes c) name)"

definition cl_FindExtensionByNumber :: "client \<Rightarrow> string \<Rightarrow> int \<Rightarrow> ext_desc result" where
  "cl_FindExtensionByNumber c message number = FindExtensionByNumber (nsTypes c) message number"

definition cl_FindFileByPath :: "client \<Rightarrow> string \<Rightarrow> file_desc result" where
  "cl_FindFileByPath c path = FindFileByPath (nsFiles c) path"

definition cl_FindDescriptorByName :: "client \<Rightarrow> string \<Rightarrow> descriptor result" where
  "cl_FindDescriptorByName c name =
     (case owning_schema c name of Some ss \<Rightarrow> FindDescriptorByName (schema_files c ss) name | None \<Rightarrow> FindDescriptorByName (nsFiles c) name)"

definition cl_NewMessage :: "client \<Rightarrow> string \<Rightarrow> message_desc result" where
  "cl_NewMessage c name = cl_FindMessageByName c name"

definition own_types :: "resolver \<Rightarrow> types_chain" where
  "own_types r = [LocalTypes (snd (rs_agg r))]"

definition own_files :: "resolver \<Rightarrow> files_chain" where
  "own_files r = [LocalFiles (fst (rs_agg r))]"

definition cl_RangeMessages :: "client \<Rightarrow> message_desc list" where
  "cl_RangeMessages c = RangeMessages (own_types (cl_main c)) @ concat (map (\<lambda>a. RangeMessages (own_types a)) (cl_ancestors c))
     @ (if cl_ancestors c = [] then RangeMessages (cfg_parentTypes (rs_cfg (cl_main c))) else [])"

definition findLocalMessage :: "resolver \<Rightarrow> string \<Rightarrow> message_desc option" where
  "findLocalMessage r name = find (\<lambda>m. msg_full_name m = name) (RangeMessages (own_types r))"

definition findLocalFile :: "resolver \<Rightarrow> string \<Rightarrow> file_desc option" where
  "findLocalFile r path = find (\<lambda>f. file_path f = path) (RangeFiles (own_files r))"

text \<open>The namespace first, then its ancestors in the order of the slice, then the parents configured by hand.\<close>

definition with_origin :: "(resolver \<Rightarrow> 'a option) \<Rightarrow> 'a result \<Rightarrow> client \<Rightarrow> ('a \<times> string) result" where
  "with_origin look from_parent c =
     (case first_some (\<lambda>r. map_option (\<lambda>a. (a, rs_ns r)) (look r)) (cl_main c # cl_ancestors c) of
        Some hit \<Rightarrow> Inr hit
      | None \<Rightarrow>
          if cl_ancestors c = [] then (case from_parent of Inr a \<Rightarrow> Inr (a, '''') | Inl _ \<Rightarrow> Inl NotFound) else Inl NotFound)"

definition cl_FindMessageByNameWithOrigin :: "client \<Rightarrow> string \<Rightarrow> (message_desc \<times> string) result" where
  "cl_FindMessageByNameWithOrigin c name =
     with_origin (\<lambda>r. findLocalMessage r name) (FindMessageByName (cfg_parentTypes (rs_cfg (cl_main c))) name) c"

definition cl_FindFileByPathWithOrigin :: "client \<Rightarrow> string \<Rightarrow> (file_desc \<times> string) result" where
  "cl_FindFileByPathWithOrigin c path =
     with_origin (\<lambda>r. findLocalFile r path) (FindFileByPath (cfg_parentFiles (rs_cfg (cl_main c))) path) c"

text \<open>A resolver loaded from the cache has no stub: a call on it is a nil dereference.\<close>

definition nil_stub :: error where
  "nil_stub = Errorf ''panic: runtime error: invalid memory address or nil pointer dereference''"

definition fetchOwnSource :: "'w conn \<Rightarrow> resolver \<Rightarrow> string \<Rightarrow> ('w, bytes option) act" where
  "fetchOwnSource conn r path =
     (case rs_snapshot r of
        None \<Rightarrow> retA None
      | Some snap \<Rightarrow>
         (case find (\<lambda>(_, ss). path \<in> set (ag_filePaths (cs_fingerprint ss))) (nss_schemas snap) of
            None \<Rightarrow> retA None
          | Some (_, owner) \<Rightarrow>
              if rs_fromCache r then failA nil_stub else
              bindA (wrapA (''get_source '' @ version_text (rs_ns r) (cs_schemaID owner) (cs_version owner) @ '': '')
                (rpc_GetSource conn (rs_ns r) (cs_schemaID owner) (cs_version owner))) (\<lambda>(_, sources).
              case map_of sources path of
                Some content \<Rightarrow> retA (Some content)
              | None \<Rightarrow> failA (Wrapf (''server returned schema '' @ version_text (rs_ns r) (cs_schemaID owner) (cs_version owner) @
                  '' sources without '' @ fmt_q path @ '': '') NotFound))))"

fun source_from :: "'w conn \<Rightarrow> resolver list \<Rightarrow> string \<Rightarrow> ('w, bytes) act" where
  "source_from conn [] path = failA NotFound"
| "source_from conn (r # rs) path =
     bindA (fetchOwnSource conn r path) (\<lambda>content. case content of Some bs \<Rightarrow> retA bs | None \<Rightarrow> source_from conn rs path)"

definition cl_GetSource :: "'w conn \<Rightarrow> client \<Rightarrow> string \<Rightarrow> ('w, bytes) act" where
  "cl_GetSource conn c path = source_from conn (cl_main c # cl_ancestors c) path"

definition scoped_FindMessageByName :: "client \<Rightarrow> string \<Rightarrow> string \<Rightarrow> message_desc result" where
  "scoped_FindMessageByName c sid name =
     (case rs_snapshot (cl_main c) of
        None \<Rightarrow> Inl NotFound
      | Some snap \<Rightarrow>
         (case map_of (nss_schemas snap) sid of
            None \<Rightarrow> Inl (Wrapf (''schema '' @ sid @ '' not present in namespace '' @ rs_ns (cl_main c) @ '': '') NotFound)
          | Some ss \<Rightarrow> FindMessageByName (schema_types c ss) name))"

section \<open>Pinning\<close>

definition fetch_pinned :: "lib \<Rightarrow> 'w conn \<Rightarrow> string \<Rightarrow> string \<times> u64 \<Rightarrow> ('w \<times> ns_snapshot, unit) act" where
  "fetch_pinned L conn ns = (\<lambda>(sid, v).
     bindA (wrapA (''pinning '' @ version_text ns sid v @ '': '') (zoomA fst (\<lambda>w (_, snap). (w, snap)) (fetchSchema L conn ns sid v))) (\<lambda>ss.
     modifyA (\<lambda>(w, snap). (w, snap\<lparr>nss_schemas := AList.update sid ss (nss_schemas snap)\<rparr>))))"

definition Pin :: "lib \<Rightarrow> 'w conn \<Rightarrow> client \<Rightarrow> (string \<times> u64) list \<Rightarrow> ('w, client) act" where
  "Pin L conn c versions w =
     (if versions = [] then (Inl (Errorf ''protoregistry/client: empty pin map''), w)
      else if rs_fromCache (cl_main c) then (Inl nil_stub, w)
      else
        let r = cl_main c;
            cfg = (rs_cfg r)\<lparr>cfg_refresh := 0, cfg_parentFiles := parent_files (cl_ancestors c) (rs_cfg r),
                     cfg_parentTypes := parent_types (cl_ancestors c) (rs_cfg r)\<rparr>;
            pinned = new_resolver (rs_ns r) cfg
        in case eachA (fetch_pinned L conn (rs_ns r)) versions (w, newSnapshot) of
             (Inl e, (w', _)) \<Rightarrow> (Inl e, w')
           | (Inr _, (w', snap)) \<Rightarrow>
              (case buildNameIndex snap of
                 Inl e \<Rightarrow> (Inl e, w')
               | Inr snap \<Rightarrow>
                  (case applyAll snap (rs_agg pinned) of
                     (Inl e, _) \<Rightarrow> (Inl e, w')
                   | (Inr _, agg) \<Rightarrow>
                      (Inr \<lparr>cl_main = pinned\<lparr>rs_agg := agg, rs_snapshot := Some snap\<rparr>, cl_ancestors = [], cl_ownsConn = False\<rparr>, w'))))"

end
