(* ===== verification/Client_Cache.thy ===== *)
theory Client_Cache
  imports Client_Resolver
begin

text \<open>
  \<^verbatim>\<open>client/cache.go\<close>: the disk cache of the client. A disk maps the paths of the cache to contents; a path is kept as
  its parts, since namespaces and file names have no separators, and a manifest as the value its JSON text
  encodes. Any file operation may fail: a list of faults decides, one entry per operation; a failed atomic write
  leaves the file as it was.
\<close>

section \<open>The disk\<close>

record schema_manifest =
  sm_SchemaID :: string
  sm_Version :: u64
  sm_File :: string

record cache_manifest =
  cm_Version :: int
  cm_Namespace :: string
  cm_SavedAt :: int
  cm_Schemas :: "schema_manifest list"
  cm_ServerChain :: "string list"

definition cacheManifestVersion :: int where
  "cacheManifestVersion = 1"

datatype cache_path = ManifestPath string string | SchemaPath string string string

datatype content = Json cache_manifest | Data bytes

record disk =
  dk_files :: "(cache_path \<times> content) list"
  dk_faults :: "bool list"

fun path_text :: "cache_path \<Rightarrow> string" where
  "path_text (ManifestPath dir ns) = dir @ ''/'' @ ns @ ''/manifest.json''"
| "path_text (SchemaPath dir ns f) = dir @ ''/'' @ ns @ ''/schemas/'' @ f"

definition os_error :: error where
  "os_error = LibError ''i/o error''"

text \<open>A file operation, which fails if the next fault says so.\<close>

definition fileop :: "(disk, 'a) act \<Rightarrow> (disk, 'a) act" where
  "fileop m d = (case dk_faults d of
     [] \<Rightarrow> m d
   | b # bs \<Rightarrow> if b then (Inl os_error, d\<lparr>dk_faults := bs\<rparr>) else m (d\<lparr>dk_faults := bs\<rparr>))"

definition atomicWrite :: "cache_path \<Rightarrow> content \<Rightarrow> (disk, unit) act" where
  "atomicWrite path data = fileop (modifyA (\<lambda>d. d\<lparr>dk_files := AList.update path data (dk_files d)\<rparr>))"

definition ReadFile :: "cache_path \<Rightarrow> (disk, content) act" where
  "ReadFile path = fileop (\<lambda>d. (case map_of (dk_files d) path of None \<Rightarrow> Inl os_error | Some data \<Rightarrow> Inr data, d))"

section \<open>Writing\<close>

definition schema_file_name :: "string \<Rightarrow> u64 \<Rightarrow> string" where
  "schema_file_name sid v = sid @ ''@'' @ fmt_u64 v @ ''.pb''"

definition persist_schema :: "string \<Rightarrow> string \<Rightarrow> string \<times> schema_snapshot \<Rightarrow> (disk, schema_manifest list) act" where
  "persist_schema dir ns = (\<lambda>(sid, ss).
     if cs_raw ss = '''' then retA []
     else let fname = schema_file_name sid (cs_version ss); dst = SchemaPath dir ns fname in
       thenA (wrapA (''write schema cache '' @ path_text dst @ '': '') (atomicWrite dst (Data (cs_raw ss))))
       (retA [\<lparr>sm_SchemaID = sid, sm_Version = cs_version ss, sm_File = fname\<rparr>]))"

text \<open>The part of \<^verbatim>\<open>persist\<close> for one namespace, given its snapshot and the chain it records.\<close>

definition persist_own :: "int \<Rightarrow> resolver \<Rightarrow> ns_snapshot \<Rightarrow> string list \<Rightarrow> (disk, unit) act" where
  "persist_own now r snap chain =
     (let dir = cfg_cacheDir (rs_cfg r); ns = rs_ns r in
      thenA (wrapA (''creating cache dir '' @ dir @ ''/'' @ ns @ ''/schemas: '') (fileop (retA ())))
      (bindA (forA (\<lambda>sid. persist_schema dir ns (sid, the (map_of (nss_schemas snap) sid))) (sort (map fst (nss_schemas snap)))) (\<lambda>entries.
      wrapA (''write manifest '' @ path_text (ManifestPath dir ns) @ '': '')
        (atomicWrite (ManifestPath dir ns) (Json \<lparr>cm_Version = cacheManifestVersion, cm_Namespace = ns, cm_SavedAt = now,
           cm_Schemas = concat entries, cm_ServerChain = chain\<rparr>)))))"

definition server_chain :: "resolver \<Rightarrow> resolver list \<Rightarrow> string list" where
  "server_chain r ancestors = (if ancestors = [] then [] else rs_ns r # map rs_ns ancestors)"

definition persist_with :: "int \<Rightarrow> resolver \<Rightarrow> resolver list \<Rightarrow> (disk, unit) act \<Rightarrow> (disk, unit) act" where
  "persist_with now r ancestors others =
     (if cfg_cacheDir (rs_cfg r) = '''' then retA ()
      else case rs_snapshot r of
        None \<Rightarrow> retA ()
      | Some snap \<Rightarrow>
          if nss_schemas snap = [] then retA ()
          else thenA (persist_own now r snap (server_chain r ancestors)) others)"

definition persist :: "int \<Rightarrow> resolver \<Rightarrow> resolver list \<Rightarrow> (disk, unit) act" where
  "persist now r ancestors = persist_with now r ancestors
     (eachA (\<lambda>a. wrapA (''persist ancestor '' @ rs_ns a @ '': '') (persist_with now a [] (retA ()))) ancestors)"

section \<open>Reading\<close>

definition readManifest :: "string \<Rightarrow> string \<Rightarrow> (disk, cache_manifest) act" where
  "readManifest dir ns =
     (let path = ManifestPath dir ns in
      bindA (wrapA (''read manifest '' @ path_text path @ '': '') (ReadFile path)) (\<lambda>data.
      case data of
        Data _ \<Rightarrow> failA (Errorf (''unmarshal manifest '' @ path_text path))
      | Json man \<Rightarrow>
          if cm_Version man \<noteq> cacheManifestVersion
          then failA (Errorf (''manifest '' @ path_text path @ '' has version '' @ fmt_int (cm_Version man) @ ''; want '' @ fmt_int cacheManifestVersion))
          else if cm_Namespace man \<noteq> ns
          then failA (Errorf (''manifest '' @ path_text path @ '' namespace mismatch: got '' @ fmt_q (cm_Namespace man) @ '' want '' @ fmt_q ns))
          else retA man))"

text \<open>\<^verbatim>\<open>filepath.Base\<close>: trailing separators go, then everything up to the last separator.\<close>

definition filepath_Base :: "string \<Rightarrow> string" where
  "filepath_Base p =
     (if p = '''' then ''.''
      else let p = rev (takeWhile (\<lambda>c. c \<noteq> CHR ''/'') (dropWhile (\<lambda>c. c = CHR ''/'') (rev p))) in if p = '''' then ''/'' else p)"

definition load_schema :: "lib \<Rightarrow> string \<Rightarrow> string \<Rightarrow> config \<Rightarrow> schema_manifest \<Rightarrow> (disk \<times> ns_snapshot, unit) act" where
  "load_schema L dir ns cfg sm =
     (if \<not> tracksSchema cfg (sm_SchemaID sm) then retA ()
      else if sm_File sm \<noteq> filepath_Base (sm_File sm) then failA (Errorf (''cached schema file name '' @ fmt_q (sm_File sm) @ '' contains path separators''))
      else let path = SchemaPath dir ns (sm_File sm) in
        bindA (wrapA (''read cached schema '' @ path_text path @ '': '') (zoomA fst (\<lambda>d (_, snap). (d, snap)) (ReadFile path))) (\<lambda>data.
        let raw = (case data of Data bs \<Rightarrow> bs | Json _ \<Rightarrow> '''') in
        bindA (pureA (wrapE (''unmarshal cached schema '' @ path_text path @ '': '') (libE (lib_Unmarshal L raw)))) (\<lambda>fdset.
        bindA (pureA (wrapE (''compile cached schema '' @ path_text path @ '': '') (compileSchema L ns (sm_SchemaID sm) (sm_Version sm) fdset raw))) (\<lambda>ss.
        modifyA (\<lambda>(d, snap). (d, snap\<lparr>nss_schemas := AList.update (sm_SchemaID sm) ss (nss_schemas snap)\<rparr>))))))"

definition loadSingleNamespaceFromCache :: "lib \<Rightarrow> string \<Rightarrow> string \<Rightarrow> config \<Rightarrow> (disk, resolver) act" where
  "loadSingleNamespaceFromCache L dir ns cfg =
     bindA (readManifest dir ns) (\<lambda>man d.
       let r = (new_resolver ns (cfg\<lparr>cfg_refresh := 0\<rparr>))\<lparr>rs_fromCache := True\<rparr> in
       case eachA (load_schema L dir ns cfg) (cm_Schemas man) (d, newSnapshot) of
         (Inl e, (d', _)) \<Rightarrow> (Inl e, d')
       | (Inr _, (d', snap)) \<Rightarrow>
          (case buildNameIndex snap of
             Inl e \<Rightarrow> (Inl e, d')
           | Inr snap \<Rightarrow>
              (case applyAll snap (rs_agg r) of
                 (Inl e, _) \<Rightarrow> (Inl e, d')
               | (Inr _, agg) \<Rightarrow> (Inr (r\<lparr>rs_agg := agg, rs_snapshot := Some snap\<rparr>), d'))))"

text \<open>The ancestors, farthest first.\<close>

definition load_ancestors :: "lib \<Rightarrow> string \<Rightarrow> config \<Rightarrow> string list \<Rightarrow> (disk, resolver list) act" where
  "load_ancestors L dir cfg ids =
     forA (\<lambda>nid. wrapA (''loading cached ancestor '' @ nid @ '': '') (loadSingleNamespaceFromCache L dir nid cfg)) ids"

definition ancestor_config :: "config \<Rightarrow> config" where
  "ancestor_config cfg = cfg\<lparr>cfg_schemas := [], cfg_useServerChain := False\<rparr>"

definition loadFromCache :: "lib \<Rightarrow> string \<Rightarrow> string \<Rightarrow> config \<Rightarrow> (disk, client) act" where
  "loadFromCache L dir ns cfg =
     (if dir = '''' then failA (Errorf ''loadFromCache: empty cacheDir'')
      else bindA (readManifest dir ns) (\<lambda>man.
        if \<not> cfg_useServerChain cfg \<or> length (cm_ServerChain man) \<le> 1
        then bindA (loadSingleNamespaceFromCache L dir ns cfg) (\<lambda>r. retA \<lparr>cl_main = r, cl_ancestors = [], cl_ownsConn = False\<rparr>)
        else bindA (load_ancestors L dir (ancestor_config cfg) (rev (tl (cm_ServerChain man)))) (\<lambda>ancestors.
          bindA (loadSingleNamespaceFromCache L dir ns cfg) (\<lambda>r.
          retA \<lparr>cl_main = r, cl_ancestors = ancestors, cl_ownsConn = False\<rparr>))))"

definition IsStale :: "client \<Rightarrow> bool" where
  "IsStale c = rs_fromCache (cl_main c)"

end
