(* ===== verification/Client.thy ===== *)
theory Client
  imports Client_Cache
begin

text \<open>
  \<^verbatim>\<open>client/client.go\<close> and \<^verbatim>\<open>client/refresh.go\<close>: how a client is made, refreshed and closed. The state of a call is what is
  behind the stub together with the disk of the cache.
\<close>

section \<open>Construction\<close>

abbreviation on_rpc :: "('w, 'a) pact \<Rightarrow> ('w \<times> disk, 'a) pact" where
  "on_rpc m \<equiv> (\<lambda>(w, d). map_option (\<lambda>(x, w'). (x, (w', d))) (m w))"

text \<open>A cache that could not be written is only logged.\<close>

definition persist_quietly :: "int \<Rightarrow> resolver \<Rightarrow> resolver list \<Rightarrow> ('w \<times> disk, unit) act" where
  "persist_quietly now r ancestors = (\<lambda>(w, d). (Inr (), (w, snd (persist now r ancestors d))))"

fun join_space :: "string list \<Rightarrow> string" where
  "join_space [] = ''''"
| "join_space [s] = s"
| "join_space (s # ss) = s @ '' '' @ join_space ss"

fun new_ancestors :: "lib \<Rightarrow> 'w conn \<Rightarrow> config \<Rightarrow> string list \<Rightarrow> ('w \<times> disk, resolver list) pact" where
  "new_ancestors L conn cfg [] = liftP (retA [])"
| "new_ancestors L conn cfg (nid # nids) =
     bindP (wrapP (''protoregistry/client: loading ancestor '' @ nid @ '': '') (on_rpc (newSingleNamespace L conn nid cfg))) (\<lambda>a.
     bindP (new_ancestors L conn cfg nids) (\<lambda>as. liftP (retA (a # as))))"

definition client_New :: "lib \<Rightarrow> int \<Rightarrow> 'w conn option \<Rightarrow> string \<Rightarrow> client_option list \<Rightarrow> ('w \<times> disk, client) pact" where
  "client_New L now conn ns opts =
     (case conn of
        None \<Rightarrow> liftP (failA (Errorf ''protoregistry/client: nil grpc.ClientConn''))
      | Some conn \<Rightarrow>
          if ns = '''' then liftP (failA (Errorf ''protoregistry/client: empty namespace''))
          else let cfg = fold apply_client_option opts defaultConfig in
            if \<not> cfg_useServerChain cfg
            then bindP (on_rpc (newSingleNamespace L conn ns cfg)) (\<lambda>r.
              liftP (thenA (if cfg_cacheDir cfg \<noteq> '''' then persist_quietly now r [] else retA ())
                (retA \<lparr>cl_main = r, cl_ancestors = [], cl_ownsConn = False\<rparr>)))
            else bindP (liftP (wrapA (''protoregistry/client: fetching namespace chain for '' @ ns @ '': '')
                (zoomA fst (\<lambda>w (_, d). (w, d)) (rpc_GetNamespaceChain conn ns)))) (\<lambda>chain.
              if chain = [] \<or> hd chain \<noteq> ns
              then liftP (failA (Errorf (''protoregistry/client: malformed chain for '' @ ns @ '': ['' @ join_space chain @ '']'')))
              else bindP (new_ancestors L conn (ancestor_config cfg) (rev (tl chain))) (\<lambda>ancestors.
                bindP (on_rpc (newSingleNamespace L conn ns cfg)) (\<lambda>r.
                liftP (thenA (if cfg_cacheDir cfg \<noteq> '''' then persist_quietly now r ancestors else retA ())
                  (retA \<lparr>cl_main = r, cl_ancestors = ancestors, cl_ownsConn = False\<rparr>))))))"

text \<open>
  \<open>dial\<close> stands for \<^verbatim>\<open>grpc.NewClient\<close> with the transport credentials (none: insecure) and the metadata to attach to
  every call.
\<close>

definition dialOnline :: "(string \<Rightarrow> string option \<Rightarrow> (string \<times> string) list \<Rightarrow> 'w conn result) \<Rightarrow> lib \<Rightarrow> int \<Rightarrow> string \<Rightarrow> string \<Rightarrow>
    client_option list \<Rightarrow> ('w \<times> disk, client) pact" where
  "dialOnline dial L now addr ns opts =
     (let cfg = fold apply_client_option opts defaultConfig in
      case wrapE (''protoregistry/client: dialing '' @ addr @ '': '')
        (dial addr (cfg_transportCreds cfg) (if cfg_token cfg \<noteq> '''' then bearer_metadata (cfg_token cfg) else [])) of
        Inl e \<Rightarrow> liftP (failA e)
      | Inr conn \<Rightarrow> bindP (client_New L now (Some conn) ns opts) (\<lambda>c. liftP (retA (c\<lparr>cl_ownsConn := True\<rparr>))))"

definition client_Dial :: "(error \<Rightarrow> string) \<Rightarrow> (string \<Rightarrow> string option \<Rightarrow> (string \<times> string) list \<Rightarrow> 'w conn result) \<Rightarrow> lib \<Rightarrow> int \<Rightarrow> string \<Rightarrow>
    string \<Rightarrow> client_option list \<Rightarrow> ('w \<times> disk, client) pact" where
  "client_Dial text dial L now addr ns opts s =
     (let cfg = fold apply_client_option opts defaultConfig in
      case dialOnline dial L now addr ns opts s of
        None \<Rightarrow> None
      | Some (Inr c, s') \<Rightarrow> Some (Inr c, s')
      | Some (Inl onlineErr, (w, d)) \<Rightarrow>
          if cfg_cacheDir cfg = '''' then Some (Inl onlineErr, (w, d))
          else (case loadFromCache L (cfg_cacheDir cfg) ns cfg d of
            (Inl cacheErr, d') \<Rightarrow> Some (Inl (Errorf (''registry unreachable ('' @ text onlineErr @ '') and cache load failed ('' @ text cacheErr @ '')'')), (w, d'))
          | (Inr c, d') \<Rightarrow> Some (Inr c, (w, d'))))"

text \<open>Closing stops the refresh loops of the client and its ancestors, and the connection if the client opened it.\<close>

definition client_Close :: "client \<Rightarrow> client \<times> bool" where
  "client_Close c =
     (let stop = (\<lambda>r. r\<lparr>rs_refreshing := False\<rparr>)
      in (c\<lparr>cl_main := stop (cl_main c), cl_ancestors := map stop (cl_ancestors c)\<rparr>, cl_ownsConn c))"

section \<open>Refresh\<close>

definition ErrStaleResolver :: error where
  "ErrStaleResolver = Errorf ''protoregistry/client: resolver loaded from disk cache; refresh not possible''"

text \<open>What the loop over the listing collects: the next schemas, those added, and those replaced with their predecessors.\<close>

record refresh_plan =
  rp_next :: "(string \<times> schema_snapshot) list"
  rp_added :: "schema_snapshot list"
  rp_replaced :: "(schema_snapshot \<times> schema_snapshot) list"

definition current_schemas :: "resolver \<Rightarrow> (string \<times> schema_snapshot) list" where
  "current_schemas r = (case rs_snapshot r of None \<Rightarrow> [] | Some snap \<Rightarrow> nss_schemas snap)"

definition plan_schema :: "lib \<Rightarrow> 'w conn \<Rightarrow> resolver \<Rightarrow> schema_info \<Rightarrow> ('w \<times> refresh_plan, unit) act" where
  "plan_schema L conn r info =
     (case si_CurrentVersion info of
        None \<Rightarrow> retA ()
      | Some version \<Rightarrow>
         (let sid = si_SchemaId info;
              fetch = wrapA (''refresh fetch '' @ sid @ ''@'' @ fmt_u64 version @ '': '')
                (zoomA fst (\<lambda>w (_, p). (w, p)) (fetchSchema L conn (rs_ns r) sid version))
          in case map_of (current_schemas r) sid of
               Some existing \<Rightarrow>
                 if cs_version existing = version
                 then modifyA (\<lambda>(w, p). (w, p\<lparr>rp_next := AList.update sid existing (rp_next p)\<rparr>))
                 else bindA fetch (\<lambda>fresh. modifyA (\<lambda>(w, p). (w, p\<lparr>rp_next := AList.update sid fresh (rp_next p),
                   rp_replaced := rp_replaced p @ [(existing, fresh)]\<rparr>)))
             | None \<Rightarrow> bindA fetch (\<lambda>fresh. modifyA (\<lambda>(w, p). (w, p\<lparr>rp_next := AList.update sid fresh (rp_next p),
                   rp_added := rp_added p @ [fresh]\<rparr>)))))"

definition removed_schemas :: "resolver \<Rightarrow> refresh_plan \<Rightarrow> schema_snapshot list" where
  "removed_schemas r p = map snd (filter (\<lambda>(sid, _). map_of (rp_next p) sid = None) (current_schemas r))"

definition apply_plan :: "refresh_plan \<Rightarrow> schema_snapshot list \<Rightarrow> (aggregate, unit) act" where
  "apply_plan p removed =
     thenA (eachA (\<lambda>ss. wrapA ''refresh aggregate remove: '' (removeFromAggregate ss)) removed)
     (thenA (eachA (\<lambda>(old, _). wrapA ''refresh aggregate replace (remove old): '' (removeFromAggregate old)) (rp_replaced p))
     (eachA (\<lambda>ss. wrapA ''refresh aggregate apply: '' (applyToAggregate ss)) (sort_key cs_schemaID (rp_added p @ map snd (rp_replaced p)))))"

text \<open>What \<^verbatim>\<open>Refresh\<close> does with the listing.\<close>

definition refresh_from :: "lib \<Rightarrow> int \<Rightarrow> 'w conn \<Rightarrow> resolver list \<Rightarrow> schema_info list \<Rightarrow> ('w \<times> disk \<times> resolver, unit) act" where
  "refresh_from L now conn ancestors infos = (\<lambda>(w, d, r).
     case eachA (plan_schema L conn r) infos (w, \<lparr>rp_next = [], rp_added = [], rp_replaced = []\<rparr>) of
       (Inl e, (w', _)) \<Rightarrow> (Inl e, (w', d, r))
     | (Inr _, (w', p)) \<Rightarrow>
        (let removed = removed_schemas r p in
         if rp_added p = [] \<and> rp_replaced p = [] \<and> removed = [] \<and> rs_snapshot r \<noteq> None then (Inr (), (w', d, r))
         else case buildNameIndex (newSnapshot\<lparr>nss_schemas := rp_next p\<rparr>) of
           Inl e \<Rightarrow> (Inl e, (w', d, r))
         | Inr snap \<Rightarrow>
            (case apply_plan p removed (rs_agg r) of
               (Inl e, agg) \<Rightarrow> (Inl e, (w', d, r\<lparr>rs_agg := agg\<rparr>))
             | (Inr _, agg) \<Rightarrow>
                (let r' = r\<lparr>rs_agg := agg, rs_snapshot := Some snap\<rparr>
                 in (Inr (), (w', if cfg_cacheDir (rs_cfg r) \<noteq> '''' then snd (persist now r' ancestors d) else d, r'))))))"

definition Refresh :: "lib \<Rightarrow> int \<Rightarrow> 'w conn \<Rightarrow> resolver list \<Rightarrow> ('w \<times> disk \<times> resolver, unit) pact" where
  "Refresh L now conn ancestors = (\<lambda>(w, d, r).
     if rs_fromCache r then Some (Inl ErrStaleResolver, (w, d, r))
     else case wrapP ''refresh list_schemas: '' (listAllSchemas conn r) w of
       None \<Rightarrow> None
     | Some (Inl e, w') \<Rightarrow> Some (Inl e, (w', d, r))
     | Some (Inr infos, w') \<Rightarrow> Some (refresh_from L now conn ancestors infos (w', d, r)))"

text \<open>The loop: one refresh per tick, a failure is logged and survived.\<close>

definition tick :: "lib \<Rightarrow> int \<Rightarrow> 'w conn \<Rightarrow> resolver list \<Rightarrow> 'w \<times> disk \<times> resolver \<Rightarrow> ('w \<times> disk \<times> resolver) option" where
  "tick L now conn ancestors s = map_option snd (Refresh L now conn ancestors s)"

end
