(* ===== verification/Client_Facts.thy ===== *)
theory Client_Facts
  imports Client Ns_Types_Facts Ns_Files_Facts
begin

text \<open>
  What the snapshots of a client hold: the index of names of a namespace, the registries of a compiled
  schema, and the invariant that every way of obtaining a snapshot establishes - populating, refreshing, pinning and
  loading from the cache.
\<close>

section \<open>The index of names\<close>

text \<open>The names in the order they are indexed, each with the schema that declares it.\<close>

definition owners :: "ns_snapshot \<Rightarrow> (string \<times> string) list" where
  "owners snap = concat (map (\<lambda>sid. map (Pair sid) (schema_names (the (map_of (nss_schemas snap) sid)))) (sort (map fst (nss_schemas snap))))"

lemma owners_mem:
  "distinct (map fst (nss_schemas snap)) \<Longrightarrow>
   (sid, n) \<in> set (owners snap) \<longleftrightarrow> (\<exists>ss. map_of (nss_schemas snap) sid = Some ss \<and> n \<in> set (schema_names ss))"
  unfolding owners_def by (force simp: image_iff)

lemma fold_owners:
  "fold (\<lambda>sid st. fold (index_name sid) (N sid) st) sids st = fold (\<lambda>(sid, n). index_name sid n) (concat (map (\<lambda>sid. map (Pair sid) (N sid)) sids)) st"
  by (induction sids arbitrary: st) (auto simp: fold_map comp_def)

lemma build_index_owners: "nss_nameIndex snap = [] \<Longrightarrow> build_index snap = fold (\<lambda>(sid, n). index_name sid n) (owners snap) ([], [])"
  by (simp add: build_index_def owners_def fold_owners)

lemma index_fold:
  assumes "fold (\<lambda>(sid, n). index_name sid n) ps ([], []) = (idx, conflicts)"
  shows "map_of idx n = map_option fst (find (\<lambda>p. snd p = n) ps) \<and>
    (conflicts = [] \<longleftrightarrow> (\<forall>p \<in> set ps. \<forall>q \<in> set ps. snd p = snd q \<longrightarrow> fst p = fst q))"
  using assms
proof (induction ps arbitrary: n idx conflicts rule: rev_induct)
  case Nil
  then show ?case by simp
next
  case (snoc p ps)
  obtain sid m where p: "p = (sid, m)" by fastforce
  obtain idx0 cs0 where st: "fold (\<lambda>(sid, n). index_name sid n) ps ([], []) = (idx0, cs0)" by fastforce
  note IH = snoc.IH [OF st]
  from snoc.prems have step: "index_name sid m (idx0, cs0) = (idx, conflicts)" by (simp add: st p)
  have upd: "AList.update k v al \<noteq> []" for k v and al :: "(string \<times> string list) list" by (cases al) auto
  have find_append: "find P (xs @ ys) = (case find P xs of None \<Rightarrow> find P ys | Some x \<Rightarrow> Some x)" for P :: "string \<times> string \<Rightarrow> bool" and xs ys
    by (induction xs) auto
  show ?case
  proof (cases "find (\<lambda>p. snd p = m) ps")
    case None
    with IH have "map_of idx0 m = None" by simp
    with step have i: "idx = AList.update m sid idx0" and c: "conflicts = cs0" by (auto simp: index_name_def)
    from None have fresh: "\<forall>q \<in> set ps. snd q \<noteq> m" by (auto simp: find_None_iff)
    have "map_of idx n = map_option fst (find (\<lambda>p. snd p = n) (ps @ [p]))"
      using IH [of n] None by (auto simp: i p update_conv' find_append split: option.splits)
    moreover have "conflicts = [] \<longleftrightarrow> (\<forall>a \<in> set (ps @ [p]). \<forall>b \<in> set (ps @ [p]). snd a = snd b \<longrightarrow> fst a = fst b)"
      using IH fresh by (auto simp: c p)
    ultimately show ?thesis ..
  next
    case (Some q)
    with IH have ex: "map_of idx0 m = Some (fst q)" by simp
    from Some have q: "q \<in> set ps" "snd q = m" by (auto simp: find_Some_iff)
    have i: "idx = idx0" using step ex by (auto simp: index_name_def split: if_splits)
    have "map_of idx n = map_option fst (find (\<lambda>p. snd p = n) (ps @ [p]))"
      using IH [of n] Some by (auto simp: i p find_append split: option.splits)
    moreover have "conflicts = [] \<longleftrightarrow> (\<forall>a \<in> set (ps @ [p]). \<forall>b \<in> set (ps @ [p]). snd a = snd b \<longrightarrow> fst a = fst b)"
    proof (cases "fst q = sid")
      case True
      with step ex have "conflicts = cs0" by (simp add: index_name_def)
      with IH q True show ?thesis by (auto simp: p)
    next
      case False
      with step ex have "conflicts \<noteq> []" by (auto simp: index_name_def upd)
      moreover from q False have "\<not> (\<forall>a \<in> set (ps @ [p]). \<forall>b \<in> set (ps @ [p]). snd a = snd b \<longrightarrow> fst a = fst b)"
        by (auto simp: p)
      ultimately show ?thesis by simp
    qed
    ultimately show ?thesis ..
  qed
qed

text \<open>The schema of a snapshot, and that no name belongs to two of them.\<close>

abbreviation schema_at :: "ns_snapshot \<Rightarrow> string \<Rightarrow> schema_snapshot option" where
  "schema_at snap \<equiv> map_of (nss_schemas snap)"

definition declares :: "ns_snapshot \<Rightarrow> string \<Rightarrow> string \<Rightarrow> bool" where
  "declares snap sid n \<longleftrightarrow> (case schema_at snap sid of None \<Rightarrow> False | Some ss \<Rightarrow> n \<in> set (schema_names ss))"

definition no_shared_names :: "ns_snapshot \<Rightarrow> bool" where
  "no_shared_names snap \<longleftrightarrow> (\<forall>n sid sid'. declares snap sid n \<longrightarrow> declares snap sid' n \<longrightarrow> sid = sid')"

lemma declares_owners: "distinct (map fst (nss_schemas snap)) \<Longrightarrow> declares snap sid n \<longleftrightarrow> (sid, n) \<in> set (owners snap)"
  by (auto simp: declares_def owners_mem simp del: map_of_eq_Some_iff split: option.splits)

lemma name_index:
  assumes d: "distinct (map fst (nss_schemas snap))" and e: "nss_nameIndex snap = []"
  shows "(isl (buildNameIndex snap) \<longleftrightarrow> \<not> no_shared_names snap) \<and>
    (buildNameIndex snap = Inr snap' \<longrightarrow> nss_schemas snap' = nss_schemas snap \<and>
       (\<forall>n sid. map_of (nss_nameIndex snap') n = Some sid \<longleftrightarrow> declares snap sid n))"
proof -
  obtain idx cs where b: "build_index snap = (idx, cs)" by fastforce
  then have f: "fold (\<lambda>(sid, n). index_name sid n) (owners snap) ([], []) = (idx, cs)" using build_index_owners [OF e] by simp
  have at: "map_of idx n = map_option fst (find (\<lambda>p. snd p = n) (owners snap))" for n using index_fold [OF f] by blast
  have cs: "cs = [] \<longleftrightarrow> (\<forall>p \<in> set (owners snap). \<forall>q \<in> set (owners snap). snd p = snd q \<longrightarrow> fst p = fst q)"
    using index_fold [OF f] by blast
  have none: "cs = [] \<longleftrightarrow> no_shared_names snap"
    unfolding cs no_shared_names_def declares_owners [OF d] by fastforce
  have "map_of idx n = Some sid \<longleftrightarrow> (sid, n) \<in> set (owners snap)" if "cs = []" for n sid
  proof (cases "find (\<lambda>p. snd p = n) (owners snap)")
    case None
    then have "\<forall>p \<in> set (owners snap). snd p \<noteq> n" by (auto simp: find_None_iff)
    then show ?thesis unfolding at None by auto
  next
    case (Some p)
    then have p: "p \<in> set (owners snap)" "snd p = n" by (auto simp: find_Some_iff)
    from cs that p have "fst p = sid" if "(sid, n) \<in> set (owners snap)" using that by fastforce
    moreover have "(fst p, n) \<in> set (owners snap)" using p by (metis prod.collapse)
    ultimately show ?thesis unfolding at Some by auto
  qed
  then have "cs = [] \<Longrightarrow> \<forall>n sid. map_of idx n = Some sid \<longleftrightarrow> declares snap sid n" unfolding declares_owners [OF d] by blast
  with none show ?thesis unfolding buildNameIndex_def b by (cases "cs = []") auto
qed

section \<open>The registries of a schema\<close>

lemma eachA_append: "eachA f (xs @ ys) = thenA (eachA f xs) (eachA f ys)"
  by (induction xs) (auto simp: act_defs fun_eq_iff split: prod.splits sum.splits)

lemma eachA_map: "eachA f (map g xs) = eachA (\<lambda>x. f (g x)) xs"
  by (induction xs) auto

lemma eachA_concat:
  "(\<And>x. x \<in> set xs \<Longrightarrow> f x = eachA g (h x)) \<Longrightarrow> eachA f xs = eachA g (concat (map h xs))"
  by (induction xs) (auto simp: eachA_append)

lemma eachA_invariant:
  assumes "eachA f xs s = (x, s')" and "P s" and "\<And>a t y t'. a \<in> set xs \<Longrightarrow> P t \<Longrightarrow> f a t = (y, t') \<Longrightarrow> P t'"
  shows "P s'"
  using assms
proof (induction xs arbitrary: s)
  case (Cons a xs)
  obtain y t where t: "f a s = (y, t)" by fastforce
  with Cons.prems(2,3) have "P t" by (meson list.set_intros(1))
  show ?case
  proof (cases y)
    case (Inl e)
    with Cons.prems(1) t \<open>P t\<close> show ?thesis by (auto simp: act_defs)
  next
    case (Inr u)
    with Cons.prems(1) t have "eachA f xs t = (x, s')" by (simp add: act_defs)
    from this \<open>P t\<close> show ?thesis by (rule Cons.IH) (use Cons.prems(3) in \<open>meson list.set_intros(2)\<close>)
  qed
qed (auto simp: act_defs)

text \<open>Registering a file is a walk over the types it declares.\<close>

lemma registerMessageTypes_eq: "registerMessageTypes m = eachA register_type (message_types m)"
proof (induction m)
  case (Message n fn fs ms es xs os)
  then have "eachA registerMessageTypes ms = eachA register_type (concat (map message_types ms))" by (rule eachA_concat)
  then show ?case by (simp add: eachA_append eachA_map)
qed

lemma registerFileTypes_eq: "registerFileTypes fd = eachA register_type (file_types fd)"
proof -
  have "eachA registerMessageTypes ms = eachA register_type (concat (map message_types ms))" for ms
    by (rule eachA_concat) (rule registerMessageTypes_eq)
  then show ?thesis by (simp add: registerFileTypes_def file_types_def eachA_append eachA_map)
qed

definition by_name :: "pbtype list \<Rightarrow> (string \<times> pbtype) list" where
  "by_name ts = map (\<lambda>t. (type_full_name t, t)) ts"

lemma by_name_simps [simp]: "by_name (ts @ us) = by_name ts @ by_name us" "fst ` set (by_name ts) = type_full_name ` set ts"
  "map fst (by_name ts) = map type_full_name ts" "by_name [] = []" "by_name (t # ts) = (type_full_name t, t) # by_name ts"
  by (simp_all add: by_name_def image_image)

lemma update_append: "k \<notin> fst ` set al \<Longrightarrow> AList.update k v al = al @ [(k, v)]"
  by (induction al) auto

lemma register_types:
  assumes "eachA register_type ts st = (Inr u, st')" and "typesByName st = by_name us" and "distinct (map type_full_name us)" and "types_ok st"
  shows "typesByName st' = by_name (us @ ts) \<and> distinct (map type_full_name (us @ ts)) \<and> types_ok st'"
  using assms
proof (induction ts arbitrary: st us)
  case Nil
  then show ?case by simp
next
  case (Cons t ts)
  from Cons.prems(1) obtain v st1 where s1: "register_type t st = (Inr v, st1)" and s2: "eachA register_type ts st1 = (Inr u, st')" by auto
  from s1 register_type_cases [of t st] have e: "register_type t st = update_type t st" and n: "type_at st (type_full_name t) = None" by auto
  from n Cons.prems(2) have fresh: "type_full_name t \<notin> type_full_name ` set us"
    by (metis by_name_simps(2) map_of_eq_None_iff)
  have "typesByName st1 = by_name (us @ [t])"
    using update_type_maps(2) [of t st] fresh unfolding e [symmetric] s1 Cons.prems(2) by (simp add: update_append)
  moreover have "distinct (map type_full_name (us @ [t]))" using Cons.prems(3) fresh by simp
  moreover have "types_ok st1" using register_type_ok [OF Cons.prems(4), of t] by (simp add: s1)
  ultimately show ?case using Cons.IH [OF s2, of "us @ [t]"] by simp
qed

definition by_path :: "file_desc list \<Rightarrow> (string \<times> file_desc list) list" where
  "by_path fs = map (\<lambda>f. (file_path f, [f])) fs"

lemma by_path_simps [simp]: "by_path (fs @ gs) = by_path fs @ by_path gs" "fst ` set (by_path fs) = file_path ` set fs"
  "map fst (by_path fs) = map file_path fs" "by_path [] = []" "by_path (f # fs) = (file_path f, [f]) # by_path fs"
  "concat (map snd (by_path fs)) = fs"
  by (simp_all add: by_path_def image_image comp_def)

lemma insertFileLocked_paths:
  "insertFileLocked f st = (Inr u, st') \<Longrightarrow> filesByPath st' = AList.update (file_path f) [f] (filesByPath st)"
  using same_files_ensure [of st "package_chain (file_package f)"] same_files_declare
  by (auto simp: insertFileLocked_def Let_def same_files_def split: option.splits name_entry.splits)

lemma register_file_paths:
  assumes "register_file f st = (Inr u, st')" and "filesByPath st = by_path fs" and "distinct (map file_path fs)"
  shows "filesByPath st' = by_path (fs @ [f]) \<and> distinct (map file_path (fs @ [f]))"
proof -
  have fresh: "file_path f \<notin> file_path ` set fs"
  proof
    assume "file_path f \<in> file_path ` set fs"
    then obtain g where "g \<in> set fs" "file_path g = file_path f" by force
    then have "(file_path f, [g]) \<in> set (by_path fs)" by (auto simp: by_path_def image_iff)
    with assms(3) have "map_of (by_path fs) (file_path f) = Some [g]" by (intro map_of_is_SomeI) simp
    with assms(1,2) show False by (simp add: register_file_def Let_def)
  qed
  from assms(1) have "insertFileLocked f st = (Inr u, st')" by (auto simp: register_file_def Let_def split: if_splits option.splits)
  from insertFileLocked_paths [OF this] fresh assms(2,3) show ?thesis by (simp add: update_append)
qed

lemma runE_Inr [simp]: "runE m s = Inr t \<longleftrightarrow> (\<exists>u. m s = (Inr u, t))"
  by (auto simp: runE_def split: prod.splits sum.splits)

lemma collect_file_paths: "ag_filePaths (collect_file fd fp) = ag_filePaths fp @ [file_path fd]"
proof -
  have m: "ag_filePaths (collectMessage m fp) = ag_filePaths fp" for m fp
  proof (induction m arbitrary: fp)
    case (Message n fn fs ms es xs os)
    have "ag_filePaths (fold collectMessage ms fp) = ag_filePaths fp" for fp
      using Message by (induction ms arbitrary: fp) simp_all
    then show ?case by (simp add: Let_def)
  qed
  have "ag_filePaths (fold collectMessage ms fp) = ag_filePaths fp" for ms fp
    by (induction ms arbitrary: fp) (simp_all add: m)
  then show ?thesis by (simp add: collect_file_def Let_def)
qed

text \<open>The fingerprint lists the names of the types.\<close>

definition fingerprint_names :: "agg_fingerprint \<Rightarrow> string set" where
  "fingerprint_names fp = set (ag_messages fp) \<union> set (ag_enums fp) \<union> set (ag_extensions fp)"

lemma fingerprint_names_add [simp]:
  "fingerprint_names (fp\<lparr>ag_messages := ag_messages fp @ ns\<rparr>) = fingerprint_names fp \<union> set ns"
  "fingerprint_names (fp\<lparr>ag_enums := ag_enums fp @ ns\<rparr>) = fingerprint_names fp \<union> set ns"
  "fingerprint_names (fp\<lparr>ag_extensions := ag_extensions fp @ ns\<rparr>) = fingerprint_names fp \<union> set ns"
  "fingerprint_names (fp\<lparr>ag_enums := ag_enums fp @ ns, ag_extensions := ag_extensions fp @ ms\<rparr>) = fingerprint_names fp \<union> set ns \<union> set ms"
  "fingerprint_names (fp\<lparr>ag_filePaths := ns\<rparr>) = fingerprint_names fp"
  by (auto simp: fingerprint_names_def)

lemma collectMessage_names: "fingerprint_names (collectMessage m fp) = fingerprint_names fp \<union> type_full_name ` set (message_types m)"
proof (induction m arbitrary: fp)
  case (Message n fn fs ms es xs os)
  have "fingerprint_names (fold collectMessage ms fp) = fingerprint_names fp \<union> type_full_name ` set (concat (map message_types ms))" for fp
    using Message by (induction ms arbitrary: fp) (auto simp: image_Un)
  then show ?case by (simp add: Let_def image_Un image_image Un_ac)
qed

lemma collect_file_names: "fingerprint_names (collect_file fd fp) = fingerprint_names fp \<union> type_full_name ` set (file_types fd)"
proof -
  have "fingerprint_names (fold collectMessage ms fp) = fingerprint_names fp \<union> type_full_name ` set (concat (map message_types ms))" for ms fp
    by (induction ms arbitrary: fp) (auto simp: collectMessage_names image_Un)
  then show ?thesis by (simp add: collect_file_def file_types_def Let_def image_Un image_image Un_ac)
qed

lemma compile_files:
  assumes "foldE compile_file fds (files, types, fp) = Inr (files', types', fp')"
    and "filesByPath files = by_path us" and "distinct (map file_path us)"
    and "typesByName types = by_name (concat (map file_types us))" and "distinct (map type_full_name (concat (map file_types us)))" and "types_ok types"
    and "ag_filePaths fp = map file_path us" and "fingerprint_names fp = type_full_name ` set (concat (map file_types us))"
  shows "filesByPath files' = by_path (us @ fds) \<and> distinct (map file_path (us @ fds)) \<and>
    typesByName types' = by_name (concat (map file_types (us @ fds))) \<and> distinct (map type_full_name (concat (map file_types (us @ fds)))) \<and>
    types_ok types' \<and> ag_filePaths fp' = map file_path (us @ fds) \<and>
    fingerprint_names fp' = type_full_name ` set (concat (map file_types (us @ fds)))"
  using assms
proof (induction fds arbitrary: files types fp us)
  case Nil
  then show ?case by simp
next
  case (Cons fd fds)
  from Cons.prems(1) obtain mid where m: "compile_file fd (files, types, fp) = Inr mid" and rest': "foldE compile_file fds mid = Inr (files', types', fp')" by auto
  from m obtain files1 types1 v w where f: "register_file fd files = (Inr v, files1)"
    and t: "registerFileTypes fd types = (Inr w, types1)"
    and mid: "mid = (files1, types1, collect_file fd fp)"
    by (auto simp: compile_file_def)
  note rest = rest' [unfolded mid]
  note p = register_file_paths [OF f Cons.prems(2,3)]
  note q = register_types [OF t [unfolded registerFileTypes_eq] Cons.prems(4-6)]
  from Cons.IH [OF rest, of "us @ [fd]"] p q Cons.prems(7,8) show ?case
    by (simp add: collect_file_paths collect_file_names image_Un)
qed

text \<open>What a schema declares, and what its registries hold then.\<close>

definition declared :: "schema_snapshot \<Rightarrow> pbtype list" where
  "declared ss = concat (map file_types (snapshot_files ss))"

definition schema_ok :: "schema_snapshot \<Rightarrow> bool" where
  "schema_ok ss \<longleftrightarrow> distinct (map file_path (snapshot_files ss)) \<and> typesByName (cs_types ss) = by_name (declared ss) \<and>
     distinct (map type_full_name (declared ss)) \<and> types_ok (cs_types ss) \<and>
     ag_filePaths (cs_fingerprint ss) = map file_path (snapshot_files ss) \<and>
     fingerprint_names (cs_fingerprint ss) = type_full_name ` set (declared ss)"

lemma compileSchema_ok:
  assumes "compileSchema L ns sid v fdset raw = Inr ss"
  shows "schema_ok ss" and "cs_schemaID ss = sid" and "cs_version ss = v" and "cs_raw ss = raw" and "lib_NewFiles L fdset = Inr (snapshot_files ss)"
proof -
  from assms obtain fds files types fp where n: "lib_NewFiles L fdset = Inr fds"
    and c: "foldE compile_file fds (empty_files, empty_types, empty_fingerprint) = Inr (files, types, fp)"
    and ss: "ss = \<lparr>cs_schemaID = sid, cs_version = v, cs_files = files, cs_types = types, cs_fingerprint = fp, cs_raw = raw\<rparr>"
    by (auto simp: compileSchema_def libE_def split: sum.splits)
  have r: "filesByPath files = by_path fds \<and> distinct (map file_path fds) \<and> typesByName types = by_name (concat (map file_types fds)) \<and>
      distinct (map type_full_name (concat (map file_types fds))) \<and> types_ok types \<and> ag_filePaths fp = map file_path fds \<and>
      fingerprint_names fp = type_full_name ` set (concat (map file_types fds))"
    using compile_files [OF c, of "[]"] by (simp add: fingerprint_names_def empty_files_def empty_types_def empty_fingerprint_def types_ok_empty [unfolded empty_types_def])
  then have fs: "snapshot_files ss = fds" by (simp add: snapshot_files_def ss)
  with r show "schema_ok ss" by (simp add: schema_ok_def declared_def ss)
  show "cs_schemaID ss = sid" "cs_version ss = v" "cs_raw ss = raw" by (simp_all add: ss)
  show "lib_NewFiles L fdset = Inr (snapshot_files ss)" using n fs by simp
qed

section \<open>Snapshots\<close>

text \<open>A property of the entries of a map.\<close>

definition entries :: "('k \<Rightarrow> 'v \<Rightarrow> bool) \<Rightarrow> ('k \<times> 'v) list \<Rightarrow> bool" where
  "entries Q al \<longleftrightarrow> distinct (map fst al) \<and> (\<forall>(k, v) \<in> set al. Q k v)"

lemma entries_Nil [simp]: "entries Q []"
  by (simp add: entries_def)

lemma entriesD: "entries Q al \<Longrightarrow> map_of al k = Some v \<Longrightarrow> Q k v"
  by (auto simp: entries_def dest: map_of_SomeD)

lemma entries_update: "entries Q al \<Longrightarrow> Q k v \<Longrightarrow> entries Q (AList.update k v al)"
proof -
  have "set (AList.update k v al) \<subseteq> insert (k, v) (set al)" by (induction al) auto
  then show "entries Q al \<Longrightarrow> Q k v \<Longrightarrow> entries Q (AList.update k v al)" by (fastforce simp: entries_def distinct_update)
qed

lemma entries_mono: "entries Q al \<Longrightarrow> (\<And>k v. Q k v \<Longrightarrow> R k v) \<Longrightarrow> entries R al"
  by (fastforce simp: entries_def)

text \<open>
  A schema of a snapshot is what the descriptors in its raw form compile to, for any wire format that
  reads back what it writes.
\<close>

definition compiled_from_raw :: "lib \<Rightarrow> string \<Rightarrow> string \<Rightarrow> schema_snapshot \<Rightarrow> bool" where
  "compiled_from_raw L ns sid ss \<longleftrightarrow>
     (\<exists>fdset. lib_Unmarshal L (cs_raw ss) = Inr fdset \<and> compileSchema L ns sid (cs_version ss) fdset (cs_raw ss) = Inr ss)"

definition good_schema :: "string \<Rightarrow> schema_snapshot \<Rightarrow> bool" where
  "good_schema sid ss \<longleftrightarrow> schema_ok ss \<and> cs_schemaID ss = sid"

definition snap_ok :: "ns_snapshot \<Rightarrow> bool" where
  "snap_ok snap \<longleftrightarrow> entries good_schema (nss_schemas snap) \<and> no_shared_names snap \<and>
     (\<forall>n sid. map_of (nss_nameIndex snap) n = Some sid \<longleftrightarrow> declares snap sid n)"

lemma snap_okI:
  assumes "buildNameIndex snap = Inr snap'" and "nss_nameIndex snap = []" and "entries good_schema (nss_schemas snap)"
  shows "snap_ok snap' \<and> nss_schemas snap' = nss_schemas snap"
proof -
  have "distinct (map fst (nss_schemas snap))" using assms(3) by (simp add: entries_def)
  from name_index [OF this assms(2), of snap'] assms(1) have "nss_schemas snap' = nss_schemas snap" "no_shared_names snap"
      "\<forall>n sid. map_of (nss_nameIndex snap') n = Some sid \<longleftrightarrow> declares snap sid n" by auto
  then show ?thesis using assms(3) by (simp add: snap_ok_def no_shared_names_def declares_def)
qed

lemma fetchSchema_Inr:
  assumes "fetchSchema L conn ns sid v w = (Inr ss, w')"
  obtains got fdset raw where "rpc_GetDescriptor conn ns sid v w = (Inr (got, fdset), w')" and "lib_Marshal L fdset = Inr raw"
    and "compileSchema L ns sid got fdset raw = Inr ss"
proof -
  from assms obtain got fdset where "rpc_GetDescriptor conn ns sid v w = (Inr (got, fdset), w')"
    and "bindE (libE (lib_Marshal L fdset)) (compileSchema L ns sid got fdset) = Inr ss"
    by (auto simp: fetchSchema_def)
  then show ?thesis using that by (cases "lib_Marshal L fdset") (auto simp: libE_def)
qed

lemma fetched_good: "fetchSchema L conn ns sid v w = (Inr ss, w') \<Longrightarrow> good_schema sid ss"
  by (elim fetchSchema_Inr) (simp add: good_schema_def compileSchema_ok)

lemma fetched_raw:
  assumes "wire_roundtrip L" and "fetchSchema L conn ns sid v w = (Inr ss, w')"
  shows "compiled_from_raw L ns sid ss"
  using assms(2)
proof (rule fetchSchema_Inr)
  fix got fdset raw assume m: "lib_Marshal L fdset = Inr raw" and c: "compileSchema L ns sid got fdset raw = Inr ss"
  from assms(1) m have "lib_Unmarshal L raw = Inr fdset" by (simp add: wire_roundtrip_def)
  with c compileSchema_ok [OF c] show ?thesis by (auto simp: compiled_from_raw_def)
qed

section \<open>The loops that collect schemas\<close>

text \<open>
  The schemas collected from a listing: one for each entry with a current version, related to that
  version, and no other.
\<close>

definition in_step :: "(string \<Rightarrow> u64 \<Rightarrow> schema_snapshot \<Rightarrow> bool) \<Rightarrow> schema_info list \<Rightarrow> (string \<times> schema_snapshot) list \<Rightarrow> bool" where
  "in_step R infos al \<longleftrightarrow> (\<forall>sid. case map_of al sid of
     None \<Rightarrow> (\<forall>info \<in> set infos. si_SchemaId info = sid \<longrightarrow> si_CurrentVersion info = None)
   | Some ss \<Rightarrow> (\<exists>info \<in> set infos. \<exists>v. si_SchemaId info = sid \<and> si_CurrentVersion info = Some v \<and> R sid v ss))"

text \<open>What one round of such a loop does to the map it builds.\<close>

definition collects :: "(string \<Rightarrow> u64 \<Rightarrow> schema_snapshot \<Rightarrow> bool) \<Rightarrow> schema_info \<Rightarrow> (string \<times> schema_snapshot) list \<Rightarrow> (string \<times> schema_snapshot) list \<Rightarrow> bool" where
  "collects R info al al' \<longleftrightarrow> (case si_CurrentVersion info of
     None \<Rightarrow> al' = al
   | Some v \<Rightarrow> (\<exists>ss. R (si_SchemaId info) v ss \<and> al' = AList.update (si_SchemaId info) ss al))"

lemma collects_in_step:
  assumes "in_step R infos al" and "collects R info al al'"
  shows "in_step R (infos @ [info]) al'"
proof (cases "si_CurrentVersion info")
  case None
  with assms show ?thesis by (force simp: in_step_def collects_def split: option.splits)
next
  case (Some v)
  then obtain ss where ss: "R (si_SchemaId info) v ss" and al': "al' = AList.update (si_SchemaId info) ss al"
    using assms(2) by (auto simp: collects_def)
  have "case map_of al' sid of
     None \<Rightarrow> (\<forall>info' \<in> set (infos @ [info]). si_SchemaId info' = sid \<longrightarrow> si_CurrentVersion info' = None)
   | Some ss \<Rightarrow> (\<exists>info' \<in> set (infos @ [info]). \<exists>v. si_SchemaId info' = sid \<and> si_CurrentVersion info' = Some v \<and> R sid v ss)" for sid
  proof (cases "sid = si_SchemaId info")
    case True
    with Some ss show ?thesis by (auto simp: al' update_conv')
  next
    case False
    moreover have "map_of al' sid = map_of al sid" using False by (simp add: al' update_conv')
    ultimately show ?thesis using assms(1) by (force simp: in_step_def split: option.splits)
  qed
  then show ?thesis by (simp add: in_step_def)
qed

lemma loop_in_step:
  assumes "eachA f infos (w, st) = (Inr u, (w', st'))" and "calm w" and "in_step R seen (get st)"
    and "\<And>info w st t x. info \<in> set infos \<Longrightarrow> calm w \<Longrightarrow> f info (w, st) = (Inr x, t) \<Longrightarrow>
      fst t = w \<and> collects R info (get st) (get (snd t))"
  shows "w' = w \<and> in_step R (seen @ infos) (get st')"
  using assms(1,3,4)
proof (induction infos arbitrary: st seen)
  case Nil
  then show ?case by simp
next
  case (Cons info infos)
  from Cons.prems(1) obtain x t where f: "f info (w, st) = (Inr x, t)" and rest: "eachA f infos t = (Inr u, (w', st'))" by auto
  from Cons.prems(3) [OF _ assms(2) f] have t: "fst t = w" and c: "collects R info (get st) (get (snd t))" by simp_all
  from rest t have rest': "eachA f infos (w, snd t) = (Inr u, (w', st'))" by (metis prod.collapse)
  have "w' = w \<and> in_step R ((seen @ [info]) @ infos) (get st')"
    by (rule Cons.IH [OF rest' collects_in_step [OF Cons.prems(2) c]]) (rule Cons.prems(3); simp)
  then show ?case by simp
qed

text \<open>
  What a client needs from the service behind its stub: in a calm state a descriptor that is returned was read without
  an effect, and has the version that was asked for.
\<close>

locale descriptor_service =
  fixes conn :: "'w conn" and calm :: "'w \<Rightarrow> bool"
  assumes read: "calm w \<Longrightarrow> rpc_GetDescriptor conn ns sid v w = (Inr (got, fds), w') \<Longrightarrow> w' = w \<and> (v \<noteq> 0 \<longrightarrow> got = v)"
begin

abbreviation fetched_at :: "lib \<Rightarrow> string \<Rightarrow> 'w \<Rightarrow> string \<Rightarrow> u64 \<Rightarrow> schema_snapshot \<Rightarrow> bool" where
  "fetched_at L ns w sid v ss \<equiv> fetchSchema L conn ns sid v w = (Inr ss, w)"

lemma fetch_read:
  assumes "calm w" and "fetchSchema L conn ns sid v w = (Inr ss, w')"
  shows "w' = w \<and> (v \<noteq> 0 \<longrightarrow> cs_version ss = v)"
  using assms(2) by (rule fetchSchema_Inr) (use read [OF assms(1)] compileSchema_ok in metis)

lemma fetch_loop:
  assumes "eachA (fetch_current L conn ns) infos (w, newSnapshot) = (Inr u, (w', snap))" and "calm w"
  shows "w' = w \<and> in_step (fetched_at L ns w) infos (nss_schemas snap)"
proof -
  let ?R = "\<lambda>sid v ss. fetchSchema L conn ns sid v w = (Inr ss, w)"
  have "w' = w \<and> in_step ?R ([] @ infos) (nss_schemas snap)"
  proof (rule loop_in_step [where calm = "\<lambda>x. x = w", OF assms(1)])
    show "w = w" by simp
    show "in_step ?R [] (nss_schemas newSnapshot)" by (simp add: in_step_def newSnapshot_def)
    fix info w0 st t x assume "w0 = w" and f: "fetch_current L conn ns info (w0, st) = (Inr x, t)"
    then show "fst t = w0 \<and> collects ?R info (nss_schemas st) (nss_schemas (snd t))"
      using fetch_read [OF assms(2)] by (fastforce simp: fetch_current_def collects_def split: option.splits)
  qed
  then show ?thesis by simp
qed

lemma plan_loop:
  assumes "eachA (plan_schema L conn r) infos (w, \<lparr>rp_next = [], rp_added = [], rp_replaced = []\<rparr>) = (Inr u, (w', p))" and "calm w"
  shows "w' = w \<and> in_step (\<lambda>sid v ss. v \<noteq> 0 \<longrightarrow> cs_version ss = v) infos (rp_next p)"
proof -
  let ?R = "\<lambda>sid v ss. v \<noteq> 0 \<longrightarrow> cs_version ss = v"
  have "w' = w \<and> in_step ?R ([] @ infos) (rp_next p)"
  proof (rule loop_in_step [where calm = "\<lambda>x. x = w", OF assms(1)])
    show "w = w" by simp
    show "in_step ?R [] (rp_next \<lparr>rp_next = [], rp_added = [], rp_replaced = []\<rparr>)" by (simp add: in_step_def)
    fix info w0 st t x assume "w0 = w" and f: "plan_schema L conn r info (w0, st) = (Inr x, t)"
    then show "fst t = w0 \<and> collects ?R info (rp_next st) (rp_next (snd t))"
      using fetch_read [OF assms(2)]
      by (fastforce simp: plan_schema_def collects_def Let_def split: option.splits if_splits)
  qed
  then show ?thesis by simp
qed

end

end
