(* ===== verification/Client_Aggregate.thy ===== *)
theory Client_Aggregate
  imports Client_Facts
begin

text \<open>
  The aggregate type registry of a namespace, which the client changes step by step as schemas come, change and
  go: after every step that succeeds it holds exactly the types of the schemas of the snapshot.
\<close>

section \<open>Folding a schema in and out\<close>

lemma registerMessageTypesUpdate_eq: "registerMessageTypesUpdate m = eachA update_type (message_types m)"
proof (induction m)
  case (Message n fn fs ms es xs os)
  then have "eachA registerMessageTypesUpdate ms = eachA update_type (concat (map message_types ms))" by (rule eachA_concat)
  then show ?case by (simp add: eachA_append eachA_map)
qed

lemma registerFileTypesUpdate_eq: "registerFileTypesUpdate fd = eachA update_type (file_types fd)"
proof -
  have "eachA registerMessageTypesUpdate ms = eachA update_type (concat (map message_types ms))" for ms
    by (rule eachA_concat) (rule registerMessageTypesUpdate_eq)
  then show ?thesis by (simp add: registerFileTypesUpdate_def file_types_def eachA_append eachA_map)
qed

lemma update_types: "eachA update_type ts st = (x, st') \<Longrightarrow> type_at st' = type_at st ++ map_of (rev (by_name ts))"
proof (induction ts arbitrary: st)
  case (Cons t ts)
  obtain st1 where s1: "update_type t st = (Inr (), st1)" by (metis prod.collapse update_type_maps(1))
  with Cons.prems have "eachA update_type ts st1 = (x, st')" by (simp add: act_defs)
  from Cons.IH [OF this] update_type_maps(2) [of t st] s1 show ?case by (simp add: update_conv' fun_eq_iff map_add_def split: option.splits)
qed (simp add: act_defs)

lemma apply_files:
  assumes "eachA (\<lambda>fd. thenA (wrapA (p fd) (on_files (update_file fd))) (wrapA (q fd) (on_types (registerFileTypesUpdate fd)))) fds agg = (Inr u, agg')"
  shows "type_at (snd agg') = type_at (snd agg) ++ map_of (rev (by_name (concat (map file_types fds))))"
  using assms
proof (induction fds arbitrary: agg)
  case (Cons fd fds)
  from Cons.prems obtain v a1 where s: "thenA (wrapA (p fd) (on_files (update_file fd))) (wrapA (q fd) (on_types (registerFileTypesUpdate fd))) agg = (Inr v, a1)"
    and rest: "eachA (\<lambda>fd. thenA (wrapA (p fd) (on_files (update_file fd))) (wrapA (q fd) (on_types (registerFileTypesUpdate fd)))) fds a1 = (Inr u, agg')"
    unfolding eachA.simps thenA_Inr [of _ "eachA _ _"] by blast
  from s obtain t1 where "registerFileTypesUpdate fd (snd agg) = (Inr v, t1)" "snd a1 = t1" by (cases agg) auto
  then have "type_at (snd a1) = type_at (snd agg) ++ map_of (rev (by_name (file_types fd)))"
    using update_types by (simp add: registerFileTypesUpdate_eq)
  with Cons.IH [OF rest] show ?case by simp
qed simp

lemma applied_types:
  "applyToAggregate ss agg = (Inr u, agg') \<Longrightarrow> type_at (snd agg') = type_at (snd agg) ++ map_of (rev (by_name (declared ss)))"
  unfolding applyToAggregate_def declared_def by (rule apply_files)

lemma unregister_types:
  "eachA (\<lambda>n. wrapA (p n) (on_types (unregister n))) names agg = (Inr u, agg') \<Longrightarrow>
   (\<And>n st v st'. unregister n st = (Inr v, st') \<Longrightarrow> type_at st' = (type_at st)(n := None)) \<Longrightarrow>
   type_at (snd agg') = (\<lambda>n. if n \<in> set names then None else type_at (snd agg) n)"
proof (induction names arbitrary: agg)
  case (Cons m names)
  from Cons.prems(1) obtain v a1 where s: "on_types (unregister m) agg = (Inr v, a1)"
    and rest: "eachA (\<lambda>n. wrapA (p n) (on_types (unregister n))) names a1 = (Inr u, agg')" by (auto simp del: zoomA_Inr)
  from s have "type_at (snd a1) = (type_at (snd agg))(m := None)" using Cons.prems(2) by (cases agg) auto
  with Cons.IH [OF rest Cons.prems(2)] show ?case by auto
qed simp

lemma unregister_one:
  "unregister_message n st = (Inr v, st') \<Longrightarrow> type_at st' = (type_at st)(n := None)"
  "unregister_enum n st = (Inr v, st') \<Longrightarrow> type_at st' = (type_at st)(n := None)"
  "unregister_extension n st = (Inr v, st') \<Longrightarrow> type_at st' = (type_at st)(n := None)"
  by (auto simp: unregister_defs delete_conv' split: option.splits pbtype.splits)

lemma unregister_files_types:
  "eachA (\<lambda>n. wrapA (p n) (on_files (unregister_file n))) names agg = (Inr u, agg') \<Longrightarrow> snd agg' = snd agg"
  by (induction names arbitrary: agg) fastforce+

lemma removed_types:
  assumes "removeFromAggregate ss agg = (Inr u, agg')"
  shows "type_at (snd agg') = (\<lambda>n. if n \<in> fingerprint_names (cs_fingerprint ss) then None else type_at (snd agg) n)"
proof -
  let ?fp = "cs_fingerprint ss" and ?g = "\<lambda>what name. ''unregister '' @ what @ '' '' @ name @ '' (schema '' @ cs_schemaID ss @ ''): ''"
  from assms obtain a1 a2 a3 v1 v2 v3 where
      1: "eachA (\<lambda>n. wrapA (?g ''file'' n) (on_files (unregister_file n))) (ag_filePaths ?fp) agg = (Inr v1, a1)"
    and 2: "eachA (\<lambda>n. wrapA (?g ''message'' n) (on_types (unregister_message n))) (ag_messages ?fp) a1 = (Inr v2, a2)"
    and 3: "eachA (\<lambda>n. wrapA (?g ''enum'' n) (on_types (unregister_enum n))) (ag_enums ?fp) a2 = (Inr v3, a3)"
    and 4: "eachA (\<lambda>n. wrapA (?g ''extension'' n) (on_types (unregister_extension n))) (ag_extensions ?fp) a3 = (Inr u, agg')"
    unfolding removeFromAggregate_def Let_def thenA_Inr by blast
  show ?thesis
    using unregister_files_types [OF 1] unregister_types [OF 2 unregister_one(1)] unregister_types [OF 3 unregister_one(2)]
      unregister_types [OF 4 unregister_one(3)]
    by (auto simp: fingerprint_names_def)
qed

section \<open>Holding the types of a set of schemas\<close>

definition agg_is :: "types_state \<Rightarrow> schema_snapshot set \<Rightarrow> bool" where
  "agg_is T S \<longleftrightarrow> (\<forall>n t. type_at T n = Some t \<longleftrightarrow> type_full_name t = n \<and> (\<exists>ss \<in> S. t \<in> set (declared ss)))"

abbreviation type_names :: "schema_snapshot \<Rightarrow> string set" where
  "type_names ss \<equiv> type_full_name ` set (declared ss)"

text \<open>No two of the schemas declare a type of the same name.\<close>

definition apart :: "schema_snapshot set \<Rightarrow> bool" where
  "apart S \<longleftrightarrow> (\<forall>ss \<in> S. schema_ok ss \<and> (\<forall>ss' \<in> S. ss \<noteq> ss' \<longrightarrow> type_names ss \<inter> type_names ss' = {}))"

lemma agg_is_empty: "agg_is empty_types {}"
  by (simp add: agg_is_def empty_types_def)

lemma apart_subset: "apart S \<Longrightarrow> T \<subseteq> S \<Longrightarrow> apart T"
  unfolding apart_def by blast

lemma map_of_declared:
  assumes "schema_ok ss"
  shows "map_of (rev (by_name (declared ss))) n = Some t \<longleftrightarrow> type_full_name t = n \<and> t \<in> set (declared ss)"
proof -
  have "distinct (map fst (rev (by_name (declared ss))))" using assms by (simp add: schema_ok_def rev_map [symmetric])
  then have "map_of (rev (by_name (declared ss))) n = Some t \<longleftrightarrow> (n, t) \<in> set (rev (by_name (declared ss)))" by (rule map_of_eq_Some_iff)
  then show ?thesis by (auto simp: by_name_def)
qed

lemma agg_apply:
  assumes "applyToAggregate ss agg = (Inr u, agg')" and "agg_is (snd agg) S" and "apart (insert ss S)"
  shows "agg_is (snd agg') (insert ss S)"
  unfolding agg_is_def
proof (intro allI)
  fix n t
  have ok: "schema_ok ss" and away: "\<And>ss'. ss' \<in> S \<Longrightarrow> ss \<noteq> ss' \<Longrightarrow> type_names ss \<inter> type_names ss' = {}"
    using assms(3) by (auto simp: apart_def)
  have old: "type_at (snd agg) n = Some t \<longleftrightarrow> type_full_name t = n \<and> (\<exists>ss \<in> S. t \<in> set (declared ss))" for t
    using assms(2) by (simp add: agg_is_def)
  show "type_at (snd agg') n = Some t \<longleftrightarrow> type_full_name t = n \<and> (\<exists>ss \<in> insert ss S. t \<in> set (declared ss))"
  proof (cases "n \<in> type_names ss")
    case True
    then obtain t0 where t0: "map_of (rev (by_name (declared ss))) n = Some t0" using map_of_declared [OF ok] by blast
    have "type_at (snd agg') n = Some t \<longleftrightarrow> type_full_name t = n \<and> t \<in> set (declared ss)"
    proof -
      have "type_at (snd agg') n = Some t0" unfolding applied_types [OF assms(1)] using t0 by (rule map_add_find_right)
      then show ?thesis unfolding map_of_declared [OF ok, of n t, symmetric] t0 by simp
    qed
    moreover have "t \<in> set (declared ss)" if "type_full_name t = n" "ss' \<in> S" "t \<in> set (declared ss')" for ss'
      using away [OF that(2)] True that(1,3) by (cases "ss = ss'") auto
    ultimately show ?thesis by blast
  next
    case False
    then have "map_of (rev (by_name (declared ss))) n = None" using map_of_declared [OF ok, of n] by (metis imageI not_None_eq)
    then have "type_at (snd agg') n = type_at (snd agg) n" unfolding applied_types [OF assms(1)] by (simp add: map_add_def)
    with old False show ?thesis by auto
  qed
qed

lemma agg_remove:
  assumes "removeFromAggregate ss agg = (Inr u, agg')" and "agg_is (snd agg) S" and "apart (insert ss S)"
  shows "agg_is (snd agg') (S - {ss})"
  unfolding agg_is_def
proof (intro allI)
  fix n t
  have "schema_ok ss" and away: "\<And>ss'. ss' \<in> S \<Longrightarrow> ss \<noteq> ss' \<Longrightarrow> type_names ss \<inter> type_names ss' = {}"
    using assms(3) by (auto simp: apart_def)
  then have fp: "fingerprint_names (cs_fingerprint ss) = type_names ss" by (simp add: schema_ok_def)
  have old: "type_at (snd agg) n = Some t \<longleftrightarrow> type_full_name t = n \<and> (\<exists>ss \<in> S. t \<in> set (declared ss))" for t
    using assms(2) by (simp add: agg_is_def)
  have new: "type_at (snd agg') n = (if n \<in> type_names ss then None else type_at (snd agg) n)" by (simp add: removed_types [OF assms(1)] fp)
  show "type_at (snd agg') n = Some t \<longleftrightarrow> type_full_name t = n \<and> (\<exists>ss \<in> S - {ss}. t \<in> set (declared ss))"
  proof (cases "n \<in> type_names ss")
    case True
    then have "type_at (snd agg') n = None" by (simp add: new)
    moreover have "t \<notin> set (declared ss')" if "type_full_name t = n" "ss' \<in> S" "ss \<noteq> ss'" for ss'
      using away [OF that(2,3)] True that(1) by blast
    ultimately show ?thesis by auto
  next
    case False
    then have "type_at (snd agg') n = type_at (snd agg) n" by (simp add: new)
    with old False show ?thesis by auto
  qed
qed

lemma agg_apply_all:
  "eachA g xs agg = (Inr u, agg') \<Longrightarrow> (\<And>x a v a'. g x a = (Inr v, a') \<Longrightarrow> applyToAggregate (f x) a = (Inr v, a')) \<Longrightarrow>
   agg_is (snd agg) S \<Longrightarrow> apart (f ` set xs \<union> S) \<Longrightarrow> agg_is (snd agg') (f ` set xs \<union> S)"
proof (induction xs arbitrary: agg S)
  case (Cons x xs)
  from Cons.prems(1) obtain v a1 where s: "g x agg = (Inr v, a1)" and rest: "eachA g xs a1 = (Inr u, agg')" by auto
  have "agg_is (snd a1) (insert (f x) S)"
    by (rule agg_apply [OF Cons.prems(2) [OF s] Cons.prems(3)]) (rule apart_subset [OF Cons.prems(4)], auto)
  from Cons.IH [OF rest Cons.prems(2) this] Cons.prems(4) show ?case by simp
qed simp

lemma agg_remove_all:
  "eachA g xs agg = (Inr u, agg') \<Longrightarrow> (\<And>x a v a'. g x a = (Inr v, a') \<Longrightarrow> removeFromAggregate (f x) a = (Inr v, a')) \<Longrightarrow>
   agg_is (snd agg) S \<Longrightarrow> apart (f ` set xs \<union> S) \<Longrightarrow> agg_is (snd agg') (S - f ` set xs)"
proof (induction xs arbitrary: agg S)
  case (Cons x xs)
  from Cons.prems(1) obtain v a1 where s: "g x agg = (Inr v, a1)" and rest: "eachA g xs a1 = (Inr u, agg')" by auto
  have "agg_is (snd a1) (S - {f x})"
    by (rule agg_remove [OF Cons.prems(2) [OF s] Cons.prems(3)]) (rule apart_subset [OF Cons.prems(4)], auto)
  moreover have "apart (f ` set xs \<union> (S - {f x}))" by (rule apart_subset [OF Cons.prems(4)]) auto
  ultimately have "agg_is (snd agg') (S - {f x} - f ` set xs)" using Cons.IH [OF rest Cons.prems(2)] by simp
  moreover have "S - {f x} - f ` set xs = S - f ` set (x # xs)" by auto
  ultimately show ?case by simp
qed simp

section \<open>The schemas of a snapshot\<close>

abbreviation schemas_in :: "(string \<times> schema_snapshot) list \<Rightarrow> schema_snapshot set" where
  "schemas_in al \<equiv> snd ` set al"

lemma image_concat_subset: "(\<And>x. x \<in> set xs \<Longrightarrow> f ` set (g x) \<subseteq> set (h x)) \<Longrightarrow> f ` set (concat (map g xs)) \<subseteq> set (concat (map h xs))"
  unfolding set_concat set_map image_Union by blast

lemma message_type_names: "type_full_name ` set (message_types m) \<subseteq> set (rangeMessageDescriptors m)"
proof (induction m)
  case (Message n fn fs ms es xs os)
  then have "type_full_name ` set (concat (map message_types ms)) \<subseteq> set (concat (map rangeMessageDescriptors ms))" by (rule image_concat_subset)
  then show ?case by (auto simp: image_Un image_image)
qed

lemma type_names_schema_names: "type_names ss \<subseteq> set (schema_names ss)"
proof -
  have "type_full_name ` set (file_types fd) \<subseteq> set (rangeFileDescriptors fd)" for fd
  proof -
    have "type_full_name ` set (concat (map message_types ms)) \<subseteq> set (concat (map rangeMessageDescriptors ms))" for ms
      by (rule image_concat_subset) (rule message_type_names)
    from this [of "file_messages fd"] show ?thesis by (auto simp: file_types_def rangeFileDescriptors_def image_Un image_image)
  qed
  then have "type_full_name ` set (concat (map file_types fds)) \<subseteq> set (concat (map rangeFileDescriptors fds))" for fds
    by (rule image_concat_subset)
  then show ?thesis by (simp only: declared_def schema_names_def)
qed

lemma schemas_in_iff:
  assumes "entries good_schema al"
  shows "ss \<in> schemas_in al \<longleftrightarrow> map_of al (cs_schemaID ss) = Some ss"
proof
  assume "ss \<in> schemas_in al"
  then obtain sid where m: "(sid, ss) \<in> set al" by fastforce
  with assms have "good_schema sid ss" unfolding entries_def by blast
  then have "sid = cs_schemaID ss" by (simp add: good_schema_def)
  with m assms show "map_of al (cs_schemaID ss) = Some ss" by (simp add: entries_def)
next
  assume "map_of al (cs_schemaID ss) = Some ss"
  then show "ss \<in> schemas_in al" by (metis map_of_SomeD image_eqI snd_conv)
qed

lemma apart_schemas:
  assumes "entries good_schema (nss_schemas snap)" and "no_shared_names snap"
  shows "apart (schemas_in (nss_schemas snap))"
  unfolding apart_def
proof (intro ballI conjI impI)
  fix ss ss' assume s: "ss \<in> schemas_in (nss_schemas snap)" and s': "ss' \<in> schemas_in (nss_schemas snap)" and ne: "ss \<noteq> ss'"
  note at = s [unfolded schemas_in_iff [OF assms(1)]] s' [unfolded schemas_in_iff [OF assms(1)]]
  show "type_names ss \<inter> type_names ss' = {}"
  proof (rule ccontr)
    assume "type_names ss \<inter> type_names ss' \<noteq> {}"
    then obtain n where "n \<in> set (schema_names ss)" "n \<in> set (schema_names ss')" using type_names_schema_names by blast
    with at have "declares snap (cs_schemaID ss) n" "declares snap (cs_schemaID ss') n" by (simp_all add: declares_def)
    with assms(2) have "cs_schemaID ss = cs_schemaID ss'" by (simp add: no_shared_names_def)
    with at ne show False by simp
  qed
next
  fix ss assume "ss \<in> schemas_in (nss_schemas snap)"
  then show "schema_ok ss" using assms(1) by (auto simp: entries_def good_schema_def)
qed

lemma snap_ok_apart: "snap_ok snap \<Longrightarrow> apart (schemas_in (nss_schemas snap))"
  by (simp add: snap_ok_def apart_schemas)

lemma schemas_in_sorted:
  assumes "distinct (map fst al)"
  shows "(\<lambda>sid. the (map_of al sid)) ` set (sort (map fst al)) = schemas_in al"
proof -
  have "the (map_of al sid) = ss" if "(sid, ss) \<in> set al" for sid ss using that assms by simp
  then show ?thesis by force
qed

lemma applyAll_agg:
  assumes "applyAll snap agg = (Inr u, agg')" and "snap_ok snap" and "agg_is (snd agg) {}"
  shows "agg_is (snd agg') (schemas_in (nss_schemas snap))"
proof -
  have d: "distinct (map fst (nss_schemas snap))" using assms(2) by (simp add: snap_ok_def entries_def)
  from agg_apply_all [OF assms(1) [unfolded applyAll_def], of "\<lambda>sid. the (map_of (nss_schemas snap) sid)" "{}"] snap_ok_apart [OF assms(2)] assms(3)
  show ?thesis unfolding schemas_in_sorted [OF d] by simp
qed

section \<open>The plan of a refresh\<close>

text \<open>
  After the schemas of a listing without repetitions were planned: a planned schema is the present one, is added, or
  replaces the present one, and every entry of the plan says which.
\<close>

definition plan_ok :: "(string \<times> schema_snapshot) list \<Rightarrow> string set \<Rightarrow> refresh_plan \<Rightarrow> bool" where
  "plan_ok cur seen p \<longleftrightarrow> entries good_schema (rp_next p) \<and> fst ` set (rp_next p) \<subseteq> seen \<and>
     (\<forall>sid ss. map_of (rp_next p) sid = Some ss \<longrightarrow>
        map_of cur sid = Some ss \<and> ss \<notin> fst ` set (rp_replaced p) \<or> ss \<in> set (rp_added p) \<or> ss \<in> snd ` set (rp_replaced p)) \<and>
     (\<forall>(old, fresh) \<in> set (rp_replaced p). map_of cur (cs_schemaID old) = Some old \<and> map_of (rp_next p) (cs_schemaID old) = Some fresh) \<and>
     (\<forall>ss \<in> set (rp_added p). map_of cur (cs_schemaID ss) = None \<and> map_of (rp_next p) (cs_schemaID ss) = Some ss)"

lemma plan_okD:
  assumes "plan_ok cur seen p"
  shows "entries good_schema (rp_next p)" and "map_of (rp_next p) sid = Some ss \<Longrightarrow> sid \<in> seen"
    and "map_of (rp_next p) sid = Some ss \<Longrightarrow>
        map_of cur sid = Some ss \<and> ss \<notin> fst ` set (rp_replaced p) \<or> ss \<in> set (rp_added p) \<or> ss \<in> snd ` set (rp_replaced p)"
    and "(old, fresh) \<in> set (rp_replaced p) \<Longrightarrow> map_of cur (cs_schemaID old) = Some old \<and> map_of (rp_next p) (cs_schemaID old) = Some fresh"
    and "ss \<in> set (rp_added p) \<Longrightarrow> map_of cur (cs_schemaID ss) = None \<and> map_of (rp_next p) (cs_schemaID ss) = Some ss"
  using assms unfolding plan_ok_def by (blast, metis (no_types, lifting) image_subset_iff fst_conv map_of_SomeD, blast, blast, blast)

text \<open>The three ways a schema that was not seen yet enters the plan.\<close>

lemma plan_ok_step:
  assumes p: "plan_ok cur seen p" and cur: "entries good_schema cur" and new: "sid \<notin> seen" and good: "good_schema sid ss"
    and next': "rp_next p' = AList.update sid ss (rp_next p)"
    and kind: "map_of cur sid = Some ss \<and> rp_added p' = rp_added p \<and> rp_replaced p' = rp_replaced p \<or>
      map_of cur sid = None \<and> rp_added p' = rp_added p @ [ss] \<and> rp_replaced p' = rp_replaced p \<or>
      (\<exists>old. map_of cur sid = Some old \<and> rp_added p' = rp_added p \<and> rp_replaced p' = rp_replaced p @ [(old, ss)])"
  shows "plan_ok cur (insert sid seen) p'"
proof -
  note d = plan_okD [OF p]
  have at: "map_of (rp_next p') = (map_of (rp_next p))(sid \<mapsto> ss)" by (simp add: next' update_conv')
  have sid: "cs_schemaID ss = sid" using good by (simp add: good_schema_def)
  have other: "cs_schemaID x \<noteq> sid" if "map_of (rp_next p) (cs_schemaID x) = Some y" for x y using d(2) [OF that] new by blast
  have id: "cs_schemaID x = s" if "map_of cur s = Some x" for x s using entriesD [OF cur that] by (simp add: good_schema_def)
  have id': "cs_schemaID x = s" if "map_of (rp_next p) s = Some x" for x s using entriesD [OF d(1) that] by (simp add: good_schema_def)
  have keys: "fst ` set (rp_next p') \<subseteq> insert sid seen"
    using p unfolding plan_ok_def next' by (auto simp: dom_update [unfolded dom_map_of_conv_image_fst] image_iff) 
  have old_other: "o' \<noteq> x" if "map_of cur sid = Some o'" "map_of (rp_next p) s = Some x" "s \<in> seen" for o' x s
    using id [OF that(1)] id' [OF that(2)] that(3) new by blast
  have r_old: "cs_schemaID o' \<in> seen" if "o' \<in> fst ` set (rp_replaced p)" for o'
    using that d(4) d(2) by fastforce
  show ?thesis unfolding plan_ok_def
  proof (intro conjI)
    show "entries good_schema (rp_next p')" unfolding next' by (rule entries_update [OF d(1) good])
    show "fst ` set (rp_next p') \<subseteq> insert sid seen" by (rule keys)
    show "\<forall>s x. map_of (rp_next p') s = Some x \<longrightarrow>
        map_of cur s = Some x \<and> x \<notin> fst ` set (rp_replaced p') \<or> x \<in> set (rp_added p') \<or> x \<in> snd ` set (rp_replaced p')"
    proof (intro allI impI)
      fix s x assume x: "map_of (rp_next p') s = Some x"
      show "map_of cur s = Some x \<and> x \<notin> fst ` set (rp_replaced p') \<or> x \<in> set (rp_added p') \<or> x \<in> snd ` set (rp_replaced p')"
      proof (cases "s = sid")
        case True
        with x at have "x = ss" by simp
        moreover have "ss \<notin> fst ` set (rp_replaced p)" using r_old [of ss] sid new by blast
        ultimately show ?thesis using kind True by auto
      next
        case False
        with x at have x': "map_of (rp_next p) s = Some x" by simp
        from d(3) [OF this] kind old_other [OF _ x' d(2) [OF x']] show ?thesis by auto
      qed
    qed
    show "\<forall>(old, fresh) \<in> set (rp_replaced p'). map_of cur (cs_schemaID old) = Some old \<and> map_of (rp_next p') (cs_schemaID old) = Some fresh"
    proof (clarify, rename_tac old fresh)
      fix old fresh assume r: "(old, fresh) \<in> set (rp_replaced p')"
      show "map_of cur (cs_schemaID old) = Some old \<and> map_of (rp_next p') (cs_schemaID old) = Some fresh"
      proof (cases "(old, fresh) \<in> set (rp_replaced p)")
        case True
        from d(4) [OF this] other show ?thesis by (auto simp: at)
      next
        case False
        with r kind have "map_of cur sid = Some old" "fresh = ss" by auto
        with id [of sid old] show ?thesis by (simp add: at)
      qed
    qed
    show "\<forall>x \<in> set (rp_added p'). map_of cur (cs_schemaID x) = None \<and> map_of (rp_next p') (cs_schemaID x) = Some x"
    proof
      fix x assume x: "x \<in> set (rp_added p')"
      show "map_of cur (cs_schemaID x) = None \<and> map_of (rp_next p') (cs_schemaID x) = Some x"
      proof (cases "x \<in> set (rp_added p)")
        case True
        from d(5) [OF this] other show ?thesis by (auto simp: at)
      next
        case False
        with x kind have "map_of cur sid = None" "x = ss" by auto
        with sid show ?thesis by (simp add: at)
      qed
    qed
  qed
qed

lemma plan_schema_ok:
  assumes run: "plan_schema L conn r info (w, p) = (Inr u, (w', p'))" and p: "plan_ok (current_schemas r) seen p"
    and cur: "entries good_schema (current_schemas r)" and new: "si_SchemaId info \<notin> seen"
  shows "plan_ok (current_schemas r) (insert (si_SchemaId info) seen) p'"
proof (cases "si_CurrentVersion info")
  case None
  with run have "p' = p" by (simp add: plan_schema_def)
  with p show ?thesis unfolding plan_ok_def by blast
next
  case (Some v)
  let ?sid = "si_SchemaId info" and ?cur = "current_schemas r"
  from run Some obtain ss where "rp_next p' = AList.update ?sid ss (rp_next p)"
    and "map_of ?cur ?sid = Some ss \<and> rp_added p' = rp_added p \<and> rp_replaced p' = rp_replaced p \<or>
      good_schema ?sid ss \<and> map_of ?cur ?sid = None \<and> rp_added p' = rp_added p @ [ss] \<and> rp_replaced p' = rp_replaced p \<or>
      good_schema ?sid ss \<and> (\<exists>old. map_of ?cur ?sid = Some old \<and> rp_added p' = rp_added p \<and> rp_replaced p' = rp_replaced p @ [(old, ss)])"
    by (auto simp: plan_schema_def Let_def split: option.splits if_splits dest!: fetched_good)
  moreover from this(2) entriesD [OF cur] have "good_schema ?sid ss" by blast
  ultimately show ?thesis using plan_ok_step [OF p cur new] by blast
qed

lemma plan_run_ok:
  assumes "eachA (plan_schema L conn r) infos (w, p) = (Inr u, (w', p'))" and "plan_ok (current_schemas r) seen p"
    and "entries good_schema (current_schemas r)" and "distinct (map si_SchemaId infos)" and "seen \<inter> si_SchemaId ` set infos = {}"
  shows "plan_ok (current_schemas r) (seen \<union> si_SchemaId ` set infos) p'"
  using assms
proof (induction infos arbitrary: w p seen)
  case (Cons info infos)
  from Cons.prems(1) obtain v w1 p1 where s: "plan_schema L conn r info (w, p) = (Inr v, (w1, p1))"
    and rest: "eachA (plan_schema L conn r) infos (w1, p1) = (Inr u, (w', p'))" by auto
  from Cons.prems(5) have "si_SchemaId info \<notin> seen" by auto
  from plan_schema_ok [OF s Cons.prems(2,3) this] have "plan_ok (current_schemas r) (insert (si_SchemaId info) seen) p1" .
  from Cons.IH [OF rest this Cons.prems(3)] Cons.prems(4,5) show ?case by auto
qed simp

lemma plan_good:
  assumes "eachA (plan_schema L conn r) infos (w, p) = (x, (w', p'))" and "entries good_schema (rp_next p)"
    and "entries good_schema (current_schemas r)"
  shows "entries good_schema (rp_next p')"
proof -
  have "entries good_schema (rp_next (snd t))" if "plan_schema L conn r info s = (y, t)" "entries good_schema (rp_next (snd s))" for info s y t
  proof (cases "si_CurrentVersion info")
    case None
    with that show ?thesis by (auto simp: plan_schema_def retA_def)
  next
    case (Some v)
    obtain w0 p0 where s: "s = (w0, p0)" by fastforce
    from that(1) Some have "rp_next (snd t) = rp_next p0 \<or>
        (\<exists>ss. rp_next (snd t) = AList.update (si_SchemaId info) ss (rp_next p0) \<and> good_schema (si_SchemaId info) ss)"
      by (auto simp: plan_schema_def s Let_def act_defs wrapE_def split: option.splits if_splits prod.splits sum.splits
          dest: fetched_good entriesD [OF assms(3)])
    with that(2) show ?thesis by (auto simp: s intro: entries_update)
  qed
  then have "entries good_schema (rp_next (snd (w', p')))"
    by (intro eachA_invariant [where P = "\<lambda>s. entries good_schema (rp_next (snd s))", OF assms(1)]) (use assms(2) in auto)
  then show ?thesis by simp
qed

text \<open>What is left after the removals, with what is applied, is what the plan wants.\<close>

lemma plan_schemas:
  assumes p: "plan_ok cur seen p" and cur: "entries good_schema cur"
  defines "lost \<equiv> map snd (filter (\<lambda>(sid, _). map_of (rp_next p) sid = None) cur)"
  shows "set (rp_added p @ map snd (rp_replaced p)) \<union> (schemas_in cur - set lost - fst ` set (rp_replaced p)) = schemas_in (rp_next p)"
proof -
  note d = plan_okD [OF p]
  have in_next: "ss \<in> schemas_in (rp_next p) \<longleftrightarrow> map_of (rp_next p) (cs_schemaID ss) = Some ss" for ss by (rule schemas_in_iff [OF d(1)])
  have in_cur: "ss \<in> schemas_in cur \<longleftrightarrow> map_of cur (cs_schemaID ss) = Some ss" for ss by (rule schemas_in_iff [OF cur])
  have idn: "cs_schemaID x = s" if "map_of (rp_next p) s = Some x" for x s using entriesD [OF d(1) that] by (simp add: good_schema_def)
  have idc: "cs_schemaID x = s" if "map_of cur s = Some x" for x s using entriesD [OF cur that] by (simp add: good_schema_def)
  have gone: "ss \<in> set lost \<longleftrightarrow> ss \<in> schemas_in cur \<and> map_of (rp_next p) (cs_schemaID ss) = None" for ss
  proof -
    have "(sid, ss) \<in> set cur \<Longrightarrow> cs_schemaID ss = sid" for sid using cur by (auto simp: entries_def good_schema_def)
    then show ?thesis unfolding lost_def by force
  qed
  have repl: "f \<in> snd ` set (rp_replaced p) \<Longrightarrow> \<exists>old. (old, f) \<in> set (rp_replaced p) \<and> map_of cur (cs_schemaID f) = Some old \<and>
      map_of (rp_next p) (cs_schemaID f) = Some f" for f
    using d(4) idn by fastforce
  have "ss \<in> set (rp_added p) \<or> ss \<in> snd ` set (rp_replaced p) \<or>
      ss \<in> schemas_in cur \<and> ss \<notin> set lost \<and> ss \<notin> fst ` set (rp_replaced p) \<longleftrightarrow> ss \<in> schemas_in (rp_next p)" (is "?l \<longleftrightarrow> ?r") for ss
  proof
    assume ?r
    then have "map_of (rp_next p) (cs_schemaID ss) = Some ss" by (simp add: in_next)
    from d(3) [OF this] this show ?l unfolding gone in_cur by auto
  next
    assume ?l
    then consider "ss \<in> set (rp_added p)" | "ss \<in> snd ` set (rp_replaced p)"
      | "map_of cur (cs_schemaID ss) = Some ss" "map_of (rp_next p) (cs_schemaID ss) \<noteq> None" "ss \<notin> fst ` set (rp_replaced p)"
      unfolding gone in_cur by argo
    then show ?r
    proof cases
      case 1
      with d(5) show ?thesis unfolding in_next by blast
    next
      case 2
      with repl show ?thesis unfolding in_next by blast
    next
      case 3
      then obtain x where x: "map_of (rp_next p) (cs_schemaID ss) = Some x" by blast
      have "x = ss"
        using d(3) [OF x] 3(1,3) d(5) [of x] repl [of x] idn [OF x] by force
      with x show ?thesis by (simp add: in_next)
    qed
  qed
  then show ?thesis unfolding set_append set_map set_eq_iff Un_iff Diff_iff by blast
qed


section \<open>Refresh\<close>

definition resolver_ok :: "resolver \<Rightarrow> bool" where
  "resolver_ok r \<longleftrightarrow> (case rs_snapshot r of None \<Rightarrow> False | Some snap \<Rightarrow> snap_ok snap)"

text \<open>The aggregate holds exactly the types of the snapshot.\<close>

definition agg_whole :: "resolver \<Rightarrow> bool" where
  "agg_whole r \<longleftrightarrow> agg_is (snd (rs_agg r)) (schemas_in (current_schemas r))"

lemma resolver_ok_current:
  assumes "resolver_ok r"
  shows "entries good_schema (current_schemas r)" and "apart (schemas_in (current_schemas r))"
  using assms snap_ok_apart by (auto simp: resolver_ok_def current_schemas_def snap_ok_def split: option.splits)

lemma apply_plan_agg:
  assumes run: "apply_plan p (removed_schemas r p) agg = (Inr u, agg')" and r: "resolver_ok r"
    and agg: "agg_is (snd agg) (schemas_in (current_schemas r))"
    and p: "plan_ok (current_schemas r) seen p" and fresh: "apart (schemas_in (rp_next p))"
  shows "agg_is (snd agg') (schemas_in (rp_next p))"
proof -
  let ?cur = "current_schemas r" and ?lost = "removed_schemas r p" and ?new = "rp_added p @ map snd (rp_replaced p)"
  note cur = resolver_ok_current [OF r]
  from run obtain a1 a2 v1 v2 where
      1: "eachA (\<lambda>ss. wrapA ''refresh aggregate remove: '' (removeFromAggregate ss)) ?lost agg = (Inr v1, a1)"
    and 2: "eachA (\<lambda>(old, _). wrapA ''refresh aggregate replace (remove old): '' (removeFromAggregate old)) (rp_replaced p) a1 = (Inr v2, a2)"
    and 3: "eachA (\<lambda>ss. wrapA ''refresh aggregate apply: '' (applyToAggregate ss)) (sort_key cs_schemaID ?new) a2 = (Inr u, agg')"
    unfolding apply_plan_def thenA_Inr by blast
  have lost: "set ?lost \<subseteq> schemas_in ?cur" by (auto simp: removed_schemas_def)
  have old: "fst ` set (rp_replaced p) \<subseteq> schemas_in ?cur" using plan_okD(4) [OF p] schemas_in_iff [OF cur(1)] by fastforce
  have "agg_is (snd a1) (schemas_in ?cur - id ` set ?lost)"
    by (rule agg_remove_all [OF 1 _ agg]) (use lost in \<open>auto intro: apart_subset [OF cur(2)]\<close>)
  then have "agg_is (snd a1) (schemas_in ?cur - set ?lost)" by simp
  from agg_remove_all [OF 2 _ this, of fst] old apart_subset [OF cur(2)]
  have "agg_is (snd a2) (schemas_in ?cur - set ?lost - fst ` set (rp_replaced p))" by (fastforce split: prod.splits)
  from agg_apply_all [OF 3 _ this, of id] fresh
  show ?thesis unfolding plan_schemas [OF p cur(1), folded removed_schemas_def, symmetric] by simp
qed

lemma refresh_from_cases:
  assumes run: "refresh_from L now conn ancestors infos (w, d, r) = (x, (w', d', r'))"
    and loop: "eachA (plan_schema L conn r) infos (w, \<lparr>rp_next = [], rp_added = [], rp_replaced = []\<rparr>) = (y, (w1, p))"
  obtains (failed) "isl x" "isl y" "r' = r" "d' = d"
    | (same) "x = Inr ()" "y = Inr ()" "w' = w1" "r' = r" "d' = d" "rp_added p = []" "rp_replaced p = []" "removed_schemas r p = []" "rs_snapshot r \<noteq> None"
    | (torn) agg where "isl x" "r' = r\<lparr>rs_agg := agg\<rparr>" "d' = d"
    | (swap) snap agg where "x = Inr ()" "y = Inr ()" "w' = w1" "buildNameIndex (newSnapshot\<lparr>nss_schemas := rp_next p\<rparr>) = Inr snap"
        "apply_plan p (removed_schemas r p) (rs_agg r) = (Inr (), agg)" "r' = r\<lparr>rs_agg := agg, rs_snapshot := Some snap\<rparr>"
proof (cases y)
  case (Inl e)
  with run loop show ?thesis by (intro failed) (auto simp: refresh_from_def)
next
  case (Inr u)
  show ?thesis
  proof (cases "rp_added p = [] \<and> rp_replaced p = [] \<and> removed_schemas r p = [] \<and> rs_snapshot r \<noteq> None")
    case True
    with run loop Inr show ?thesis by (intro same) (simp_all add: refresh_from_def)
  next
    case change: False
    show ?thesis
    proof (cases "buildNameIndex (newSnapshot\<lparr>nss_schemas := rp_next p\<rparr>)")
      case (Inl e)
      with run loop \<open>y = Inr u\<close> change show ?thesis by (intro torn [of "rs_agg r"]) (auto simp: refresh_from_def Let_def)
    next
      case (Inr snap)
      obtain z agg where z: "apply_plan p (removed_schemas r p) (rs_agg r) = (z, agg)" by (metis prod.exhaust)
      note eq = run [unfolded refresh_from_def, simplified loop \<open>y = Inr u\<close> Inr z Let_def prod.case sum.case if_not_P [OF change]]
      show ?thesis
      proof (cases z)
        case (Inl e)
        with eq show ?thesis by (intro torn [of agg]) auto
      next
        case (Inr v)
        with eq z \<open>y = Inr u\<close> \<open>buildNameIndex (newSnapshot\<lparr>nss_schemas := rp_next p\<rparr>) = Inr snap\<close> show ?thesis by (intro swap [of snap agg]) simp_all
      qed
    qed
  qed
qed

lemma refresh_from_ok:
  assumes run: "refresh_from L now conn ancestors infos (w, d, r) = (x, (w', d', r'))" and r: "resolver_ok r"
  shows "resolver_ok r'"
    and "agg_whole r \<Longrightarrow> distinct (map si_SchemaId infos) \<Longrightarrow> isl x \<longrightarrow> rs_agg r' = rs_agg r \<Longrightarrow> agg_whole r'"
    and "isl x \<Longrightarrow> rs_snapshot r' = rs_snapshot r \<and> d' = d"
proof -
  let ?p0 = "\<lparr>rp_next = [], rp_added = [], rp_replaced = []\<rparr> :: refresh_plan"
  obtain y w1 p where loop: "eachA (plan_schema L conn r) infos (w, ?p0) = (y, (w1, p))" by (metis prod.collapse)
  note cur = resolver_ok_current [OF r]
  have good: "entries good_schema (rp_next p)" by (rule plan_good [OF loop _ cur(1)]) simp
  from run loop have "resolver_ok r' \<and> (agg_whole r \<longrightarrow> distinct (map si_SchemaId infos) \<longrightarrow> (isl x \<longrightarrow> rs_agg r' = rs_agg r) \<longrightarrow> agg_whole r') \<and>
      (isl x \<longrightarrow> rs_snapshot r' = rs_snapshot r \<and> d' = d)"
  proof (cases rule: refresh_from_cases)
    case failed
    with r show ?thesis by (simp add: resolver_ok_def agg_whole_def current_schemas_def)
  next
    case same
    with r show ?thesis by (simp add: resolver_ok_def agg_whole_def current_schemas_def)
  next
    case (torn agg)
    with r show ?thesis by (simp add: resolver_ok_def agg_whole_def current_schemas_def)
  next
    case (swap snap agg)
    have snap: "snap_ok snap \<and> nss_schemas snap = rp_next p"
      using snap_okI [OF swap(4)] good by (simp add: newSnapshot_def)
    have "agg_whole r'" if a: "agg_whole r" and dist: "distinct (map si_SchemaId infos)"
    proof -
      have "plan_ok (current_schemas r) ({} \<union> si_SchemaId ` set infos) p"
        by (rule plan_run_ok [OF loop [unfolded swap(2)] _ cur(1) dist]) (simp_all add: plan_ok_def)
      from apply_plan_agg [OF swap(5) r a [unfolded agg_whole_def] this] snap snap_ok_apart [of snap] swap(6)
      show ?thesis by (simp add: agg_whole_def current_schemas_def)
    qed
    with snap swap show ?thesis by (simp add: resolver_ok_def)
  qed
  then show "resolver_ok r'"
    and "agg_whole r \<Longrightarrow> distinct (map si_SchemaId infos) \<Longrightarrow> isl x \<longrightarrow> rs_agg r' = rs_agg r \<Longrightarrow> agg_whole r'"
    and "isl x \<Longrightarrow> rs_snapshot r' = rs_snapshot r \<and> d' = d" by blast+
qed

end
