(* ===== verification/Client_Listing.thy ===== *)
theory Client_Listing
  imports Client Hierarchy Server_Props
begin

text \<open>
  The client's listing against the server's handler: the loop over the pages ends and yields every live schema of
  the namespace once, in the order of the database.
\<close>

section \<open>One page\<close>

definition live_schemas :: "db \<Rightarrow> string \<Rightarrow> schema_row list" where
  "live_schemas db nid = filter (\<lambda>r. sr_ns r = nid \<and> sr_deleted_at r = None) (db_schemas db)"

definition schema_info_of :: "schema_row \<Rightarrow> schema_info" where
  "schema_info_of row = schemaToProto (schemaModelToStore row) []"

abbreviation db_of :: "server \<Rightarrow> db" where
  "db_of s \<equiv> reg_db (srv_reg s)"

text \<open>What the handler needs: a database that answers, an identifier and a page size it accepts.\<close>

definition can_list :: "server_env \<Rightarrow> server \<Rightarrow> string \<Rightarrow> bool" where
  "can_list env s nid \<longleftrightarrow> db_faults (db_of s) = [] \<and> validateNamespaceID env nid = Inr () \<and>
     0 < DefaultListPageSize (so_Limits (se_opts env)) \<and> DefaultListPageSize (so_Limits (se_opts env)) < 2147483647 \<and>
     list_all (\<lambda>r. text_key (db_of s) '''' < text_key (db_of s) (sr_id r) \<and> int (length (sr_id r)) \<le> max_id env) (live_schemas (db_of s) nid) \<and>
     0 \<le> max_id env"

abbreviation page_length :: "server_env \<Rightarrow> nat" where
  "page_length env \<equiv> nat (DefaultListPageSize (so_Limits (se_opts env)))"

definition token_of :: "string option \<Rightarrow> string" where
  "token_of c = (case c of None \<Rightarrow> '''' | Some after \<Rightarrow> encodePageToken after)"

lemma cut_next_page:
  assumes "0 < n" and "xs = page after (nat n + 1)" and "next_page page cursor (nat n) after = (ys, c)"
  shows "cut_page cursor n xs = Inr (ys, token_of c)"
  using assms by (auto simp: next_page_def cut_page_def token_of_def Let_def split: if_splits)

lemma cut_page_map: "cut_page cursor n (map f xs) = map_sum id (map_prod (map f) id) (cut_page (\<lambda>x. cursor (f x)) n xs)"
proof -
  have "0 < n \<Longrightarrow> n < int (length xs) \<Longrightarrow> take (nat n) xs \<noteq> []" by auto
  then show ?thesis by (auto simp: cut_page_def Let_def last_map take_map)
qed

lemma server_page:
  assumes "can_list env s nid" and "decodePageToken token = Inr after" and "int (length after) \<le> max_id env"
    and "next_page (\<lambda>after n. schemas_page (db_of s) nid after (int n)) sr_id (page_length env) after = (rows, c)"
  shows "srv_ListSchemas env ctx nid 0 token s = (Inr (map schema_info_of rows, token_of c), s)"
proof -
  let ?n = "DefaultListPageSize (so_Limits (se_opts env))"
  from assms(1) have ok: "db_faults (db_of s) = []" "validateNamespaceID env nid = Inr ()" "0 < ?n" "?n < 2147483647" by (simp_all add: can_list_def)
  have store: "from_store (st_ListSchemasPage nid after (?n + 1)) s = (Inr (map schemaModelToStore (schemas_page (db_of s) nid after (?n + 1))), s)"
    using ok by (simp add: st_ListSchemasPage_def q_ListSchemasPage_def select_def statement_def intToInt32Clamp_def act_defs wrapE_def)
  have "schemas_page (db_of s) nid after (?n + 1) = (\<lambda>after n. schemas_page (db_of s) nid after (int n)) after (nat ?n + 1)" using ok by (simp add: add.commute)
  from cut_next_page [OF ok(3) this assms(4)]
  have "cut_page sr_id ?n (schemas_page (db_of s) nid after (?n + 1)) = Inr (rows, token_of c)" .
  then have cut: "cut_page ss_SchemaID ?n (map schemaModelToStore (schemas_page (db_of s) nid after (?n + 1))) =
      Inr (map schemaModelToStore rows, token_of c)"
    by (simp add: cut_page_map schemaModelToStore_def)
  show ?thesis unfolding srv_ListSchemas_def page_cursor_def resolvePageSize_def Let_def
    using ok(2) assms(2,3) store cut by (simp add: bindA_def thenA_def pureA_def catchA_def retA_def schema_info_of_def del: zoomA_Inr)
qed

section \<open>All pages\<close>

lemma encode_nonempty: "s \<noteq> '''' \<Longrightarrow> encodePageToken s \<noteq> ''''"
  using page_token_roundtrip [of s] by (auto simp: decodePageToken_def)

lemma list_pages_step:
  assumes "a ctx ''ListSchemas'' = Inr who" and "srv_ListSchemas env (withIdentity ctx who) nid 0 token s = (Inr (xs, nextToken), s)"
  shows "list_pages (server_conn env a ctx) nid cfg token acc s =
    (let acc = acc @ filter (\<lambda>x. tracksSchema cfg (si_SchemaId x)) xs in
     if nextToken = '''' then Some (Inr acc, s) else list_pages (server_conn env a ctx) nid cfg nextToken acc s)"
  using assms by (subst list_pages.simps) (simp add: server_conn_def UnaryAuthInterceptor_def)

lemma list_pages_follow:
  assumes "can_list env s nid" and "a ctx ''ListSchemas'' = Inr who"
  shows "follow calls (\<lambda>after n. schemas_page (db_of s) nid after (int n)) sr_id (page_length env) after = Some rows \<Longrightarrow>
    decodePageToken token = Inr after \<Longrightarrow> int (length after) \<le> max_id env \<Longrightarrow>
    list_pages (server_conn env a ctx) nid cfg token acc s =
      Some (Inr (acc @ filter (\<lambda>x. tracksSchema cfg (si_SchemaId x)) (map schema_info_of rows)), s)"
proof (induction calls arbitrary: after token acc rows)
  case 0
  then show ?case by simp
next
  case (Suc calls)
  let ?page = "\<lambda>after n. schemas_page (db_of s) nid after (int n)"
  obtain xs c where p: "next_page ?page sr_id (page_length env) after = (xs, c)" by (cases "next_page ?page sr_id (page_length env) after")
  note step = list_pages_step [of a ctx who, OF assms(2) server_page [OF assms(1) Suc.prems(2,3) p], of cfg acc]
  show ?case
  proof (cases c)
    case None
    with Suc.prems(1) p step show ?thesis by (simp add: token_of_def)
  next
    case (Some after')
    with Suc.prems(1) p obtain ys where ys: "follow calls ?page sr_id (page_length env) after' = Some ys" "rows = xs @ ys" by auto
    have "0 < page_length env" using assms(1) by (simp add: can_list_def)
    with Some p have "xs \<noteq> [] \<and> after' = sr_id (last xs) \<and> set xs \<subseteq> set (?page after (page_length env + 1))"
      by (auto simp: next_page_def Let_def dest: in_set_takeD split: if_splits)
    then have "after' \<in> sr_id ` set (live_schemas (db_of s) nid)"
      using last_in_set by (fastforce simp: schemas_page_def live_schemas_def dest: in_set_takeD)
    with assms(1) have ok: "after' \<noteq> ''''" "int (length after') \<le> max_id env" by (auto simp: can_list_def list_all_iff)
    from Suc.IH [OF ys(1) page_token_roundtrip ok(2)] step ys(2) encode_nonempty [OF ok(1)] Some show ?thesis
      by (simp add: token_of_def)
  qed
qed

lemma listing_all:
  assumes "served s" and "can_list env s (rs_ns r)" and "a ctx ''ListSchemas'' = Inr who"
  shows "listAllSchemas (server_conn env a ctx) r s =
    Some (Inr (filter (\<lambda>x. tracksSchema (rs_cfg r) (si_SchemaId x))
      (map schema_info_of (sort_key (\<lambda>row. text_key (db_of s) (sr_id row)) (live_schemas (db_of s) (rs_ns r))))), s)"
proof -
  let ?rows = "live_schemas (db_of s) (rs_ns r)" and ?page = "\<lambda>after n. schemas_page (db_of s) (rs_ns r) after (int n)"
  let ?key = "\<lambda>row. text_key (db_of s) (sr_id row)"
  have "db_keys (db_of s)" using served_reachable [OF assms(1)] reachable_inv by (auto simp: reg_inv_def)
  from listing_keys_distinct(2) [OF this] have d: "distinct (map ?key (filter (\<lambda>r'. sr_ns r' = rs_ns r \<and> sr_deleted_at r' = None) (db_schemas (db_of s))))" .
  from assms(2) have n: "0 < page_length env" by (simp add: can_list_def)
  let ?all = "schema_listing.above (rs_ns r) (db_of s) ''''"
  have "filter (\<lambda>x. text_key (db_of s) '''' < ?key x) ?rows = ?rows"
    using assms(2) by (auto simp: can_list_def list_all_iff intro!: filter_True)
  moreover have "?all = sort_key ?key (filter (\<lambda>x. text_key (db_of s) '''' < ?key x) ?rows)"
    unfolding schema_listing.above_def by (simp add: live_schemas_def)
  ultimately have "?all = sort_key ?key ?rows" by simp
  moreover have "follow (Suc (length ?all)) ?page sr_id (page_length env) '''' = Some ?all"
    by (rule schema_listing.follow_complete [OF d n]) simp
  ultimately have "follow (Suc (length ?all)) ?page sr_id (page_length env) '''' = Some (sort_key ?key ?rows)" by simp
  from list_pages_follow [of env s "rs_ns r" a ctx who, OF assms(2,3) this, of "''''" "rs_cfg r" "[]"] assms(2) show ?thesis
    by (simp add: listAllSchemas_def decodePageToken_def can_list_def)
qed

lemma listed_once:
  assumes "served s"
  shows "distinct (map (\<lambda>row. sr_id row) (live_schemas (db_of s) nid))"
proof -
  have "db_keys (db_of s)" using served_reachable [OF assms] reachable_inv by (auto simp: reg_inv_def)
  from listing_keys_distinct(2) [OF this, of nid] show ?thesis unfolding live_schemas_def by (auto simp: distinct_map inj_on_def)
qed

section \<open>Properties\<close>

text \<open>
  Property C36 (listing_complete). On any state of the server in which the database answers, the client's loop over the pages
  returns, leaves the server as it was, and yields every live schema of the namespace that the client tracks exactly once,
  in the order of the database, with its current version - provided the caller is authenticated, the
  identifiers fit the limit and sort after the empty one, and the page size is positive and below the maximum of the query.
\<close>

theorem listing_complete:
  assumes "served s" and "can_list env s (rs_ns r)" and "a ctx ''ListSchemas'' = Inr who"
  shows "listAllSchemas (server_conn env a ctx) r s =
    Some (Inr (filter (\<lambda>x. tracksSchema (rs_cfg r) (si_SchemaId x))
      (map schema_info_of (sort_key (\<lambda>row. text_key (db_of s) (sr_id row)) (live_schemas (db_of s) (rs_ns r))))), s)"
  using assms by (rule listing_all)

definition listing_env :: server_env where
  "listing_env = server_New (demo_env AllowAll) (\<lambda>_. AllowAll) (\<lambda>_. ''db'')
     [WithLimits (DefaultLimits\<lparr>DefaultListPageSize := 1\<rparr>), WithAllowAnonymousWrites True]"

definition publish_as :: "string \<Rightarrow> server \<Rightarrow> server" where
  "publish_as sid s = snd (UnaryAuthInterceptor NoAuth (dispatch listing_env
     (RpcPublish (demo_request\<lparr>pq_SchemaID := sid, pq_Sources := [(sid, ''x'')]\<rparr>))) no_metadata ''Publish'' s)"

definition two_schemas :: server where
  "two_schemas = publish_as ''t'' (publish_as ''s'' demo_server)"

lemma served_two_schemas: "served two_schemas"
  unfolding two_schemas_def publish_as_def demo_server_def fresh_registry_def by (intro served.call served.start)

theorem listing_complete_witness:
  "map_option (\<lambda>(x, s). (map si_SchemaId (projr x), s = two_schemas))
     (listAllSchemas (server_conn listing_env NoAuth no_metadata) (new_resolver ''n'' defaultConfig) two_schemas) = Some ([''s'', ''t''], True)"
proof -
  let ?r = "new_resolver ''n'' defaultConfig"
  have "can_list listing_env two_schemas (rs_ns ?r)" by code_simp
  moreover have "NoAuth no_metadata ''ListSchemas'' = Inr AnonymousIdentity" by (simp add: NoAuth_def)
  ultimately have run: "listAllSchemas (server_conn listing_env NoAuth no_metadata) ?r two_schemas =
      Some (Inr (filter (\<lambda>x. tracksSchema (rs_cfg ?r) (si_SchemaId x))
        (map schema_info_of (sort_key (\<lambda>row. text_key (db_of two_schemas) (sr_id row)) (live_schemas (db_of two_schemas) (rs_ns ?r))))), two_schemas)"
    by (rule listing_complete [OF served_two_schemas])
  have "map si_SchemaId (filter (\<lambda>x. tracksSchema (rs_cfg ?r) (si_SchemaId x))
      (map schema_info_of (sort_key (\<lambda>row. text_key (db_of two_schemas) (sr_id row)) (live_schemas (db_of two_schemas) (rs_ns ?r))))) = [''s'', ''t'']"
    by code_simp
  then show ?thesis unfolding run by simp
qed

end
