(* ===== verification/Client_Props.thy ===== *)
theory Client_Props
  imports Client_Aggregate Client_Listing
begin

text \<open>
  Properties of the client: what its lookups return in any state it can get into, and how its snapshot follows
  the database of the server.
\<close>

section \<open>The server as the service behind the stub\<close>

lemma internalError_fails [simp]: "internalError env ctx op e s = (Inr a, t) \<longleftrightarrow> False"
  by (simp add: internalError_def act_defs logA_def)

lemma catch_internal_Inr [simp]: "catchA m (internalError env ctx op) s = (Inr a, t) \<longleftrightarrow> m s = (Inr a, t)"
  by (auto simp: catchA_def split: prod.splits sum.splits)

lemma server_descriptor:
  assumes "db_faults (db_of s) = []" and "rpc_GetDescriptor (server_conn env a ctx) ns sid v s = (Inr (got, fds), s')"
  shows "s' = s \<and> (v \<noteq> 0 \<longrightarrow> got = v) \<and> (\<exists>row. find_version (db_of s) ns sid (versionToDB got) = Some row \<and>
    lib_Unmarshal (re_lib (se_registry env)) (vr_compiled row) = Inr fds)"
proof -
  from assms(2) obtain who ver where cur: "current_or ns sid v s = (Inr got, s)"
    and ver: "from_store (st_GetVersion ns sid got) s = (Inr ver, s')" and u: "lib_Unmarshal (re_lib (se_registry env)) (sv_Compiled ver) = Inr fds"
    by (auto simp: server_conn_def UnaryAuthInterceptor_def srv_GetDescriptor_def current_or_def simp del: zoomA_Inr
        split: sum.splits if_splits option.splits)
  from ver assms(1) obtain row where "find_version (db_of s) ns sid (versionToDB got) = Some row" "sv_Compiled ver = vr_compiled row" "s' = s"
    by (auto simp: st_GetVersion_def q_GetVersion_def select_def statement_def one_row_def split: option.splits)
  moreover from cur have "v \<noteq> 0 \<longrightarrow> got = v" by (auto simp: current_or_def)
  ultimately show ?thesis using u by auto
qed

interpretation service: descriptor_service "server_conn env a ctx" "\<lambda>s. db_faults (db_of s) = []" for env a ctx
  by unfold_locales (use server_descriptor in blast)

section \<open>The states of a client\<close>

lemma fetch_current_good:
  assumes "fetch_current L conn ns info s = (x, t)" and "entries good_schema (nss_schemas (snd s))" and "nss_nameIndex (snd s) = []"
  shows "entries good_schema (nss_schemas (snd t)) \<and> nss_nameIndex (snd t) = []"
  using assms
  by (auto simp: fetch_current_def bindA_def retA_def zoomA_def modifyA_def split: option.splits prod.splits sum.splits dest!: fetched_good intro: entries_update)

lemma fetch_pinned_good:
  assumes "fetch_pinned L conn ns sv s = (x, t)" and "entries good_schema (nss_schemas (snd s))" and "nss_nameIndex (snd s) = []"
  shows "entries good_schema (nss_schemas (snd t)) \<and> nss_nameIndex (snd t) = []"
  using assms
  by (auto simp: fetch_pinned_def bindA_def wrapA_def zoomA_def modifyA_def wrapE_def split: prod.splits sum.splits dest!: fetched_good intro: entries_update)

lemma compiled_good: "compileSchema L ns sid v fdset raw = Inr ss \<Longrightarrow> good_schema sid ss"
  by (simp add: good_schema_def compileSchema_ok)

lemma load_schema_good:
  assumes "load_schema L dir ns cfg sm s = (x, t)" and "entries good_schema (nss_schemas (snd s))" and "nss_nameIndex (snd s) = []"
  shows "entries good_schema (nss_schemas (snd t)) \<and> nss_nameIndex (snd t) = []"
  using assms
  by (auto simp: load_schema_def act_defs Let_def wrapE_def split: prod.splits sum.splits if_splits)
    (blast intro: entries_update compiled_good)

text \<open>Every loop that collects schemas starts from an empty snapshot and ends with an index of its names.\<close>

lemma collected:
  assumes "eachA f xs (w, newSnapshot) = (Inr u, (w', snap))" and "buildNameIndex snap = Inr snap'"
    and "\<And>x s y t. f x s = (y, t) \<Longrightarrow> entries good_schema (nss_schemas (snd s)) \<Longrightarrow> nss_nameIndex (snd s) = [] \<Longrightarrow>
      entries good_schema (nss_schemas (snd t)) \<and> nss_nameIndex (snd t) = []"
  shows "snap_ok snap' \<and> nss_schemas snap' = nss_schemas snap"
proof -
  let ?P = "\<lambda>s. entries good_schema (nss_schemas (snd s)) \<and> nss_nameIndex (snd s) = []"
  have "?P (w', snap)"
    by (rule eachA_invariant [where P = ?P, OF assms(1)]) (use assms(3) in \<open>auto simp: newSnapshot_def\<close>)
  then show ?thesis using snap_okI [OF assms(2)] by simp
qed

lemma installed_ok:
  assumes "snap_ok snap" and "applyAll snap (empty_files, empty_types) = (Inr u, agg)" and "rs_snapshot r = Some snap" and "rs_agg r = agg"
  shows "resolver_ok r \<and> agg_whole r"
  using applyAll_agg [OF assms(2,1)] assms agg_is_empty by (simp add: resolver_ok_def agg_whole_def current_schemas_def)

lemma made_ok:
  assumes "newSingleNamespace L conn ns cfg w = Some (Inr r, w')"
  shows "resolver_ok r \<and> agg_whole r"
proof -
  from assms obtain w1 r1 where pop: "populate L conn (w, new_resolver ns cfg) = Some (Inr (), (w1, r1))" and r: "r = r1\<lparr>rs_refreshing := 0 < cfg_refresh cfg\<rparr>"
    by (auto simp: newSingleNamespace_def split: option.splits sum.splits prod.splits)
  from pop obtain infos w2 where from': "populate_from L conn infos (w2, new_resolver ns cfg) = (Inr (), (w1, r1))"
    by (auto simp: populate_def split: option.splits sum.splits prod.splits)
  from from' obtain u v snap snap' agg where loop: "eachA (fetch_current L conn ns) infos (w2, newSnapshot) = (Inr u, (w1, snap))"
    and idx: "buildNameIndex snap = Inr snap'" and app: "applyAll snap' (empty_files, empty_types) = (Inr v, agg)"
    and r1: "r1 = (new_resolver ns cfg)\<lparr>rs_agg := agg, rs_snapshot := Some snap'\<rparr>"
    by (auto simp: populate_from_def new_resolver_def split: sum.splits prod.splits)
  have "snap_ok snap'" using collected [OF loop idx] fetch_current_good by blast
  then show ?thesis by (rule installed_ok [OF _ app]) (simp_all add: r r1)
qed

lemma cached_ok:
  assumes "loadSingleNamespaceFromCache L dir ns cfg d = (Inr r, d')"
  shows "resolver_ok r \<and> agg_whole r"
proof -
  obtain m d1 where m: "readManifest dir ns d = (m, d1)" by fastforce
  with assms obtain man where "m = Inr man" by (cases m) (simp_all add: loadSingleNamespaceFromCache_def bindA_def)
  with assms m obtain u v d2 snap snap' agg where
      loop: "eachA (load_schema L dir ns cfg) (cm_Schemas man) (d1, newSnapshot) = (Inr u, (d2, snap))"
    and idx: "buildNameIndex snap = Inr snap'" and app: "applyAll snap' (empty_files, empty_types) = (Inr v, agg)"
    and r: "rs_snapshot r = Some snap'" "rs_agg r = agg"
    by (auto simp: loadSingleNamespaceFromCache_def bindA_def Let_def new_resolver_def split: sum.splits prod.splits)
  have "snap_ok snap'" using collected [OF loop idx] load_schema_good by blast
  then show ?thesis by (rule installed_ok [OF _ app]) (simp_all add: r)
qed

lemma pinned_ok:
  assumes "Pin L conn c versions w = (Inr c', w')"
  shows "resolver_ok (cl_main c') \<and> agg_whole (cl_main c')"
proof -
  from assms obtain u v snap snap' agg where
      loop: "eachA (fetch_pinned L conn (rs_ns (cl_main c))) versions (w, newSnapshot) = (Inr u, (w', snap))"
    and idx: "buildNameIndex snap = Inr snap'" and app: "applyAll snap' (empty_files, empty_types) = (Inr v, agg)"
    and r: "rs_snapshot (cl_main c') = Some snap'" "rs_agg (cl_main c') = agg"
    by (auto simp: Pin_def Let_def new_resolver_def split: sum.splits prod.splits if_splits)
  have "snap_ok snap'" using collected [OF loop idx] fetch_pinned_good by blast
  then show ?thesis by (rule installed_ok [OF _ app]) (simp_all add: r)
qed

text \<open>
  The resolvers a program can hold: made online or from the cache, pinned, and refreshed, with any failures in between.
  The flag says that no refresh so far failed half-way through the aggregate and no listing named a schema twice.
\<close>

definition orderly :: "'w conn \<Rightarrow> resolver \<Rightarrow> 'w \<Rightarrow> unit result \<Rightarrow> resolver \<Rightarrow> bool" where
  "orderly conn r w x r' \<longleftrightarrow> (isl x \<longrightarrow> rs_agg r' = rs_agg r) \<and>
     (\<forall>infos w'. listAllSchemas conn r w = Some (Inr infos, w') \<longrightarrow> distinct (map si_SchemaId infos))"

inductive client_run :: "lib \<Rightarrow> 'w conn \<Rightarrow> bool \<Rightarrow> resolver \<Rightarrow> bool" for L :: lib and conn :: "'w conn" where
  made: "newSingleNamespace L conn ns cfg w = Some (Inr r, w') \<Longrightarrow> client_run L conn True r"
| cached: "loadSingleNamespaceFromCache L dir ns cfg d = (Inr r, d') \<Longrightarrow> client_run L conn True r"
| pinned: "Pin L conn c versions w = (Inr c', w') \<Longrightarrow> client_run L conn True (cl_main c')"
| refreshed: "client_run L conn whole r \<Longrightarrow> Refresh L now conn ancestors (w, d, r) = Some (x, (w', d', r')) \<Longrightarrow>
    client_run L conn (whole \<and> orderly conn r w x r') r'"

lemma client_run_ok: "client_run L conn whole r \<Longrightarrow> resolver_ok r \<and> (whole \<longrightarrow> agg_whole r)"
proof (induction rule: client_run.induct)
  case (refreshed whole r now ancestors w d x w' d' r')
  show ?case
  proof (cases "r' = r")
    case True
    with refreshed.IH show ?thesis by simp
  next
    case False
    with refreshed.hyps(2) obtain infos w1 where l: "listAllSchemas conn r w = Some (Inr infos, w1)"
      and f: "refresh_from L now conn ancestors infos (w1, d, r) = (x, (w', d', r'))"
      by (auto simp: Refresh_def wrapP_def wrapE_def split: if_splits option.splits sum.splits prod.splits)
    from refreshed.IH have "resolver_ok r" by blast
    from refresh_from_ok [OF f this] refreshed.IH l show ?thesis by (auto simp: orderly_def)
  qed
qed (simp_all add: made_ok cached_ok pinned_ok)

section \<open>Lookups\<close>

lemma declared_at:
  assumes "schema_ok ss"
  shows "type_at (cs_types ss) n = Some t \<longleftrightarrow> type_full_name t = n \<and> t \<in> set (declared ss)"
proof -
  have "distinct (map fst (by_name (declared ss)))" "typesByName (cs_types ss) = by_name (declared ss)" using assms by (simp_all add: schema_ok_def)
  then have "type_at (cs_types ss) n = Some t \<longleftrightarrow> (n, t) \<in> set (by_name (declared ss))" by (simp only: map_of_eq_Some_iff)
  then show ?thesis by (auto simp: by_name_def)
qed

lemma owning_schema_iff:
  assumes "rs_snapshot (cl_main c) = Some snap" and "snap_ok snap"
  shows "owning_schema c n = Some ss \<longleftrightarrow> (\<exists>sid. schema_at snap sid = Some ss \<and> n \<in> set (schema_names ss))"
proof -
  have idx: "map_of (nss_nameIndex snap) n = Some sid \<longleftrightarrow> (\<exists>ss. schema_at snap sid = Some ss \<and> n \<in> set (schema_names ss))" for sid
    using assms(2) by (simp add: snap_ok_def declares_def split: option.splits)
  have "owning_schema c n = Some ss \<longleftrightarrow> (\<exists>sid. map_of (nss_nameIndex snap) n = Some sid \<and> schema_at snap sid = Some ss)"
    by (simp add: owning_schema_def schemaFor_def assms(1) split: option.splits)
  then show ?thesis unfolding idx by auto
qed

text \<open>
  Property C37 (client_lookup_exact). In every state a client can get into - made online, from the cache or by pinning, then
  refreshed any number of times with any failures - each message and extension type that a schema of the snapshot
  declares, at any depth, is what the lookup of its full name returns. Unless a refresh failed half-way
  through the aggregate registry, or a listing named a schema twice, that registry, which refreshes change
  step by step, holds exactly the types of the schemas of the snapshot, and a name that none of them declares as a type is
  looked up in the parents.
\<close>

theorem client_lookup_exact:
  assumes "client_run L conn whole (cl_main c)"
  shows "\<exists>snap. rs_snapshot (cl_main c) = Some snap \<and>
    (\<forall>sid ss. schema_at snap sid = Some ss \<longrightarrow>
       (\<forall>m. MessageType m \<in> set (declared ss) \<longrightarrow>
          cl_FindMessageByName c (msg_full_name m) = Inr m \<and> scoped_FindMessageByName c sid (msg_full_name m) = Inr m) \<and>
       (\<forall>x. ExtensionType x \<in> set (declared ss) \<longrightarrow> cl_FindExtensionByName c (ext_full_name x) = Inr x)) \<and>
    (whole \<longrightarrow>
       (\<forall>n t. type_at (snd (rs_agg (cl_main c))) n = Some t \<longleftrightarrow>
          type_full_name t = n \<and> (\<exists>sid ss. schema_at snap sid = Some ss \<and> t \<in> set (declared ss))) \<and>
       (\<forall>n. (\<forall>sid ss t. schema_at snap sid = Some ss \<longrightarrow> t \<in> set (declared ss) \<longrightarrow> type_full_name t \<noteq> n) \<longrightarrow>
          cl_FindMessageByName c n = FindMessageByName (parent_types (cl_ancestors c) (rs_cfg (cl_main c))) n \<and>
          cl_FindExtensionByName c n = FindExtensionByName (parent_types (cl_ancestors c) (rs_cfg (cl_main c))) n))"
proof -
  note run = client_run_ok [OF assms]
  then obtain snap where snap: "rs_snapshot (cl_main c) = Some snap" and ok: "snap_ok snap" by (auto simp: resolver_ok_def split: option.splits)
  have good: "schema_ok ss" if "schema_at snap sid = Some ss" for sid ss
    using ok entriesD [of good_schema, OF _ that] by (simp add: snap_ok_def good_schema_def)
  note at = declared_at [OF good]
  have own: "owning_schema c (type_full_name t) = Some ss" if "schema_at snap sid = Some ss" "t \<in> set (declared ss)" for sid ss t
    using owning_schema_iff [OF snap ok] that type_names_schema_names by blast
  have local: "cl_FindMessageByName c (msg_full_name m) = Inr m \<and> scoped_FindMessageByName c sid (msg_full_name m) = Inr m"
    if s: "schema_at snap sid = Some ss" and m: "MessageType m \<in> set (declared ss)" for sid ss m
    using own [OF s m] at [OF s, of "msg_full_name m" "MessageType m"] m s
    by (simp add: cl_FindMessageByName_def scoped_FindMessageByName_def schema_types_def snap)
  have ext: "cl_FindExtensionByName c (ext_full_name x) = Inr x"
    if s: "schema_at snap sid = Some ss" and x: "ExtensionType x \<in> set (declared ss)" for sid ss x
    using own [OF s x] at [OF s, of "ext_full_name x" "ExtensionType x"] x by (simp add: cl_FindExtensionByName_def schema_types_def)
  have agg: "type_at (snd (rs_agg (cl_main c))) n = Some t \<longleftrightarrow>
      type_full_name t = n \<and> (\<exists>sid ss. schema_at snap sid = Some ss \<and> t \<in> set (declared ss))" if whole for n t
  proof -
    have "ss \<in> schemas_in (nss_schemas snap) \<longleftrightarrow> (\<exists>sid. schema_at snap sid = Some ss)" for ss
      using ok by (auto simp: snap_ok_def entries_def) (metis map_of_is_SomeI image_eqI snd_conv map_of_SomeD)+
    then have "(\<exists>ss \<in> schemas_in (nss_schemas snap). t \<in> set (declared ss)) \<longleftrightarrow> (\<exists>sid ss. schema_at snap sid = Some ss \<and> t \<in> set (declared ss))" by blast
    moreover have "agg_is (snd (rs_agg (cl_main c))) (schemas_in (nss_schemas snap))" using run that by (simp add: agg_whole_def current_schemas_def snap)
    ultimately show ?thesis unfolding agg_is_def by blast
  qed
  have miss: "cl_FindMessageByName c n = FindMessageByName (parent_types (cl_ancestors c) (rs_cfg (cl_main c))) n \<and>
      cl_FindExtensionByName c n = FindExtensionByName (parent_types (cl_ancestors c) (rs_cfg (cl_main c))) n"
    if whole and n: "\<forall>sid ss t. schema_at snap sid = Some ss \<longrightarrow> t \<in> set (declared ss) \<longrightarrow> type_full_name t \<noteq> n" for n
  proof (cases "owning_schema c n")
    case None
    have "type_at (snd (rs_agg (cl_main c))) n = None" using agg [OF that(1), of n] n by (metis not_None_eq)
    then show ?thesis using None by (simp add: cl_FindMessageByName_def cl_FindExtensionByName_def nsTypes_def)
  next
    case (Some ss)
    then obtain sid where s: "schema_at snap sid = Some ss" using owning_schema_iff [OF snap ok] by blast
    then have "type_at (cs_types ss) n = None" using at [OF s, of n] n by (metis not_None_eq)
    then show ?thesis using Some by (simp add: cl_FindMessageByName_def cl_FindExtensionByName_def schema_types_def)
  qed
  show ?thesis by (intro exI [of _ snap] conjI snap allI impI) (use local ext agg miss in \<open>blast+\<close>)
qed

text \<open>A stub with one schema of one file, which declares a message with a message inside, and a wire format that keeps no content.\<close>

definition stub_lib :: lib where
  "stub_lib = list_lib\<lparr>lib_Marshal := \<lambda>_. Inr ''set'', lib_Unmarshal := \<lambda>_. Inr []\<rparr>"

definition inner_message :: message_desc where
  "inner_message = Message ''In'' ''acme.Out.In'' [] [] [] [] []"

definition stub_file :: fdproto where
  "stub_file = (bare_proto ''acme.proto'')\<lparr>fp_package := ''acme'', fp_messages := [Message ''Out'' ''acme.Out'' [] [inner_message] [] [] []]\<rparr>"

definition stub_info :: "u64 \<Rightarrow> schema_info" where
  "stub_info v = \<lparr>si_NamespaceId = ''n'', si_SchemaId = ''s'', si_CreatedAt = 0, si_Metadata = None, si_Versions = [],
     si_CurrentVersion = Some v, si_StagedVersion = None\<rparr>"

definition stub :: "u64 conn" where
  "stub = \<lparr>rpc_ListSchemas = (\<lambda>_ _ v. (Inr ([stub_info v], ''''), v)), rpc_GetDescriptor = (\<lambda>_ _ v w. (Inr (v, [stub_file]), w)),
     rpc_GetSource = (\<lambda>_ _ v w. (Inr (v, []), w)), rpc_GetNamespaceChain = (\<lambda>ns w. (Inr [ns], w))\<rparr>"

definition made_client :: client where
  "made_client = (case newSingleNamespace stub_lib stub ''n'' defaultConfig 3 of
     Some (Inr r, _) \<Rightarrow> \<lparr>cl_main = r, cl_ancestors = [], cl_ownsConn = False\<rparr>)"

theorem client_lookup_exact_witness:
  "cl_FindMessageByName made_client ''acme.Out.In'' = Inr inner_message \<and> cl_FindMessageByName made_client ''acme.Gone'' = Inl NotFound"
proof -
  have "case newSingleNamespace stub_lib stub ''n'' defaultConfig 3 of Some (Inr r, _) \<Rightarrow> True | _ \<Rightarrow> False" by code_simp
  then obtain r w where r: "newSingleNamespace stub_lib stub ''n'' defaultConfig 3 = Some (Inr r, w)" by (auto split: option.splits sum.splits prod.splits)
  then have "client_run stub_lib stub True (cl_main made_client)" by (simp add: made_client_def client_run.made)
  from client_lookup_exact [OF this] obtain snap where snap: "rs_snapshot (cl_main made_client) = Some snap"
    and found: "\<And>sid ss m. schema_at snap sid = Some ss \<Longrightarrow> MessageType m \<in> set (declared ss) \<Longrightarrow> cl_FindMessageByName made_client (msg_full_name m) = Inr m"
    and miss: "\<And>n. (\<forall>sid ss t. schema_at snap sid = Some ss \<longrightarrow> t \<in> set (declared ss) \<longrightarrow> type_full_name t \<noteq> n) \<Longrightarrow>
      cl_FindMessageByName made_client n = FindMessageByName (parent_types (cl_ancestors made_client) (rs_cfg (cl_main made_client))) n"
    by (elim exE conjE) (erule that; simp)
  have s: "map (\<lambda>(sid, ss). (sid, declared ss)) (nss_schemas (the (rs_snapshot (cl_main made_client)))) =
      [(''s'', [MessageType (Message ''Out'' ''acme.Out'' [] [inner_message] [] [] []), MessageType inner_message])]" by code_simp
  then obtain ss where ss: "nss_schemas snap = [(''s'', ss)]" "declared ss = [MessageType (Message ''Out'' ''acme.Out'' [] [inner_message] [] [] []), MessageType inner_message]"
    by (auto simp: snap)
  have p: "parent_types (cl_ancestors made_client) (rs_cfg (cl_main made_client)) = []" by code_simp
  show ?thesis using found [of "''s''" ss inner_message] miss [of "''acme.Gone''"] by (auto simp: ss p inner_message_def split: if_splits)
qed

section \<open>Following the server\<close>

definition listed_version :: "db \<Rightarrow> string \<Rightarrow> string \<Rightarrow> u64 option" where
  "listed_version db nid sid = (case find (\<lambda>row. sr_id row = sid) (live_schemas db nid) of None \<Rightarrow> None | Some row \<Rightarrow> pgint8ToPtr (sr_current row))"

definition tracked_infos :: "config \<Rightarrow> db \<Rightarrow> string \<Rightarrow> schema_info list" where
  "tracked_infos cfg db nid = filter (\<lambda>x. tracksSchema cfg (si_SchemaId x))
     (map schema_info_of (sort_key (\<lambda>row. text_key db (sr_id row)) (live_schemas db nid)))"

lemma schema_info_of_sel [simp]: "si_SchemaId (schema_info_of row) = sr_id row" "si_CurrentVersion (schema_info_of row) = pgint8ToPtr (sr_current row)"
  by (simp_all add: schema_info_of_def schemaToProto_def schemaModelToStore_def)

lemma tracked_infos_mem:
  "info \<in> set (tracked_infos cfg db nid) \<longleftrightarrow> (\<exists>row \<in> set (live_schemas db nid). info = schema_info_of row \<and> tracksSchema cfg (sr_id row))"
  by (auto simp: tracked_infos_def)

lemma tracked_infos_distinct:
  assumes "served s"
  shows "distinct (map si_SchemaId (tracked_infos cfg (db_of s) nid))"
proof -
  let ?rows = "sort_key (\<lambda>row. text_key (db_of s) (sr_id row)) (live_schemas (db_of s) nid)"
  have "distinct (map sr_id ?rows)" using listed_once [OF assms, of nid] by (simp add: distinct_map)
  moreover have "map si_SchemaId (map schema_info_of ?rows) = map sr_id ?rows" by simp
  ultimately show ?thesis unfolding tracked_infos_def by (metis distinct_map_filter)
qed

text \<open>A current version is a number a version can have, so it is not zero.\<close>

lemma live_version_nonzero:
  assumes "served s" and "row \<in> set (live_schemas (db_of s) nid)" and "pgint8ToPtr (sr_current row) = Some v"
  shows "v \<noteq> 0"
proof -
  from assms(3) obtain i where i: "sr_current row = Some i" "v = versionFromDB i" by (auto simp: pgint8ToPtr_def split: option.splits)
  have "refs_ok (db_of s)" "versions_ok (db_of s)" using served_reachable [OF assms(1)] reachable_inv by (auto simp: reg_inv_def)
  with assms(2) i(1) have "1 \<le> i" "i \<le> max_int64" by (auto simp: refs_ok_def versions_ok_def live_schemas_def)
  then have "uint v = i" by (simp add: i(2) uint_versionFromDB)
  with \<open>1 \<le> i\<close> show ?thesis by auto
qed

lemma in_step_versions:
  assumes s: "served s" and step: "in_step (\<lambda>sid v ss. v \<noteq> 0 \<longrightarrow> cs_version ss = v) (tracked_infos cfg (db_of s) nid) al"
  shows "map_option cs_version (map_of al sid) = (if tracksSchema cfg sid then listed_version (db_of s) nid sid else None)"
proof -
  let ?rows = "live_schemas (db_of s) nid"
  have once: "row = row'" if "row \<in> set ?rows" "row' \<in> set ?rows" "sr_id row = sr_id row'" for row row'
    using listed_once [OF s, of nid] that by (auto simp: distinct_map inj_on_def)
  show ?thesis
  proof (cases "map_of al sid")
    case None
    with step [unfolded in_step_def, THEN spec, of sid] have none: "\<forall>info \<in> set (tracked_infos cfg (db_of s) nid). si_SchemaId info = sid \<longrightarrow> si_CurrentVersion info = None"
      by simp
    have "listed_version (db_of s) nid sid = None" if t: "tracksSchema cfg sid"
    proof (cases "find (\<lambda>row. sr_id row = sid) ?rows")
      case (Some row)
      then have "row \<in> set ?rows" "sr_id row = sid" by (auto dest: find_Some_mem)
      with t have "schema_info_of row \<in> set (tracked_infos cfg (db_of s) nid)" by (auto simp: tracked_infos_mem)
      with none \<open>sr_id row = sid\<close> have "pgint8ToPtr (sr_current row) = None" by fastforce
      with Some show ?thesis by (simp add: listed_version_def)
    qed (simp add: listed_version_def)
    with None show ?thesis by simp
  next
    case (Some ss)
    with step [unfolded in_step_def, THEN spec, of sid] obtain info v where info: "info \<in> set (tracked_infos cfg (db_of s) nid)" "si_SchemaId info = sid" "si_CurrentVersion info = Some v"
      and v: "v \<noteq> 0 \<longrightarrow> cs_version ss = v" by auto
    from info(1) obtain row where row: "row \<in> set ?rows" "info = schema_info_of row" "tracksSchema cfg (sr_id row)" by (auto simp: tracked_infos_mem)
    with info have id: "sr_id row = sid" and cur: "pgint8ToPtr (sr_current row) = Some v" by simp_all
    have "find (\<lambda>row. sr_id row = sid) ?rows \<noteq> None" using row(1) id by (auto simp: find_None_iff)
    then obtain row' where row': "find (\<lambda>row. sr_id row = sid) ?rows = Some row'" by blast
    then have "row' = row" using once [OF _ row(1), of row'] id by (auto dest: find_Some_mem)
    with row' cur have "listed_version (db_of s) nid sid = Some v" by (simp add: listed_version_def)
    with v live_version_nonzero [OF s row(1) cur] row(3) id Some show ?thesis by simp
  qed
qed

text \<open>With nothing to add, replace or remove, the plan is what is there.\<close>

lemma plan_unchanged:
  assumes "plan_ok cur seen p" and "entries good_schema cur" and "rp_added p = []" and "rp_replaced p = []"
    and "map snd (filter (\<lambda>(sid, _). map_of (rp_next p) sid = None) cur) = []"
  shows "map_of cur = map_of (rp_next p)"
proof -
  have s: "schemas_in cur = schemas_in (rp_next p)" using plan_schemas [OF assms(1,2)] assms(3-5) by simp
  have "map_of cur sid = Some ss \<longleftrightarrow> map_of (rp_next p) sid = Some ss" for sid ss
  proof -
    have "map_of al sid = Some ss \<longleftrightarrow> ss \<in> schemas_in al \<and> cs_schemaID ss = sid" if "entries good_schema al" for al
      using schemas_in_iff [OF that] entriesD [OF that] by (auto simp: good_schema_def)
    with s assms(2) plan_okD(1) [OF assms(1)] show ?thesis by simp
  qed
  then show ?thesis by (intro ext) (metis not_None_eq)
qed

text \<open>
  Property C38 (refresh_follows_server). A client of any history, refreshed against this server in any state the server can be
  in while its database answers: the refresh returns. If it succeeds, the server is as it was and the client's snapshot has,
  for every schema, exactly the version that is current in the database, none for a schema that the client
  does not track, that is deleted or has no current version. If it fails, the snapshot and the cache on disk are as
  they were.
\<close>

theorem refresh_follows_server:
  assumes "client_run L (server_conn env a ctx) whole r" and "\<not> rs_fromCache r"
    and "served s" and "can_list env s (rs_ns r)" and "a ctx ''ListSchemas'' = Inr who"
  shows "\<exists>x s' d' r'. Refresh L now (server_conn env a ctx) ancestors (s, d, r) = Some (x, (s', d', r')) \<and>
    (case x of
       Inl _ \<Rightarrow> rs_snapshot r' = rs_snapshot r \<and> d' = d
     | Inr _ \<Rightarrow> s' = s \<and> (\<exists>snap. rs_snapshot r' = Some snap \<and>
         (\<forall>sid. map_option cs_version (schema_at snap sid) =
            (if tracksSchema (rs_cfg r) sid then listed_version (db_of s) (rs_ns r) sid else None))))"
proof -
  let ?conn = "server_conn env a ctx" and ?infos = "tracked_infos (rs_cfg r) (db_of s) (rs_ns r)"
  let ?p0 = "\<lparr>rp_next = [], rp_added = [], rp_replaced = []\<rparr> :: refresh_plan"
  have l: "listAllSchemas ?conn r s = Some (Inr ?infos, s)" unfolding tracked_infos_def using assms(3-5) by (rule listing_all)
  obtain x s' d' r' where run: "refresh_from L now ?conn ancestors ?infos (s, d, r) = (x, (s', d', r'))" by (metis prod.exhaust)
  have ret: "Refresh L now ?conn ancestors (s, d, r) = Some (x, (s', d', r'))" using l run assms(2) by (simp add: Refresh_def wrapP_def)
  have ok: "resolver_ok r" using client_run_ok [OF assms(1)] by blast
  note cur = resolver_ok_current(1) [OF ok]
  obtain y s1 p where loop: "eachA (plan_schema L ?conn r) ?infos (s, ?p0) = (y, (s1, p))" by (metis prod.exhaust)
  have calm: "db_faults (db_of s) = []" using assms(4) by (simp add: can_list_def)
  have planned: "s1 = s \<and> (\<forall>sid. map_option cs_version (map_of (rp_next p) sid) =
      (if tracksSchema (rs_cfg r) sid then listed_version (db_of s) (rs_ns r) sid else None)) \<and>
      plan_ok (current_schemas r) ({} \<union> si_SchemaId ` set ?infos) p \<and> entries good_schema (rp_next p)" if "y = Inr ()"
  proof (intro conjI allI)
    note step = service.plan_loop [OF loop [unfolded that] calm]
    show "s1 = s" using step by simp
    show "map_option cs_version (map_of (rp_next p) sid) = (if tracksSchema (rs_cfg r) sid then listed_version (db_of s) (rs_ns r) sid else None)" for sid
      by (rule in_step_versions [OF assms(3)]) (use step in blast)
    show "plan_ok (current_schemas r) ({} \<union> si_SchemaId ` set ?infos) p"
      by (rule plan_run_ok [OF loop [unfolded that] _ cur tracked_infos_distinct [OF assms(3)]]) (simp_all add: plan_ok_def)
    show "entries good_schema (rp_next p)" by (rule plan_good [OF loop _ cur]) simp
  qed
  from run loop have "(isl x \<and> rs_snapshot r' = rs_snapshot r \<and> d' = d) \<or> (\<exists>snap. x = Inr () \<and> y = Inr () \<and> s' = s1 \<and>
      rs_snapshot r' = Some snap \<and> map_of (nss_schemas snap) = map_of (rp_next p))"
  proof (cases rule: refresh_from_cases)
    case same
    then obtain snap where snap: "rs_snapshot r = Some snap" by blast
    have "map_of (current_schemas r) = map_of (rp_next p)"
      using plan_unchanged [OF _ cur same(6,7)] planned [OF same(2)] same(8) unfolding removed_schemas_def by blast
    with same snap show ?thesis by (simp add: current_schemas_def)
  next
    case (swap snap agg)
    have "nss_schemas snap = rp_next p" using snap_okI [OF swap(4)] planned [OF swap(2)] by (simp add: newSnapshot_def)
    with swap show ?thesis by simp
  qed simp_all
  then have "case x of
       Inl _ \<Rightarrow> rs_snapshot r' = rs_snapshot r \<and> d' = d
     | Inr _ \<Rightarrow> s' = s \<and> (\<exists>snap. rs_snapshot r' = Some snap \<and>
         (\<forall>sid. map_option cs_version (schema_at snap sid) =
            (if tracksSchema (rs_cfg r) sid then listed_version (db_of s) (rs_ns r) sid else None)))"
  proof (elim disjE exE conjE)
    fix snap assume x: "x = Inr ()" and y: "y = Inr ()" and s': "s' = s1" and r': "rs_snapshot r' = Some snap"
      and m: "map_of (nss_schemas snap) = map_of (rp_next p)"
    from planned [OF y] show ?thesis unfolding x s' r' sum.case m [symmetric] by blast
  qed (cases x; simp)
  with ret show ?thesis by blast
qed

definition promoted_schemas :: server where
  "promoted_schemas = snd (UnaryAuthInterceptor NoAuth (dispatch listing_env (RpcPromote ''n'')) no_metadata ''Promote'' two_schemas)"

lemma served_promoted_schemas: "served promoted_schemas"
  unfolding promoted_schemas_def by (rule served.call [OF served_two_schemas])

abbreviation local_stub :: "server conn" where
  "local_stub \<equiv> server_conn listing_env NoAuth no_metadata"

definition early_resolver :: resolver where
  "early_resolver = (case newSingleNamespace list_lib local_stub ''n'' defaultConfig two_schemas of Some (Inr r, _) \<Rightarrow> r)"

theorem refresh_follows_server_witness:
  "\<exists>x s' d' r' snap. Refresh list_lib 0 local_stub [] (promoted_schemas, \<lparr>dk_files = [], dk_faults = []\<rparr>, early_resolver) = Some (x, (s', d', r')) \<and>
     rs_snapshot r' = Some snap \<and> map_option cs_version (schema_at snap ''s'') = Some 1 \<and> schema_at snap ''u'' = None"
proof -
  let ?d = "\<lparr>dk_files = [], dk_faults = []\<rparr> :: disk"
  have "case newSingleNamespace list_lib local_stub ''n'' defaultConfig two_schemas of Some (Inr r, _) \<Rightarrow> True | _ \<Rightarrow> False" by code_simp
  then obtain r w where "newSingleNamespace list_lib local_stub ''n'' defaultConfig two_schemas = Some (Inr r, w)"
    by (auto split: option.splits sum.splits prod.splits)
  then have "client_run list_lib local_stub True early_resolver" by (simp add: early_resolver_def client_run.made)
  moreover have "(let r = early_resolver; s = promoted_schemas; v = listed_version (db_of s) (rs_ns r) in
      (rs_fromCache r, can_list listing_env s (rs_ns r), tracksSchema (rs_cfg r) ''s'', tracksSchema (rs_cfg r) ''u'', v ''s'', v ''u'')) =
      (False, True, True, True, Some 1, None)" by code_simp
  then have v: "\<not> rs_fromCache early_resolver" "can_list listing_env promoted_schemas (rs_ns early_resolver)"
      "tracksSchema (rs_cfg early_resolver) ''s''" "tracksSchema (rs_cfg early_resolver) ''u''"
      "listed_version (db_of promoted_schemas) (rs_ns early_resolver) ''s'' = Some 1" "listed_version (db_of promoted_schemas) (rs_ns early_resolver) ''u'' = None"
    by (simp_all add: Let_def)
  moreover note v(1,2)
  moreover have "NoAuth no_metadata ''ListSchemas'' = Inr AnonymousIdentity" by (simp add: NoAuth_def)
  ultimately obtain x s' d' r' where run: "Refresh list_lib 0 local_stub [] (promoted_schemas, ?d, early_resolver) = Some (x, (s', d', r'))"
    and res: "case x of
       Inl _ \<Rightarrow> rs_snapshot r' = rs_snapshot early_resolver \<and> d' = ?d
     | Inr _ \<Rightarrow> s' = promoted_schemas \<and> (\<exists>snap. rs_snapshot r' = Some snap \<and>
         (\<forall>sid. map_option cs_version (schema_at snap sid) =
            (if tracksSchema (rs_cfg early_resolver) sid then listed_version (db_of promoted_schemas) (rs_ns early_resolver) sid else None)))"
    using refresh_follows_server [OF _ _ served_promoted_schemas, of list_lib listing_env NoAuth no_metadata True early_resolver AnonymousIdentity 0 "[]" ?d] by blast
  have "\<not> isl (fst (the (Refresh list_lib 0 local_stub [] (promoted_schemas, ?d, early_resolver))))" by code_simp
  then have "\<not> isl x" unfolding run by simp
  from \<open>\<not> isl x\<close> obtain u where "x = Inr u" by (cases x) simp_all
  with res obtain snap where "rs_snapshot r' = Some snap" and at: "\<And>sid. map_option cs_version (schema_at snap sid) =
      (if tracksSchema (rs_cfg early_resolver) sid then listed_version (db_of promoted_schemas) (rs_ns early_resolver) sid else None)" by auto
  moreover have "map_option cs_version (schema_at snap ''s'') = Some 1" using at [of "''s''"] v by simp
  moreover have "schema_at snap ''u'' = None" using at [of "''u''"] v by simp
  ultimately show ?thesis using run by blast
qed

end
