(* ===== verification/Client_Offline.thy ===== *)
theory Client_Offline
  imports Client_Props
begin

text \<open>
  The cache on disk: what a client writes there is what a client that finds no server reads back.
\<close>

section \<open>File names\<close>

lemma fmt_nat_digits: "c \<in> set (fmt_nat n) \<Longrightarrow> 48 \<le> (of_char c :: nat) \<and> (of_char c :: nat) \<le> 57"
proof (induction n rule: fmt_nat.induct)
  case (1 n)
  show ?case
  proof (cases "n < 10")
    case True
    with 1(2) show ?thesis by (subst (asm) fmt_nat.simps) simp
  next
    case False
    with 1(2) have "c \<in> set (fmt_nat (n div 10)) \<or> c = char_of (48 + n mod 10)" by (subst (asm) fmt_nat.simps) auto
    with 1(1) [OF False] show ?thesis by fastforce
  qed
qed

lemma fmt_u64_plain: "CHR ''@'' \<notin> set (fmt_u64 v)" "CHR ''/'' \<notin> set (fmt_u64 v)"
  using fmt_nat_digits [of "CHR ''@''"] fmt_nat_digits [of "CHR ''/''"] by (fastforce simp: fmt_u64_def)+

lemma schema_file_name_inj: "schema_file_name sid v = schema_file_name sid' v' \<Longrightarrow> sid = sid'"
  using split_at_last [of "CHR ''@''" "fmt_u64 v @ ''.pb''" "fmt_u64 v' @ ''.pb''" sid sid'] fmt_u64_plain by (simp add: schema_file_name_def)

lemma schema_file_name_base:
  assumes "CHR ''/'' \<notin> set sid"
  shows "filepath_Base (schema_file_name sid v) = schema_file_name sid v"
proof -
  let ?xs = "rev (schema_file_name sid v)"
  have "CHR ''/'' \<notin> set ?xs" using assms fmt_u64_plain by (auto simp: schema_file_name_def)
  then have "takeWhile (\<lambda>c. c \<noteq> CHR ''/'') ?xs = ?xs" "dropWhile (\<lambda>c. c = CHR ''/'') ?xs = ?xs"
    by (auto simp: takeWhile_eq_all_conv dropWhile_eq_self_iff) (metis hd_in_set rev_is_Nil_conv set_rev)
  then have "rev (takeWhile (\<lambda>c. c \<noteq> CHR ''/'') (dropWhile (\<lambda>c. c = CHR ''/'') (rev (schema_file_name sid v)))) = schema_file_name sid v" by (metis rev_rev_ident)
  moreover have "schema_file_name sid v \<noteq> ''''" by (simp add: schema_file_name_def)
  ultimately show ?thesis by (simp add: filepath_Base_def Let_def)
qed

section \<open>Writing and reading\<close>

text \<open>The files and the entries of the manifest that writing a list of schemas yields.\<close>

definition schema_path :: "string \<Rightarrow> string \<Rightarrow> string \<times> schema_snapshot \<Rightarrow> cache_path" where
  "schema_path dir ns = (\<lambda>(sid, ss). SchemaPath dir ns (schema_file_name sid (cs_version ss)))"

definition write_schemas :: "string \<Rightarrow> string \<Rightarrow> (string \<times> schema_snapshot) list \<Rightarrow> (cache_path \<times> content) list \<Rightarrow> (cache_path \<times> content) list" where
  "write_schemas dir ns = fold (\<lambda>e. AList.update (schema_path dir ns e) (Data (cs_raw (snd e))))"

definition manifest_entry :: "string \<times> schema_snapshot \<Rightarrow> schema_manifest" where
  "manifest_entry = (\<lambda>(sid, ss). \<lparr>sm_SchemaID = sid, sm_Version = cs_version ss, sm_File = schema_file_name sid (cs_version ss)\<rparr>)"

lemma forA_map: "forA f (map g xs) = forA (\<lambda>x. f (g x)) xs"
  by (induction xs) auto

lemma persist_schemas:
  assumes "dk_faults d = []" and "\<forall>e \<in> set al. cs_raw (snd e) \<noteq> ''''"
  shows "forA (persist_schema dir ns) al d = (Inr (map (\<lambda>e. [manifest_entry e]) al), d\<lparr>dk_files := write_schemas dir ns al (dk_files d)\<rparr>)"
  using assms
proof (induction al arbitrary: d)
  case (Cons e al)
  obtain sid ss where e: "e = (sid, ss)" by fastforce
  let ?d = "d\<lparr>dk_files := AList.update (schema_path dir ns e) (Data (cs_raw ss)) (dk_files d)\<rparr>"
  have "persist_schema dir ns e d = (Inr [manifest_entry e], ?d)"
    using Cons.prems by (simp add: e persist_schema_def Let_def act_defs atomicWrite_def fileop_def schema_path_def manifest_entry_def)
  moreover have "forA (persist_schema dir ns) al ?d = (Inr (map (\<lambda>e. [manifest_entry e]) al), ?d\<lparr>dk_files := write_schemas dir ns al (dk_files ?d)\<rparr>)"
    by (rule Cons.IH) (use Cons.prems in simp_all)
  ultimately show ?case by (simp add: act_defs write_schemas_def e)
qed (simp add: act_defs write_schemas_def)

lemma written:
  assumes "distinct (map fst al)" and "e \<in> set al"
  shows "map_of (write_schemas dir ns al files) (schema_path dir ns e) = Some (Data (cs_raw (snd e)))"
  using assms
proof (induction al rule: rev_induct)
  case (snoc e' al)
  show ?case
  proof (cases "e = e'")
    case True
    then show ?thesis by (simp add: write_schemas_def update_conv')
  next
    case False
    with snoc.prems have m: "e \<in> set al" by auto
    with snoc.prems(1) have "fst e \<noteq> fst e'" by (auto simp: image_iff)
    then have "schema_path dir ns e \<noteq> schema_path dir ns e'" by (auto simp: schema_path_def dest: schema_file_name_inj split: prod.splits)
    with m snoc.IH snoc.prems(1) show ?thesis by (simp add: write_schemas_def update_conv')
  qed
qed simp

text \<open>A disk without faults that holds the files of these schemas gives them back.\<close>

lemma load_schemas:
  assumes "dk_faults d = []" and "distinct (map fst (nss_schemas snap @ al))"
    and "\<forall>e \<in> set al. tracksSchema cfg (fst e) \<and> CHR ''/'' \<notin> set (fst e) \<and> compiled_from_raw L ns (fst e) (snd e) \<and>
      map_of (dk_files d) (schema_path dir ns e) = Some (Data (cs_raw (snd e)))"
  shows "eachA (load_schema L dir ns cfg) (map manifest_entry al) (d, snap) = (Inr (), (d, snap\<lparr>nss_schemas := nss_schemas snap @ al\<rparr>))"
  using assms(2,3)
proof (induction al arbitrary: snap)
  case (Cons e al)
  obtain sid ss where e: "e = (sid, ss)" by fastforce
  from Cons.prems(2) have sid: "tracksSchema cfg sid" "CHR ''/'' \<notin> set sid"
    and stored: "map_of (dk_files d) (SchemaPath dir ns (schema_file_name sid (cs_version ss))) = Some (Data (cs_raw ss))"
    and raw: "compiled_from_raw L ns sid ss" by (simp_all add: e schema_path_def del: map_of_eq_Some_iff)
  from raw obtain fdset where u: "lib_Unmarshal L (cs_raw ss) = Inr fdset" "compileSchema L ns sid (cs_version ss) fdset (cs_raw ss) = Inr ss"
    by (auto simp: compiled_from_raw_def)
  let ?snap = "snap\<lparr>nss_schemas := nss_schemas snap @ [(sid, ss)]\<rparr>"
  have "AList.update sid ss (nss_schemas snap) = nss_schemas snap @ [(sid, ss)]" using Cons.prems(1) by (intro update_append) (simp add: e)
  then have "load_schema L dir ns cfg (manifest_entry e) (d, snap) = (Inr (), (d, ?snap))"
    using sid stored u schema_file_name_base assms(1)
    by (simp add: load_schema_def manifest_entry_def e act_defs Let_def ReadFile_def fileop_def libE_def del: map_of_eq_Some_iff)
  moreover have "eachA (load_schema L dir ns cfg) (map manifest_entry al) (d, ?snap) = (Inr (), (d, ?snap\<lparr>nss_schemas := nss_schemas ?snap @ al\<rparr>))"
    by (rule Cons.IH) (use Cons.prems in \<open>simp_all add: e\<close>)
  ultimately show ?case by (simp add: act_defs e)
qed (simp add: act_defs)

text \<open>Neither the index nor the aggregate depends on the order in which a map holds the schemas.\<close>

lemma build_index_cong:
  assumes "sort (map fst (nss_schemas s)) = sort (map fst (nss_schemas t))" and "schema_at s = schema_at t" and "nss_nameIndex s = nss_nameIndex t"
  shows "build_index s = build_index t"
  by (simp add: build_index_def assms)

definition sorted_entries :: "(string \<times> 'v) list \<Rightarrow> (string \<times> 'v) list" where
  "sorted_entries al = map (\<lambda>sid. (sid, the (map_of al sid))) (sort (map fst al))"

lemma sorted_entries:
  assumes "distinct (map fst al)"
  shows "map fst (sorted_entries al) = sort (map fst al)" and "map_of (sorted_entries al) = map_of al" and "set (sorted_entries al) = set al"
proof -
  show k: "map fst (sorted_entries al) = sort (map fst al)" by (simp add: sorted_entries_def comp_def)
  have "(fst e, the (map_of al (fst e))) = e" if "e \<in> set al" for e
    using assms that by (metis map_of_is_SomeI option.sel prod.collapse)
  then have "(\<lambda>e. (fst e, the (map_of al (fst e)))) ` set al = id ` set al" by (intro image_cong) simp_all
  then show s: "set (sorted_entries al) = set al" by (simp add: sorted_entries_def image_image)
  show "map_of (sorted_entries al) = map_of al"
    by (rule map_of_inject_set [THEN iffD2]) (use k s assms in simp_all)
qed

text \<open>What the cache makes of a resolver: the schemas in the order of their identifiers, and no refreshing.\<close>

definition reloaded :: "resolver \<Rightarrow> resolver" where
  "reloaded r = r\<lparr>rs_cfg := (rs_cfg r)\<lparr>cfg_refresh := 0\<rparr>,
     rs_snapshot := map_option (\<lambda>snap. snap\<lparr>nss_schemas := sorted_entries (nss_schemas snap)\<rparr>) (rs_snapshot r), rs_fromCache := True, rs_refreshing := False\<rparr>"

definition cacheable :: "lib \<Rightarrow> resolver \<Rightarrow> ns_snapshot \<Rightarrow> bool" where
  "cacheable L r snap \<longleftrightarrow> distinct (map fst (nss_schemas snap)) \<and>
     (\<forall>e \<in> set (nss_schemas snap). cs_raw (snd e) \<noteq> '''' \<and> tracksSchema (rs_cfg r) (fst e) \<and> CHR ''/'' \<notin> set (fst e) \<and>
        compiled_from_raw L (rs_ns r) (fst e) (snd e))"

definition saved_manifest :: "int \<Rightarrow> resolver \<Rightarrow> ns_snapshot \<Rightarrow> string list \<Rightarrow> cache_manifest" where
  "saved_manifest now r snap chain = \<lparr>cm_Version = cacheManifestVersion, cm_Namespace = rs_ns r, cm_SavedAt = now,
     cm_Schemas = map manifest_entry (sorted_entries (nss_schemas snap)), cm_ServerChain = chain\<rparr>"

definition saved :: "int \<Rightarrow> resolver \<Rightarrow> ns_snapshot \<Rightarrow> string list \<Rightarrow> disk \<Rightarrow> disk" where
  "saved now r snap chain d =
     (let dir = cfg_cacheDir (rs_cfg r); ns = rs_ns r in
      d\<lparr>dk_files := AList.update (ManifestPath dir ns) (Json (saved_manifest now r snap chain))
         (write_schemas dir ns (sorted_entries (nss_schemas snap)) (dk_files d))\<rparr>)"

lemma saved_faults [simp]: "dk_faults (saved now r snap chain d) = dk_faults d"
  by (simp add: saved_def Let_def)

lemma persist_own_saves:
  assumes "dk_faults d = []" and "cacheable L r snap"
  shows "persist_own now r snap chain d = (Inr (), saved now r snap chain d)"
proof -
  let ?al = "nss_schemas snap" and ?dir = "cfg_cacheDir (rs_cfg r)" and ?ns = "rs_ns r"
  have "set (sorted_entries ?al) = set ?al" using assms(2) by (intro sorted_entries(3)) (simp add: cacheable_def)
  then have "forA (persist_schema ?dir ?ns) (sorted_entries ?al) d =
      (Inr (map (\<lambda>e. [manifest_entry e]) (sorted_entries ?al)), d\<lparr>dk_files := write_schemas ?dir ?ns (sorted_entries ?al) (dk_files d)\<rparr>)"
    using assms by (intro persist_schemas) (simp_all add: cacheable_def)
  then have "forA (\<lambda>sid. persist_schema ?dir ?ns (sid, the (schema_at snap sid))) (sort (map fst ?al)) d =
      (Inr (map (\<lambda>e. [manifest_entry e]) (sorted_entries ?al)), d\<lparr>dk_files := write_schemas ?dir ?ns (sorted_entries ?al) (dk_files d)\<rparr>)"
    unfolding forA_map [symmetric, of "persist_schema ?dir ?ns" "\<lambda>sid. (sid, the (schema_at snap sid))"] sorted_entries_def [symmetric] .
  moreover have "concat (map (\<lambda>e. [manifest_entry e]) xs) = map manifest_entry xs" for xs by (induction xs) auto
  ultimately show ?thesis
    using assms(1) by (simp add: persist_own_def saved_def saved_manifest_def Let_def act_defs atomicWrite_def fileop_def)
qed

lemma readManifest_saved:
  assumes "dk_faults d = []"
  shows "readManifest (cfg_cacheDir (rs_cfg r)) (rs_ns r) (saved now r snap chain d) = (Inr (saved_manifest now r snap chain), saved now r snap chain d)"
  using assms
  by (simp add: readManifest_def saved_def saved_manifest_def Let_def act_defs ReadFile_def fileop_def update_conv' del: map_of_eq_Some_iff)

lemma load_saved:
  assumes d: "dk_faults d = []" and snap: "rs_snapshot r = Some snap" and ok: "cacheable L r snap"
    and idx: "buildNameIndex snap0 = Inr snap" "nss_nameIndex snap0 = []"
    and app: "applyAll snap (empty_files, empty_types) = (Inr u, rs_agg r)"
  shows "loadSingleNamespaceFromCache L (cfg_cacheDir (rs_cfg r)) (rs_ns r) (rs_cfg r) (saved now r snap chain d) =
    (Inr (reloaded r), saved now r snap chain d)"
proof -
  let ?dir = "cfg_cacheDir (rs_cfg r)" and ?ns = "rs_ns r" and ?al = "nss_schemas snap" and ?d = "saved now r snap chain d"
  let ?snap = "newSnapshot\<lparr>nss_schemas := sorted_entries ?al\<rparr>"
  from ok have dist: "distinct (map fst ?al)" by (simp add: cacheable_def)
  note sorted = sorted_entries [OF dist]
  have "map_of (dk_files ?d) (schema_path ?dir ?ns e) = Some (Data (cs_raw (snd e)))" if "e \<in> set ?al" for e
  proof -
    have "schema_path ?dir ?ns e \<noteq> ManifestPath ?dir ?ns" by (simp add: schema_path_def split: prod.splits)
    then have "map_of (dk_files ?d) (schema_path ?dir ?ns e) = map_of (write_schemas ?dir ?ns (sorted_entries ?al) (dk_files d)) (schema_path ?dir ?ns e)"
      by (simp add: saved_def Let_def update_conv')
    then show ?thesis using written [of "sorted_entries ?al" e] sorted dist that by (simp del: map_of_eq_Some_iff)
  qed
  then have loop: "eachA (load_schema L ?dir ?ns (rs_cfg r)) (map manifest_entry (sorted_entries ?al)) (?d, newSnapshot) = (Inr (), (?d, ?snap))"
    using load_schemas [of ?d newSnapshot "sorted_entries ?al" "rs_cfg r" L ?ns ?dir] d ok sorted dist
    by (simp add: cacheable_def newSnapshot_def del: map_of_eq_Some_iff)
  obtain b cs where b: "build_index snap0 = (b, cs)" by fastforce
  with idx have cs: "cs = []" and b': "snap = snap0\<lparr>nss_nameIndex := b\<rparr>" by (auto simp: buildNameIndex_def split: if_splits)
  have "build_index ?snap = build_index snap0"
    by (rule build_index_cong) (use sorted b' idx(2) in \<open>simp_all add: newSnapshot_def sorted_sort_id\<close>)
  then have index: "buildNameIndex ?snap = Inr (snap\<lparr>nss_schemas := sorted_entries ?al\<rparr>)"
    by (simp add: buildNameIndex_def b cs b' newSnapshot_def)
  have "applyAll (snap\<lparr>nss_schemas := sorted_entries ?al\<rparr>) (empty_files, empty_types) = (Inr u, rs_agg r)"
    using app sorted by (simp add: applyAll_def sorted_sort_id)
  then show ?thesis
    by (simp add: loadSingleNamespaceFromCache_def bindA_def readManifest_saved [OF d] saved_manifest_def loop index new_resolver_def reloaded_def snap Let_def)
qed

section \<open>A client without a server\<close>

text \<open>What a resolver that was just made holds.\<close>

definition all_tracked :: "config \<Rightarrow> schema_info list \<Rightarrow> bool" where
  "all_tracked cfg infos \<longleftrightarrow> (\<forall>i \<in> set infos. tracksSchema cfg (si_SchemaId i))"

lemma list_pages_tracked:
  assumes "list_pages conn ns cfg page infos w = Some (Inr infos', w')" and "all_tracked cfg infos"
  shows "all_tracked cfg infos'"
proof -
  have "all_tracked cfg infos \<longrightarrow> (\<forall>infos''. fst (Inr infos' :: schema_info list result, w') = Inr infos'' \<longrightarrow> all_tracked cfg infos'')"
  proof (rule list_pages.raw_induct [where P = "\<lambda>_ _ cfg _ infos _ res. all_tracked cfg infos \<longrightarrow> (\<forall>infos'. fst res = Inr infos' \<longrightarrow> all_tracked cfg infos')",
        OF _ assms(1)], goal_cases)
    case (1 self conn ns cfg page infos w res)
    obtain y t where y: "rpc_ListSchemas conn ns page w = (y, t)" by fastforce
    show ?case
    proof (cases y)
      case (Inl e)
      with 1(2) y show ?thesis by auto
    next
      case (Inr p)
      obtain xs tok where p: "p = (xs, tok)" by fastforce
      let ?infos = "infos @ filter (\<lambda>s. tracksSchema cfg (si_SchemaId s)) xs"
      from 1(2) have "res = (Inr ?infos, t) \<or> self conn ns cfg tok ?infos t = Some res" by (auto simp: y Inr p Let_def split: if_splits)
      moreover have "all_tracked cfg infos \<Longrightarrow> all_tracked cfg ?infos" by (auto simp: all_tracked_def)
      ultimately show ?thesis using 1(1) [of conn ns cfg tok ?infos t res] by auto
    qed
  qed
  then show ?thesis using assms(2) by simp
qed

lemma fetch_current_raw:
  assumes "wire_roundtrip L" and "tracksSchema cfg (si_SchemaId info)" and "fetch_current L conn ns info s = (x, t)"
    and "entries (\<lambda>sid ss. tracksSchema cfg sid \<and> compiled_from_raw L ns sid ss) (nss_schemas (snd s)) \<and> nss_nameIndex (snd s) = []"
  shows "entries (\<lambda>sid ss. tracksSchema cfg sid \<and> compiled_from_raw L ns sid ss) (nss_schemas (snd t)) \<and> nss_nameIndex (snd t) = []"
  using assms
  by (auto simp: fetch_current_def bindA_def retA_def zoomA_def modifyA_def split: option.splits prod.splits sum.splits dest: fetched_raw intro!: entries_update)

lemma made_from:
  assumes wire: "wire_roundtrip L" and made: "newSingleNamespace L conn ns cfg w = Some (Inr r, w')"
  obtains snap0 snap u where "rs_snapshot r = Some snap" and "rs_ns r = ns" and "rs_cfg r = cfg" and "buildNameIndex snap0 = Inr snap" and "nss_nameIndex snap0 = []"
    and "applyAll snap (empty_files, empty_types) = (Inr u, rs_agg r)"
    and "entries (\<lambda>sid ss. tracksSchema cfg sid \<and> compiled_from_raw L ns sid ss) (nss_schemas snap)"
proof -
  from made obtain w1 r1 where pop: "populate L conn (w, new_resolver ns cfg) = Some (Inr (), (w1, r1))" and r: "r = r1\<lparr>rs_refreshing := 0 < cfg_refresh cfg\<rparr>"
    by (auto simp: newSingleNamespace_def split: option.splits sum.splits prod.splits)
  from pop obtain infos w2 where l: "listAllSchemas conn (new_resolver ns cfg) w = Some (Inr infos, w2)"
    and from': "populate_from L conn infos (w2, new_resolver ns cfg) = (Inr (), (w1, r1))"
    by (auto simp: populate_def wrapP_def wrapE_def split: option.splits sum.splits prod.splits)
  from from' obtain u v snap0 snap agg where loop: "eachA (fetch_current L conn ns) infos (w2, newSnapshot) = (Inr u, (w1, snap0))"
    and idx: "buildNameIndex snap0 = Inr snap" and app: "applyAll snap (empty_files, empty_types) = (Inr v, agg)"
    and r1: "r1 = (new_resolver ns cfg)\<lparr>rs_agg := agg, rs_snapshot := Some snap\<rparr>"
    by (auto simp: populate_from_def new_resolver_def split: sum.splits prod.splits)
  from l have tracked: "\<forall>i \<in> set infos. tracksSchema cfg (si_SchemaId i)"
    using list_pages_tracked [of conn ns cfg "''''" "[]" w infos w2] by (simp add: listAllSchemas_def new_resolver_def all_tracked_def)
  let ?P = "\<lambda>s. entries (\<lambda>sid ss. tracksSchema cfg sid \<and> compiled_from_raw L ns sid ss) (nss_schemas (snd s)) \<and> nss_nameIndex (snd s) = []"
  have P: "?P (w1, snap0)"
  proof (rule eachA_invariant [where P = ?P, OF loop])
    show "?P (w2, newSnapshot)" by (simp add: newSnapshot_def)
    fix i t y t' assume "i \<in> set infos" "?P t" "fetch_current L conn ns i t = (y, t')"
    then show "?P t'" using fetch_current_raw [OF wire _ _ \<open>?P t\<close>] tracked by blast
  qed
  moreover have "nss_schemas snap = nss_schemas snap0" using idx by (auto simp: buildNameIndex_def split: prod.splits if_splits)
  ultimately show ?thesis by (intro that [of snap snap0 v]) (use app idx in \<open>simp_all add: r r1 new_resolver_def\<close>)
qed

text \<open>A reloaded client answers every lookup as the client that wrote the cache.\<close>

lemma reloaded_owning:
  assumes "rs_snapshot (cl_main c) = Some snap" and "distinct (map fst (nss_schemas snap))" and "cl_main c' = reloaded (cl_main c)"
  shows "owning_schema c' = owning_schema c"
  using assms sorted_entries(2) [of "nss_schemas snap"]
  by (simp add: owning_schema_def schemaFor_def reloaded_def fun_eq_iff split: option.splits)

lemma reloaded_parents [simp]:
  "parent_types as (rs_cfg (reloaded r)) = parent_types as (rs_cfg r)" "parent_files as (rs_cfg (reloaded r)) = parent_files as (rs_cfg r)"
  "rs_agg (reloaded r) = rs_agg r" "rs_fromCache (reloaded r)"
  by (simp_all add: parent_types_def parent_files_def reloaded_def)

lemma reloaded_registries:
  assumes "cl_main c' = reloaded (cl_main c)" and "cl_ancestors c' = cl_ancestors c"
  shows "nsTypes c' = nsTypes c" and "nsFiles c' = nsFiles c" and "schema_types c' = schema_types c" and "schema_files c' = schema_files c"
  by (simp_all add: assms fun_eq_iff nsTypes_def nsFiles_def schema_types_def schema_files_def)

text \<open>A client that does not come up has not touched the cache.\<close>

lemma failed_New_keeps_disk:
  assumes "client_New L now (Some conn) ns opts (w, d) = Some (Inl e, (w', d'))" and chain: "\<not> cfg_useServerChain (fold apply_client_option opts defaultConfig)"
  shows "d' = d"
proof (cases "ns = ''''")
  case True
  with assms(1) show ?thesis by (simp add: client_New_def liftP_def failA_def)
next
  case False
  then show ?thesis
    using assms(1) chain by (auto simp: client_New_def Let_def bindP_def liftP_def persist_quietly_def retA_def thenA_def bindA_def split: option.splits prod.splits sum.splits if_splits)
qed

lemma failed_dial_keeps_disk:
  assumes "dialOnline dial L now addr ns opts (w, d) = Some (Inl e, (w', d'))" and chain: "\<not> cfg_useServerChain (fold apply_client_option opts defaultConfig)"
  shows "d' = d"
  using assms(1) failed_New_keeps_disk [OF _ chain]
  by (auto simp: dialOnline_def Let_def bindP_def liftP_def failA_def retA_def split: option.splits prod.splits sum.splits)


text \<open>The stub of the lookup example, with a wire format for its file.\<close>

definition cache_lib :: lib where
  "cache_lib = list_lib\<lparr>lib_Marshal := \<lambda>ps. if ps = [stub_file] then Inr ''set'' else Inl ''unsupported'', lib_Unmarshal := \<lambda>_. Inr [stub_file]\<rparr>"

abbreviation cache_options :: "client_option list" where
  "cache_options \<equiv> [WithDiskCache ''cache'']"

definition cache_writer :: "client \<times> disk" where
  "cache_writer = (case client_New cache_lib 7 (Some stub) ''n'' cache_options (3, \<lparr>dk_files = [], dk_faults = []\<rparr>) of
     Some (Inr c, (_, d)) \<Rightarrow> (c, d))"

definition no_server :: "string \<Rightarrow> string option \<Rightarrow> (string \<times> string) list \<Rightarrow> u64 conn result" where
  "no_server addr creds md = Inl (Errorf ''unreachable'')"


text \<open>
  Three namespaces \<^verbatim>\<open>c\<close> below \<^verbatim>\<open>b\<close> below \<^verbatim>\<open>a\<close>. Both ancestors have a file \<^verbatim>\<open>acme.proto\<close> that declares \<open>acme.M\<close>; the message
  inside it tells which.
\<close>

definition versioned_message :: "string \<Rightarrow> message_desc" where
  "versioned_message ns = Message ''M'' ''acme.M'' [] [Message ns (''acme.M.'' @ ns) [] [] [] [] []] [] [] []"

definition chain_file :: "string \<Rightarrow> fdproto" where
  "chain_file ns = (if ns = ''c'' then (bare_proto ''own.proto'')\<lparr>fp_package := ''own''\<rparr>
     else (bare_proto ''acme.proto'')\<lparr>fp_package := ''acme'', fp_messages := [versioned_message ns]\<rparr>)"

definition chain_lib :: lib where
  "chain_lib = list_lib\<lparr>lib_Marshal := \<lambda>ps. case find (\<lambda>ns. ps = [chain_file ns]) [''a'', ''b'', ''c''] of None \<Rightarrow> Inl ''unsupported'' | Some ns \<Rightarrow> Inr ns,
     lib_Unmarshal := \<lambda>bs. Inr [chain_file bs]\<rparr>"

definition chain_stub :: "unit conn" where
  "chain_stub = \<lparr>rpc_ListSchemas = (\<lambda>_ _ w. (Inr ([stub_info 1], ''''), w)), rpc_GetDescriptor = (\<lambda>ns _ v w. (Inr (v, [chain_file ns]), w)),
     rpc_GetSource = (\<lambda>_ _ v w. (Inr (v, []), w)), rpc_GetNamespaceChain = (\<lambda>_ w. (Inr [''c'', ''b'', ''a''], w))\<rparr>"

definition chain_options :: "client_option list" where
  "chain_options = [WithServerChain, WithDiskCache ''cache'']"


end
