(* ===== verification/Spec2Isabelle.thy ===== *)
theory Spec2Isabelle
  imports Prelude Descriptors Snapshot Compat Conflict Compiler Staging Namespace Store Store_Facts Paging Hierarchy Versions Registry
    Registry_Facts Registry_Props Recovery Failures Validate Auth Page_Token Server Server_Facts Server_Props Resolve Ns_Files Ns_Files_Facts Ns_Types Ns_Types_Facts
    Client_Snapshot Client_Resolver Client_Cache Client Client_Facts Client_Aggregate Client_Listing Client_Props Client_Offline
begin

text \<open>
  Verification of the schema registry protoregistry: a service that stores versioned protobuf schemas, grouped in
  namespaces, and the client library that reads them.

  \<^bold>\<open>The program.\<close> Callers send \<^verbatim>\<open>.proto\<close> sources to the gRPC handlers (\<^verbatim>\<open>server/\<close>), which authenticate, validate and
  pass them to the registry (\<^verbatim>\<open>registry.go\<close>). \<^verbatim>\<open>Publish\<close> compiles them (\<^verbatim>\<open>compiler/\<close>) against the other schemas of the
  namespace and of its ancestors, rejects names an ancestor defines elsewhere (\<^verbatim>\<open>compiler/conflict.go\<close>), stores the version
  in PostgreSQL (\<^verbatim>\<open>store/\<close>, \<^verbatim>\<open>migrations/\<close>) and stages its snapshot (\<^verbatim>\<open>snapshot/\<close>) in memory (\<^verbatim>\<open>namespace/\<close>). \<^verbatim>\<open>Promote\<close>
  compares every staged snapshot with the current one (\<^verbatim>\<open>compat/\<close>) and makes all of a namespace current at once; only then do
  readers (\<^verbatim>\<open>resolve/\<close> in the process, \<^verbatim>\<open>client/\<close> over the wire) see it. After a restart \<^verbatim>\<open>Restore\<close> rebuilds the memory from
  the database. A client keeps the descriptors of a namespace and its ancestors in registries with a fallback to a
  parent (\<^verbatim>\<open>nsregistry/\<close>), refreshes them, and can start from a cache on disk.

  \<^bold>\<open>How the code is represented.\<close> Conventions are those of the theory \<^verbatim>\<open>Prelude\<close>: Go strings and byte slices are lists of
  characters, \<^verbatim>\<open>uint64\<close> is a 64-bit word, a map is an association list with distinct keys, nil is \<open>None\<close>, an error is a value
  of the datatype \<open>error\<close> with its wrapping and text. A function that may fail returns \<open>error + 'a\<close>; a method with effects is
  an action that returns its result and the state it leaves, also when it fails. Every statement of the database
  and every file operation of the cache can fail: lists of faults in the state decide which, so a theorem about all states
  covers every failure in the middle of a method. Third-party code - protobuf-go, protocompile, SHA-256, the authorizers,
  the texts of the database driver - is a record of functions given to the definitions that use it; what is assumed
  of it stands as a named hypothesis in the theorem.

  \<^bold>\<open>The theories and the code.\<close>

  \<^item> \<^verbatim>\<open>Prelude\<close>, \<^verbatim>\<open>Descriptors\<close>: the shared vocabulary, the sequencing of actions with the locale \<open>state_order\<close> (a
    preorder on states that actions respect, which carries an invariant from the statements to whole methods), the
    descriptor trees and the record \<open>lib\<close> of third-party functions.
  \<^item> \<^verbatim>\<open>Snapshot\<close> is \<^verbatim>\<open>snapshot/snapshot.go\<close>: a snapshot indexes exactly the types its files declare.
  \<^item> \<^verbatim>\<open>Compat\<close> is \<^verbatim>\<open>compat/compat.go\<close>. The wire contract of a snapshot is a set of facts; the check passes exactly if the
    contract only grows, hence compatibility composes along a history (locale \<open>evolution\<close>).
  \<^item> \<^verbatim>\<open>Conflict\<close> and \<^verbatim>\<open>Compiler\<close> are the package \<^verbatim>\<open>compiler\<close>: which conflicts are reported; bounds, normal form and hash of
    sources, the tiers that answer an import, what a compiled snapshot contains, and what a fingerprint identifies.
  \<^item> \<^verbatim>\<open>Staging\<close> is the contract of a staging area (locales \<open>staging_area\<close>, \<open>staging_mirror\<close>), which the memory and the database
    both implement. \<^verbatim>\<open>Namespace\<close> is \<^verbatim>\<open>namespace/namespace.go\<close>: slots with current and staged snapshot, and \<^verbatim>\<open>Chain\<close>.
  \<^item> \<^verbatim>\<open>Store\<close> is \<^verbatim>\<open>store/store.go\<close>, \<^verbatim>\<open>store/postgres\<close> with its queries, and the tables of \<^verbatim>\<open>migrations\<close>. \<^verbatim>\<open>Store_Facts\<close>: keys hold,
    history is kept, failed transactions leave no trace (locale \<open>db_order\<close>, an extension of \<open>state_order\<close>). \<^verbatim>\<open>Versions\<close>: a stored
    version is read back. \<^verbatim>\<open>Hierarchy\<close>: re-parenting, its bound and the audit log. \<^verbatim>\<open>Paging\<close>: keyset pagination once for both
    listings (locale \<open>keyset_listing\<close>).
  \<^item> \<^verbatim>\<open>Registry\<close> is \<^verbatim>\<open>registry.go\<close> with \<^verbatim>\<open>authz/authz.go\<close>. Its state is the database and the namespaces in memory.
    \<^verbatim>\<open>Registry_Facts\<close> has the invariant that ties the two and that every method keeps it, whichever statement fails;
    \<^verbatim>\<open>Registry_Props\<close> what the methods promise; \<^verbatim>\<open>Recovery\<close> what \<^verbatim>\<open>Restore\<close> rebuilds; \<^verbatim>\<open>Failures\<close> which errors can come out.
  \<^item> \<^verbatim>\<open>Validate\<close>, \<^verbatim>\<open>Auth\<close>, \<^verbatim>\<open>Page_Token\<close>, \<^verbatim>\<open>Server\<close> are \<^verbatim>\<open>server/\<close>: limits and input checks, identities and the token file, cursors,
    and the handlers. \<^verbatim>\<open>Server_Facts\<close> and \<^verbatim>\<open>Server_Props\<close> show that a history of calls is a history of the registry, who may
    write, what an error reveals and what is audited.
  \<^item> \<^verbatim>\<open>Resolve\<close> is \<^verbatim>\<open>resolve/resolve.go\<close>: the nearest namespace of the chain answers, and promoted types are found.
  \<^item> \<^verbatim>\<open>Ns_Files\<close> and \<^verbatim>\<open>Ns_Types\<close> are \<^verbatim>\<open>nsregistry/\<close>; their \<^verbatim>\<open>_Facts\<close> show that all indexes of a registry agree after any
    sequence of operations, failed ones included.
  \<^item> \<^verbatim>\<open>Client_Snapshot\<close>, \<^verbatim>\<open>Client_Resolver\<close>, \<^verbatim>\<open>Client_Cache\<close>, \<^verbatim>\<open>Client\<close> are \<^verbatim>\<open>client/\<close>: \<^verbatim>\<open>snapshot.go\<close>; \<^verbatim>\<open>client.go\<close> with the listing of
    \<^verbatim>\<open>refresh.go\<close>; \<^verbatim>\<open>cache.go\<close>; construction, refresh and pinning. The service is a record of calls on an arbitrary state.
    \<^verbatim>\<open>Client_Facts\<close> has the invariant of a client's snapshot and the interface to the service (locale \<open>descriptor_service\<close>, which
    the handlers of \<^verbatim>\<open>Server\<close> implement), \<^verbatim>\<open>Client_Aggregate\<close> the incrementally maintained type registry, \<^verbatim>\<open>Client_Listing\<close> the loop over
    the pages, \<^verbatim>\<open>Client_Props\<close> what a client of any history answers and how it follows the server, and \<^verbatim>\<open>Client_Offline\<close> what a client
    reads back from the cache on disk.

  \<^bold>\<open>Bounds.\<close> \<^verbatim>\<open>Chain\<close> and the recursive query of \<^verbatim>\<open>SetNamespaceParent\<close> stop after 64 steps because the code and the SQL do; the
  theorems say what is exact below the bound, and that a longer chain defeats the check for cycles. The client's loop over the
  pages has no bound in the code and is a partial function with \<open>None\<close> for not returning; that it returns is proved against the
  handlers of this repository. \<open>follow\<close> in \<^verbatim>\<open>Paging\<close> takes a bound on the calls, and one call per row and one more are shown to
  be enough. All other loops are recursions that are proved to end. Versions are 64-bit words in memory and integers in the
  \<^verbatim>\<open>BIGINT\<close> columns, with the clamping conversions of the code between them.

  \<^bold>\<open>Not modelled.\<close> Interleaving: a method runs as one action, and locks, atomics, goroutines, tickers, deadlines and concurrent
  transactions are outside. The transport, TLS, and the encodings that generated code and the JSON package implement: a
  request is the arguments of its handler, a manifest the value its text encodes. The command line tool
  (\<^verbatim>\<open>internal/ctl\<close>, \<^verbatim>\<open>cmd\<close>) and \<^verbatim>\<open>LoadBuiltIns\<close> are flags, terminal and file access around single calls that are modelled.
  Generated code, the embedding of the migrations and the helpers of the test suites have no definitions here.
\<close>

end
